(* ===== verification/Prelude.thy ===== *)
theory Prelude
  imports Main "HOL-Library.Word" "HOL-Library.Monad_Syntax" "HOL-Library.Code_Target_Nat"
begin

text \<open>
  Shared vocabulary of the development: bytes, the result codes of
  \<^verbatim>\<open>src/sdk-impl/uiot_defs.h\<close>, memory accesses that can fault, and a small
  calculus for total correctness of state-passing code.

  Conventions.  A memory access outside an array, a dereference of NULL, a division by zero
  or a second lock of a (non-recursive) mutex has no defined result in C; the model makes
  it the value \<open>None\<close> of an option type.  Code that returns an error code instead of its
  outputs returns \<open>Inl code\<close> of a sum type.  Code with effects takes the state and returns
  the pair of its C return value and the new state.
\<close>

unbundle bit_operations_syntax

type_synonym byte = "8 word"
type_synonym bytes = "byte list"

named_theorems okI \<open>total-correctness lemmas of the operations\<close>
named_theorems put_simps \<open>writers as one block write\<close>

subsection \<open>Result codes\<close>

abbreviation (input) MQTT_ALREADY_CONNECTED :: int where "MQTT_ALREADY_CONNECTED \<equiv> 4"
abbreviation (input) MQTT_CONNECTION_ACCEPTED :: int where "MQTT_CONNECTION_ACCEPTED \<equiv> 3"
abbreviation (input) MQTT_MANUALLY_DISCONNECTED :: int where "MQTT_MANUALLY_DISCONNECTED \<equiv> 2"
abbreviation (input) MQTT_RECONNECTED :: int where "MQTT_RECONNECTED \<equiv> 1"
abbreviation (input) SUCCESS_RET :: int where "SUCCESS_RET \<equiv> 0"
abbreviation (input) FAILURE_RET :: int where "FAILURE_RET \<equiv> -1"
abbreviation (input) ERR_PARAM_INVALID :: int where "ERR_PARAM_INVALID \<equiv> -2"
abbreviation (input) ERR_MQTT_PUSH_TO_LIST_FAILED :: int where "ERR_MQTT_PUSH_TO_LIST_FAILED \<equiv> -102"
abbreviation (input) ERR_MQTT_NO_CONN :: int where "ERR_MQTT_NO_CONN \<equiv> -103"
abbreviation (input) ERR_MQTT_UNKNOWN_ERROR :: int where "ERR_MQTT_UNKNOWN_ERROR \<equiv> -104"
abbreviation (input) ERR_MQTT_ATTEMPTING_RECONNECT :: int where "ERR_MQTT_ATTEMPTING_RECONNECT \<equiv> -105"
abbreviation (input) ERR_MQTT_RECONNECT_TIMEOUT :: int where "ERR_MQTT_RECONNECT_TIMEOUT \<equiv> -106"
abbreviation (input) ERR_MQTT_MAX_SUBSCRIPTIONS_REACHED :: int
  where "ERR_MQTT_MAX_SUBSCRIPTIONS_REACHED \<equiv> -107"
abbreviation (input) ERR_MQTT_SUB_FAILED :: int where "ERR_MQTT_SUB_FAILED \<equiv> -108"
abbreviation (input) ERR_MQTT_NOTHING_TO_READ :: int where "ERR_MQTT_NOTHING_TO_READ \<equiv> -109"
abbreviation (input) ERR_MQTT_PACKET_READ_ERROR :: int where "ERR_MQTT_PACKET_READ_ERROR \<equiv> -110"
abbreviation (input) ERR_MQTT_REQUEST_TIMEOUT :: int where "ERR_MQTT_REQUEST_TIMEOUT \<equiv> -111"
abbreviation (input) ERR_MQTT_CONNACK_UNKNOWN :: int where "ERR_MQTT_CONNACK_UNKNOWN \<equiv> -112"
abbreviation (input) ERR_MQTT_CONNACK_UNACCEPTABLE_PROTOCOL_VERSION :: int
  where "ERR_MQTT_CONNACK_UNACCEPTABLE_PROTOCOL_VERSION \<equiv> -113"
abbreviation (input) ERR_MQTT_CONNACK_IDENTIFIER_REJECTED :: int
  where "ERR_MQTT_CONNACK_IDENTIFIER_REJECTED \<equiv> -114"
abbreviation (input) ERR_MQTT_CONNACK_SERVER_UNAVAILABLE :: int
  where "ERR_MQTT_CONNACK_SERVER_UNAVAILABLE \<equiv> -115"
abbreviation (input) ERR_MQTT_CONNACK_BAD_USERDATA :: int where "ERR_MQTT_CONNACK_BAD_USERDATA \<equiv> -116"
abbreviation (input) ERR_MQTT_CONNACK_NOT_AUTHORIZED :: int
  where "ERR_MQTT_CONNACK_NOT_AUTHORIZED \<equiv> -117"
abbreviation (input) ERR_MQTT_RX_MESSAGE_PACKET_TYPE_INVALID :: int
  where "ERR_MQTT_RX_MESSAGE_PACKET_TYPE_INVALID \<equiv> -118"
abbreviation (input) ERR_MQTT_BUFFER_TOO_SHORT :: int where "ERR_MQTT_BUFFER_TOO_SHORT \<equiv> -119"
abbreviation (input) ERR_MQTT_QOS_NOT_SUPPORT :: int where "ERR_MQTT_QOS_NOT_SUPPORT \<equiv> -120"
abbreviation (input) ERR_MQTT_UNSUB_FAILED :: int where "ERR_MQTT_UNSUB_FAILED \<equiv> -121"
abbreviation (input) ERR_JSON_BUFFER_TRUNCATED :: int where "ERR_JSON_BUFFER_TRUNCATED \<equiv> -133"
abbreviation (input) ERR_JSON_BUFFER_TOO_SMALL :: int where "ERR_JSON_BUFFER_TOO_SMALL \<equiv> -134"
abbreviation (input) ERR_JSON :: int where "ERR_JSON \<equiv> -135"
abbreviation (input) ERR_MAX_APPENDING_REQUEST :: int where "ERR_MAX_APPENDING_REQUEST \<equiv> -137"
abbreviation (input) ERR_MAX_TOPIC_LENGTH :: int where "ERR_MAX_TOPIC_LENGTH \<equiv> -138"
abbreviation (input) ERR_SHADOW_NOT_PROPERTY_EXIST :: int where "ERR_SHADOW_NOT_PROPERTY_EXIST \<equiv> -202"
abbreviation (input) ERR_TCP_READ_FAILED :: int where "ERR_TCP_READ_FAILED \<equiv> -606"
abbreviation (input) ERR_TCP_PEER_SHUTDOWN :: int where "ERR_TCP_PEER_SHUTDOWN \<equiv> -608"
abbreviation (input) ERR_TCP_NOTHING_TO_READ :: int where "ERR_TCP_NOTHING_TO_READ \<equiv> -609"
abbreviation (input) ERR_SSL_WRITE_FAILED :: int where "ERR_SSL_WRITE_FAILED \<equiv> -706"
abbreviation (input) ERR_SSL_READ_TIMEOUT :: int where "ERR_SSL_READ_TIMEOUT \<equiv> -707"
abbreviation (input) ERR_SSL_READ_FAILED :: int where "ERR_SSL_READ_FAILED \<equiv> -708"

subsection \<open>Total correctness of option-valued state passing\<close>

text \<open>\<open>okp m Q\<close>: the computation \<open>m\<close> has a defined result and it satisfies \<open>Q\<close>.\<close>

definition okp :: "('r \<times> 's) option \<Rightarrow> ('r \<Rightarrow> 's \<Rightarrow> bool) \<Rightarrow> bool" where
  "okp m Q = (case m of None \<Rightarrow> False | Some (r, s) \<Rightarrow> Q r s)"

lemma okp_simps [simp]:
  "okp (Some (r, s)) Q = Q r s"
  "okp (None :: ('r \<times> 's) option) Q = False"
  by (simp_all add: okp_def)

lemma okp_Some: "okp (Some p) Q = Q (fst p) (snd p)"
  by (cases p) simp

lemma okp_bind: "okp (Option.bind m f) Q = okp m (\<lambda>r s. okp (f (r, s)) Q)"
  by (cases m) (auto simp: okp_def)

lemma okp_bind_pair: "okp (do { (r, s) \<leftarrow> m; f r s }) Q = okp m (\<lambda>r s. okp (f r s) Q)"
  by (cases m) (auto simp: okp_def)

lemma okp_if: "okp (if b then x else y) Q = ((b \<longrightarrow> okp x Q) \<and> (\<not> b \<longrightarrow> okp y Q))"
  by simp

lemma okp_mono: "okp m P \<Longrightarrow> (\<And>r s. P r s \<Longrightarrow> Q r s) \<Longrightarrow> okp m Q"
  by (cases m) (auto simp: okp_def)

lemma okp_conj: "okp m (\<lambda>r s. P r s \<and> Q r s) \<longleftrightarrow> okp m P \<and> okp m Q"
  by (cases m) (auto simp: okp_def)

lemma okp_ex: "okp m Q \<longleftrightarrow> (\<exists>r s. m = Some (r, s) \<and> Q r s)"
  by (cases m) (auto simp: okp_def)

lemma okpD: "okp m Q \<Longrightarrow> m = Some (r, s) \<Longrightarrow> Q r s"
  by simp

subsection \<open>Arrays and C strings\<close>

text \<open>Reading and writing one byte of an array; outside the array there is no result.\<close>

definition arr_get :: "'a list \<Rightarrow> nat \<Rightarrow> 'a option" where
  "arr_get a i = (if i < length a then Some (a ! i) else None)"

definition arr_set :: "'a list \<Rightarrow> nat \<Rightarrow> 'a \<Rightarrow> 'a list option" where
  "arr_set a i x = (if i < length a then Some (a[i := x]) else None)"

text \<open>\<open>memcpy\<close> into an array at a position, and out of one.\<close>

definition put_bytes :: "'a list \<times> nat \<Rightarrow> 'a list \<Rightarrow> ('a list \<times> nat) option" where
  "put_bytes p bs = (case p of (buf, i) \<Rightarrow>
     if i + length bs \<le> length buf
     then Some (take i buf @ bs @ drop (i + length bs) buf, i + length bs) else None)"

definition get_bytes :: "'a list \<Rightarrow> nat \<Rightarrow> nat \<Rightarrow> 'a list option" where
  "get_bytes buf i n = (if i + n \<le> length buf then Some (take n (drop i buf)) else None)"

text \<open>
  A C string held in an array: the bytes before the first NUL; without a NUL the scan
  leaves the array.
\<close>

definition cstr_of_array :: "bytes \<Rightarrow> bytes option" where
  "cstr_of_array a = (if 0 \<in> set a then Some (takeWhile (\<lambda>c. c \<noteq> 0) a) else None)"

text \<open>The character of a C string at an index; the terminator is at its length.\<close>

definition cstr_at :: "bytes \<Rightarrow> nat \<Rightarrow> byte" where
  "cstr_at s i = (if i < length s then s ! i else 0)"

lemma put_bytes_Nil [simp]: "snd p \<le> length (fst p) \<Longrightarrow> put_bytes p [] = Some p"
  by (cases p) (simp add: put_bytes_def)

lemma put_bytes_append:
  "Option.bind (put_bytes p xs) (\<lambda>q. put_bytes q ys) = put_bytes p (xs @ ys)"
proof (cases p)
  case (Pair a b)
  show ?thesis
  proof (cases "b + length xs \<le> length a")
    case True
    then have "min (length a) b = b" by simp
    with True show ?thesis
      by (auto simp: Pair put_bytes_def add.assoc add.commute [of "length ys"])
  next
    case False
    then show ?thesis by (simp add: Pair put_bytes_def)
  qed
qed

lemma put_bytes_single:
  "put_bytes (buf, i) [c] = (if i < length buf then Some (buf[i := c], i + 1) else None)"
  by (auto simp: put_bytes_def upd_conv_take_nth_drop)

lemma put_bytes_bind_assoc:
  "Option.bind (put_bytes p xs) (\<lambda>q. Option.bind (put_bytes q ys) f)
   = Option.bind (put_bytes p (xs @ ys)) f"
  by (metis Option.bind_assoc put_bytes_append)

lemma put_bytes_Some_length:
  "put_bytes p xs = Some q \<Longrightarrow> length (fst q) = length (fst p) \<and> snd q = snd p + length xs"
  by (cases p) (auto simp: put_bytes_def split: if_splits)

lemma put_bytes_start:
  "length bs \<le> length buf \<Longrightarrow>
   put_bytes (buf, 0) bs = Some (bs @ drop (length bs) buf, length bs)"
  by (simp add: put_bytes_def)

lemma get_bytes_length: "get_bytes buf i n = Some bs \<Longrightarrow> length bs = n"
  by (auto simp: get_bytes_def split: if_splits)

lemma cstr_of_array_terminated:
  "0 \<notin> set s \<Longrightarrow> cstr_of_array (s @ 0 # rest) = Some s"
  by (auto simp: cstr_of_array_def takeWhile_append)

end
