(* ===== verification/Mqtt_Codec.thy ===== *)
theory Mqtt_Codec
  imports Prelude
begin

text \<open>
  The MQTT 3.1.1 packet codec: the byte-level readers and writers of
  \<^verbatim>\<open>src/mqtt/src/mqtt_client_common.c\<close> and the (de)serializers built on them in
  \<^verbatim>\<open>mqtt_client_common.c\<close>, \<^verbatim>\<open>mqtt_client_publish.c\<close>,
  \<^verbatim>\<open>mqtt_client_subscribe.c\<close>, \<^verbatim>\<open>mqtt_client_unsubscribe.c\<close> and
  \<^verbatim>\<open>mqtt_client_connect.c\<close>.

  A pointer into a buffer is the buffer with an index.  Reading or writing outside the
  buffer is a fault (\<open>None\<close>).  A function that returns an error code gives \<open>Inl code\<close>; its
  outputs on success are under \<open>Inr\<close>.  Lengths that C computes in \<open>size_t\<close> are natural
  numbers; where the code narrows them (\<open>uint32_t\<close>, \<open>uint16_t\<close>, or the unsigned
  difference of two pointers) the narrowing is written out.
\<close>

subsection \<open>Message types and quality of service\<close>

datatype MessageTypes =
    RESERVED | CONNECT | CONNACK | PUBLISH | PUBACK | PUBREC | PUBREL | PUBCOMP
  | SUBSCRIBE | SUBACK | UNSUBSCRIBE | UNSUBACK | PINGREQ | PINGRESP | DISCONNECT

fun msg_code :: "MessageTypes \<Rightarrow> byte" where
  "msg_code RESERVED = 0" | "msg_code CONNECT = 1" | "msg_code CONNACK = 2"
| "msg_code PUBLISH = 3" | "msg_code PUBACK = 4" | "msg_code PUBREC = 5"
| "msg_code PUBREL = 6" | "msg_code PUBCOMP = 7" | "msg_code SUBSCRIBE = 8"
| "msg_code SUBACK = 9" | "msg_code UNSUBSCRIBE = 10" | "msg_code UNSUBACK = 11"
| "msg_code PINGREQ = 12" | "msg_code PINGRESP = 13" | "msg_code DISCONNECT = 14"

text \<open>
  The C enumeration \<open>QoS\<close> holds 0, 1 or 2; the two header bits can also carry 3, which the
  code casts into the enumeration unchecked.
\<close>

type_synonym QoS = nat
abbreviation (input) QOS0 :: QoS where "QOS0 \<equiv> 0"
abbreviation (input) QOS1 :: QoS where "QOS1 \<equiv> 1"
abbreviation (input) QOS2 :: QoS where "QOS2 \<equiv> 2"

abbreviation (input) UIOT_MQTT_RX_BUF_LEN :: nat where "UIOT_MQTT_RX_BUF_LEN \<equiv> 2048"
abbreviation (input) UIOT_MQTT_TX_BUF_LEN :: nat where "UIOT_MQTT_TX_BUF_LEN \<equiv> 2048"
abbreviation (input) MAX_NO_OF_REMAINING_LENGTH_BYTES :: nat
  where "MAX_NO_OF_REMAINING_LENGTH_BYTES \<equiv> 4"

subsection \<open>Writers\<close>

type_synonym ptr = "bytes \<times> nat"

definition mqtt_write_char :: "ptr \<Rightarrow> byte \<Rightarrow> ptr option" where
  "mqtt_write_char pptr c = (case pptr of (buf, i) \<Rightarrow> do {
     buf' \<leftarrow> arr_set buf i c; Some (buf', i + 1) })"

definition mqtt_write_uint_16 :: "ptr \<Rightarrow> 16 word \<Rightarrow> ptr option" where
  "mqtt_write_uint_16 pptr anInt = do {
     p \<leftarrow> mqtt_write_char pptr (ucast (anInt div 256));
     mqtt_write_char p (ucast (anInt mod 256)) }"

definition mqtt_write_utf8_string :: "ptr \<Rightarrow> bytes \<Rightarrow> ptr option" where
  "mqtt_write_utf8_string pptr s = do {
     p \<leftarrow> mqtt_write_uint_16 pptr (word_of_nat (length s));
     put_bytes p s }"

text \<open>The do-while loop of \<open>mqtt_write_packet_rem_len\<close>; \<open>n\<close> is the \<open>uint32_t\<close> length.\<close>

fun mqtt_write_packet_rem_len :: "ptr \<Rightarrow> nat \<Rightarrow> ptr option" where
  "mqtt_write_packet_rem_len p n =
     (let encodeByte = word_of_nat (n mod 128) :: byte;
          n' = n div 128;
          encodeByte' = (if n' > 0 then encodeByte OR 0x80 else encodeByte)
      in do { p' \<leftarrow> mqtt_write_char p encodeByte';
              if n' > 0 then mqtt_write_packet_rem_len p' n' else Some p' })"

declare mqtt_write_packet_rem_len.simps [simp del]

definition get_mqtt_packet_len :: "nat \<Rightarrow> nat" where
  "get_mqtt_packet_len rem_len0 =
     (let rem_len = rem_len0 + 1
      in if rem_len < 128 then rem_len + 1
         else if rem_len < 16384 then rem_len + 2
         else if rem_len < 2097151 then rem_len + 3
         else rem_len + 4)"

definition mqtt_init_packet_header :: "MessageTypes \<Rightarrow> QoS \<Rightarrow> byte \<Rightarrow> byte \<Rightarrow> int + byte" where
  "mqtt_init_packet_header message_type Qos dup retained =
     (if message_type = RESERVED then Inl ERR_MQTT_UNKNOWN_ERROR
      else
        let type = msg_code message_type;
            qos = (if Qos = QOS0 then 0 else if Qos = QOS1 then 1
                   else if Qos = QOS2 then 2 else 0) :: byte
        in Inr ((push_bit 4 type AND 0xF0) OR (push_bit 3 dup AND 0x08)
                OR (push_bit 1 qos AND 0x06) OR (retained AND 0x01)))"

subsection \<open>Readers\<close>

definition mqtt_read_char :: "bytes \<Rightarrow> nat \<Rightarrow> (byte \<times> nat) option" where
  "mqtt_read_char buf i = do { c \<leftarrow> arr_get buf i; Some (c, i + 1) }"

definition mqtt_read_uint16_t :: "bytes \<Rightarrow> nat \<Rightarrow> (16 word \<times> nat) option" where
  "mqtt_read_uint16_t buf i = do {
     firstByte \<leftarrow> arr_get buf i;
     secondByte \<leftarrow> arr_get buf (i + 1);
     Some (ucast secondByte + 256 * ucast firstByte, i + 2) }"

text \<open>
  \<open>bufchar\<close> reads through the static cursor \<open>bufptr\<close>; it overwrites \<open>*c\<close> \<open>count\<close> times and
  returns \<open>count\<close>.
\<close>

fun bufchar :: "bytes \<Rightarrow> nat \<Rightarrow> byte \<Rightarrow> nat \<Rightarrow> (byte \<times> nat) option" where
  "bufchar buf bufptr c 0 = Some (c, bufptr)"
| "bufchar buf bufptr c (Suc count) = do {
     c' \<leftarrow> arr_get buf bufptr; bufchar buf (bufptr + 1) c' count }"

text \<open>
  The loop of \<open>_decode_packet_rem_len_from_buf_read\<close> with \<open>getcharfn = bufchar\<close>, which always
  returns the count asked for.  The result is the decoded value and the number of bytes read.
\<close>

function decode_rem_len_loop ::
  "bytes \<Rightarrow> nat \<Rightarrow> nat \<Rightarrow> nat \<Rightarrow> nat \<Rightarrow> (int + nat \<times> nat) option" where
  "decode_rem_len_loop buf bufptr multiplier n v =
     (let n' = n + 1
      in if n' > MAX_NO_OF_REMAINING_LENGTH_BYTES then Some (Inl ERR_MQTT_PACKET_READ_ERROR)
         else do {
           (c, bufptr') \<leftarrow> bufchar buf bufptr 0 1;
           let v' = v + unat (c AND 127) * multiplier;
           if c AND 128 \<noteq> 0 then decode_rem_len_loop buf bufptr' (multiplier * 128) n' v'
           else Some (Inr (v', n')) })"
  by pat_completeness auto
termination
  by (relation "measure (\<lambda>(buf, bufptr, multiplier, n, v). 4 - n)") auto

declare decode_rem_len_loop.simps [simp del]

definition mqtt_read_packet_rem_len_form_buf ::
  "bytes \<Rightarrow> nat \<Rightarrow> (int + nat \<times> nat) option" where
  "mqtt_read_packet_rem_len_form_buf buf i = decode_rem_len_loop buf i 1 0 0"

subsection \<open>Acknowledgement packets\<close>

definition header_type :: "byte \<Rightarrow> byte" where
  "header_type header = drop_bit 4 (header AND 0xF0)"

definition header_dup :: "byte \<Rightarrow> byte" where
  "header_dup header = drop_bit 3 (header AND 0x08)"

definition header_qos :: "byte \<Rightarrow> QoS" where
  "header_qos header = unat (drop_bit 1 (header AND 0x06))"

definition header_retained :: "byte \<Rightarrow> byte" where
  "header_retained header = header AND 0x01"

text \<open>The outputs are the packet type, the DUP flag and the packet identifier.\<close>

definition deserialize_ack_packet ::
  "bytes \<Rightarrow> nat \<Rightarrow> (int + byte \<times> byte \<times> 16 word) option" where
  "deserialize_ack_packet buf buf_len =
     (if 4 > buf_len then Some (Inl ERR_MQTT_BUFFER_TOO_SHORT)
      else do {
        (header, cur) \<leftarrow> mqtt_read_char buf 0;
        let packet_type = header_type header;
        let dup = header_dup header;
        rl \<leftarrow> mqtt_read_packet_rem_len_form_buf buf cur;
        case rl of
          Inl ret \<Rightarrow> Some (Inl ret)
        | Inr (decodedLen, readBytesLen) \<Rightarrow> do {
            let cur = cur + readBytesLen;
            let enddata = cur + decodedLen;
            if enddata - cur < 2 then Some (Inl FAILURE_RET)
            else do {
              (packet_id, cur) \<leftarrow> mqtt_read_uint16_t buf cur;
              if int enddata - int cur \<ge> 1 then do {
                (ack_code, cur) \<leftarrow> mqtt_read_char buf cur;
                if ack_code \<noteq> 0 then Some (Inl FAILURE_RET)
                else Some (Inr (packet_type, dup, packet_id)) }
              else Some (Inr (packet_type, dup, packet_id)) } } })"

text \<open>
  The payload loop of \<open>deserialize_suback_packet\<close>: \<open>cap\<close> is the size of the caller's
  \<open>grantedQoSs\<close> array, beyond which the store is out of bounds.
\<close>

function suback_loop ::
  "bytes \<Rightarrow> nat \<Rightarrow> nat \<Rightarrow> nat \<Rightarrow> nat \<Rightarrow> QoS list \<Rightarrow> (int + QoS list) option" where
  "suback_loop buf cap max_count enddata cur granted =
     (if cur < enddata then
        if length granted > max_count then Some (Inl FAILURE_RET)
        else if cap \<le> length granted then None
        else do {
          (c, _) \<leftarrow> mqtt_read_char buf cur;
          suback_loop buf cap max_count enddata (cur + 1) (granted @ [unat c]) }
      else Some (Inr granted))"
  by pat_completeness auto
termination
  by (relation "measure (\<lambda>(buf, cap, max_count, enddata, cur, granted). enddata - cur)") auto

declare suback_loop.simps [simp del]

definition deserialize_suback_packet ::
  "nat \<Rightarrow> nat \<Rightarrow> bytes \<Rightarrow> nat \<Rightarrow> (int + 16 word \<times> QoS list) option" where
  "deserialize_suback_packet cap max_count buf buf_len =
     (if 5 > buf_len then Some (Inl ERR_MQTT_BUFFER_TOO_SHORT)
      else do {
        (header, cur) \<leftarrow> mqtt_read_char buf 0;
        if header_type header \<noteq> msg_code SUBACK then Some (Inl FAILURE_RET)
        else do {
          rl \<leftarrow> mqtt_read_packet_rem_len_form_buf buf cur;
          case rl of
            Inl ret \<Rightarrow> Some (Inl ret)
          | Inr (decodedLen, readBytesLen) \<Rightarrow> do {
              let cur = cur + readBytesLen;
              let enddata = cur + decodedLen;
              if enddata - cur < 2 then Some (Inl FAILURE_RET)
              else do {
                (packet_id, cur) \<leftarrow> mqtt_read_uint16_t buf cur;
                r \<leftarrow> suback_loop buf cap max_count enddata cur [];
                case r of Inl ret \<Rightarrow> Some (Inl ret)
                | Inr granted \<Rightarrow> Some (Inr (packet_id, granted)) } } } })"

definition deserialize_unsuback_packet :: "bytes \<Rightarrow> nat \<Rightarrow> (int + 16 word) option" where
  "deserialize_unsuback_packet buf buf_len = do {
     r \<leftarrow> deserialize_ack_packet buf buf_len;
     case r of
       Inl ret \<Rightarrow> Some (Inl ret)
     | Inr (type, dup, packet_id) \<Rightarrow>
         if msg_code UNSUBACK \<noteq> type then Some (Inl FAILURE_RET) else Some (Inr packet_id) }"

text \<open>The serializers return the buffer with the packet at its start, and the packet's length.\<close>

definition serialize_packet_with_zero_payload ::
  "bytes \<Rightarrow> nat \<Rightarrow> MessageTypes \<Rightarrow> (int + ptr) option" where
  "serialize_packet_with_zero_payload buf buf_len packetType =
     (if 4 > buf_len then Some (Inl ERR_MQTT_BUFFER_TOO_SHORT)
      else case mqtt_init_packet_header packetType QOS0 0 0 of
        Inl ret \<Rightarrow> Some (Inl ret)
      | Inr header \<Rightarrow> do {
          p \<leftarrow> mqtt_write_char (buf, 0) header;
          p \<leftarrow> mqtt_write_packet_rem_len p 0;
          Some (Inr p) })"

definition serialize_pub_ack_packet ::
  "bytes \<Rightarrow> nat \<Rightarrow> MessageTypes \<Rightarrow> byte \<Rightarrow> 16 word \<Rightarrow> (int + ptr) option" where
  "serialize_pub_ack_packet buf buf_len packet_type dup packet_id =
     (let requestQoS = (if packet_type = PUBREL then QOS1 else QOS0);
          r = mqtt_init_packet_header packet_type requestQoS dup 0
      in if 4 > buf_len then Some (Inl ERR_MQTT_BUFFER_TOO_SHORT)
         else case r of
           Inl ret \<Rightarrow> Some (Inl ret)
         | Inr header \<Rightarrow> do {
             p \<leftarrow> mqtt_write_char (buf, 0) header;
             p \<leftarrow> mqtt_write_packet_rem_len p 2;
             p \<leftarrow> mqtt_write_uint_16 p packet_id;
             Some (Inr p) })"

subsection \<open>PUBLISH\<close>

text \<open>
  \<open>_read_string_with_len\<close>: on success the position and length of the string and the cursor
  behind it.
\<close>

definition read_string_with_len ::
  "bytes \<Rightarrow> nat \<Rightarrow> nat \<Rightarrow> (int + nat \<times> nat \<times> nat) option" where
  "read_string_with_len buf cur enddata =
     (if int enddata - int cur > 1 then do {
        (stringLen, cur) \<leftarrow> mqtt_read_uint16_t buf cur;
        if unat stringLen > UIOT_MQTT_RX_BUF_LEN then Some (Inl FAILURE_RET)
        else if cur + unat stringLen \<le> enddata
        then Some (Inr (cur, unat stringLen, cur + unat stringLen))
        else Some (Inl FAILURE_RET) }
      else Some (Inl FAILURE_RET))"

record publish_fields =
  pf_dup :: byte
  pf_qos :: QoS
  pf_retained :: byte
  pf_packet_id :: "16 word option"
  pf_topic_pos :: nat
  pf_topic_len :: nat
  pf_payload_pos :: nat
  pf_payload_len :: "64 word"

text \<open>
  \<open>packet_id\<close> is written only for a QoS other than 0, so it is optional.  The payload length
  is the difference \<open>enddata - curdata\<close> converted to \<open>size_t\<close>.
\<close>

definition deserialize_publish_packet :: "bytes \<Rightarrow> nat \<Rightarrow> (int + publish_fields) option" where
  "deserialize_publish_packet buf buf_len =
     (if 4 > buf_len then Some (Inl ERR_MQTT_BUFFER_TOO_SHORT)
      else do {
        (header, cur) \<leftarrow> mqtt_read_char buf 0;
        let dup = header_dup header;
        let qos = header_qos header;
        let retained = header_retained header;
        if header_type header \<noteq> msg_code PUBLISH then Some (Inl FAILURE_RET)
        else do {
          rl \<leftarrow> mqtt_read_packet_rem_len_form_buf buf cur;
          case rl of
            Inl ret \<Rightarrow> Some (Inl ret)
          | Inr (decodedLen, readBytesLen) \<Rightarrow> do {
              let cur = cur + readBytesLen;
              let enddata = cur + decodedLen;
              r \<leftarrow> read_string_with_len buf cur enddata;
              case r of
                Inl ret \<Rightarrow> Some (Inl FAILURE_RET)
              | Inr (topic_pos, topic_len, cur) \<Rightarrow>
                  if int enddata - int cur < 0 then Some (Inl FAILURE_RET)
                  else do {
                    (pid, cur) \<leftarrow> (if qos \<noteq> QOS0 then do {
                        (packet_id, cur') \<leftarrow> mqtt_read_uint16_t buf cur;
                        Some (Some packet_id, cur') } else Some (None, cur));
                    Some (Inr \<lparr>pf_dup = dup, pf_qos = qos, pf_retained = retained,
                      pf_packet_id = pid, pf_topic_pos = topic_pos, pf_topic_len = topic_len,
                      pf_payload_pos = cur,
                      pf_payload_len = word_of_int (int enddata - int cur)\<rparr>) } } } })"

definition get_publish_packet_len :: "QoS \<Rightarrow> bytes \<Rightarrow> nat \<Rightarrow> nat" where
  "get_publish_packet_len qos topicName payload_len =
     (2 + length topicName + payload_len + (if qos > 0 then 2 else 0)) mod 2 ^ 32"

definition serialize_publish_packet ::
  "bytes \<Rightarrow> nat \<Rightarrow> byte \<Rightarrow> QoS \<Rightarrow> byte \<Rightarrow> 16 word \<Rightarrow> bytes \<Rightarrow> bytes option \<Rightarrow> (int + ptr) option"
  where
  "serialize_publish_packet buf buf_len dup qos retained packet_id topicName payload_ptr =
     (case payload_ptr of None \<Rightarrow> Some (Inl ERR_PARAM_INVALID) | Some payload \<Rightarrow>
      (let rem_len = get_publish_packet_len qos topicName (length payload)
       in if get_mqtt_packet_len rem_len > buf_len then Some (Inl ERR_MQTT_BUFFER_TOO_SHORT)
          else case mqtt_init_packet_header PUBLISH qos dup retained of
            Inl ret \<Rightarrow> Some (Inl ret)
          | Inr header \<Rightarrow> do {
              p \<leftarrow> mqtt_write_char (buf, 0) header;
              p \<leftarrow> mqtt_write_packet_rem_len p rem_len;
              p \<leftarrow> mqtt_write_utf8_string p topicName;
              p \<leftarrow> (if qos > 0 then mqtt_write_uint_16 p packet_id else Some p);
              p \<leftarrow> put_bytes p payload;
              Some (Inr p) }))"

subsection \<open>SUBSCRIBE and UNSUBSCRIBE\<close>

text \<open>
  The code writes \<open>*topicFilters + i\<close>, which is the suffix of the first filter that starts at
  its \<open>i\<close>-th character, not the \<open>i\<close>-th filter; past the terminator it leaves the string.
\<close>

definition topic_plus :: "bytes list \<Rightarrow> nat \<Rightarrow> bytes option" where
  "topic_plus topicFilters i =
     (case topicFilters of [] \<Rightarrow> None
      | f # _ \<Rightarrow> if i \<le> length f then Some (drop i f) else None)"

fun subscribe_len_loop :: "bytes list \<Rightarrow> nat \<Rightarrow> nat \<Rightarrow> nat \<Rightarrow> nat option" where
  "subscribe_len_loop topicFilters 0 i n = Some n"
| "subscribe_len_loop topicFilters (Suc todo) i n = do {
     t \<leftarrow> topic_plus topicFilters i;
     subscribe_len_loop topicFilters todo (Suc i) (n + (2 + length t + 1)) }"

definition get_subscribe_packet_rem_len :: "nat \<Rightarrow> bytes list \<Rightarrow> nat option" where
  "get_subscribe_packet_rem_len count topicFilters =
     map_option (\<lambda>n. n mod 2 ^ 32) (subscribe_len_loop topicFilters count 0 2)"

fun subscribe_write_loop ::
  "ptr \<Rightarrow> bytes list \<Rightarrow> QoS list \<Rightarrow> nat \<Rightarrow> nat \<Rightarrow> ptr option" where
  "subscribe_write_loop p topicFilters requestedQoSs 0 i = Some p"
| "subscribe_write_loop p topicFilters requestedQoSs (Suc todo) i = do {
     t \<leftarrow> topic_plus topicFilters i;
     p \<leftarrow> mqtt_write_utf8_string p t;
     q \<leftarrow> arr_get requestedQoSs i;
     p \<leftarrow> mqtt_write_char p (word_of_nat q);
     subscribe_write_loop p topicFilters requestedQoSs todo (Suc i) }"

definition serialize_subscribe_packet ::
  "bytes \<Rightarrow> nat \<Rightarrow> byte \<Rightarrow> 16 word \<Rightarrow> nat \<Rightarrow> bytes list \<Rightarrow> QoS list \<Rightarrow> (int + ptr) option" where
  "serialize_subscribe_packet buf buf_len dup packet_id count topicFilters requestedQoSs = do {
     rem_len \<leftarrow> get_subscribe_packet_rem_len count topicFilters;
     if get_mqtt_packet_len rem_len > buf_len then Some (Inl ERR_MQTT_BUFFER_TOO_SHORT)
     else case mqtt_init_packet_header SUBSCRIBE QOS1 dup 0 of
       Inl ret \<Rightarrow> Some (Inl ret)
     | Inr header \<Rightarrow> do {
         p \<leftarrow> mqtt_write_char (buf, 0) header;
         p \<leftarrow> mqtt_write_packet_rem_len p rem_len;
         p \<leftarrow> mqtt_write_uint_16 p packet_id;
         p \<leftarrow> subscribe_write_loop p topicFilters requestedQoSs count 0;
         Some (Inr p) } }"

fun unsubscribe_len_loop :: "bytes list \<Rightarrow> nat \<Rightarrow> nat \<Rightarrow> nat \<Rightarrow> nat option" where
  "unsubscribe_len_loop topicFilters 0 i n = Some n"
| "unsubscribe_len_loop topicFilters (Suc todo) i n = do {
     t \<leftarrow> topic_plus topicFilters i;
     unsubscribe_len_loop topicFilters todo (Suc i) (n + (2 + length t)) }"

definition get_unsubscribe_packet_rem_len :: "nat \<Rightarrow> bytes list \<Rightarrow> nat option" where
  "get_unsubscribe_packet_rem_len count topicFilters =
     map_option (\<lambda>n. n mod 2 ^ 32) (unsubscribe_len_loop topicFilters count 0 2)"

fun unsubscribe_write_loop :: "ptr \<Rightarrow> bytes list \<Rightarrow> nat \<Rightarrow> nat \<Rightarrow> ptr option" where
  "unsubscribe_write_loop p topicFilters 0 i = Some p"
| "unsubscribe_write_loop p topicFilters (Suc todo) i = do {
     t \<leftarrow> topic_plus topicFilters i;
     p \<leftarrow> mqtt_write_utf8_string p t;
     unsubscribe_write_loop p topicFilters todo (Suc i) }"

definition serialize_unsubscribe_packet ::
  "bytes \<Rightarrow> nat \<Rightarrow> byte \<Rightarrow> 16 word \<Rightarrow> nat \<Rightarrow> bytes list \<Rightarrow> (int + ptr) option" where
  "serialize_unsubscribe_packet buf buf_len dup packet_id count topicFilters = do {
     rem_len \<leftarrow> get_unsubscribe_packet_rem_len count topicFilters;
     if get_mqtt_packet_len rem_len > buf_len then Some (Inl ERR_MQTT_BUFFER_TOO_SHORT)
     else case mqtt_init_packet_header UNSUBSCRIBE QOS1 dup 0 of
       Inl ret \<Rightarrow> Some (Inl ret)
     | Inr header \<Rightarrow> do {
         p \<leftarrow> mqtt_write_char (buf, 0) header;
         p \<leftarrow> mqtt_write_packet_rem_len p rem_len;
         p \<leftarrow> mqtt_write_uint_16 p packet_id;
         p \<leftarrow> unsubscribe_write_loop p topicFilters count 0;
         Some (Inr p) } }"

subsection \<open>CONNECT and CONNACK\<close>

record MQTTConnectParams =
  client_id :: "bytes option"
  username :: "bytes option"
  password :: "bytes option"
  mqtt_version :: nat
  keep_alive_interval :: "16 word"
  clean_session :: bool
  auto_connect_enable :: nat

definition DEFAULT_MQTT_CONNECT_PARAMS :: MQTTConnectParams where
  "DEFAULT_MQTT_CONNECT_PARAMS = \<lparr>client_id = None, username = None, password = None,
     mqtt_version = 4, keep_alive_interval = 240, clean_session = True,
     auto_connect_enable = 1\<rparr>"

text \<open>\<open>strlen\<close> of a NULL pointer is a fault, so the client identifier is read through \<open>option\<close>.\<close>

definition get_packet_connect_rem_len :: "MQTTConnectParams \<Rightarrow> nat option" where
  "get_packet_connect_rem_len options = do {
     let n = (if mqtt_version options = 3 then 12
              else if mqtt_version options = 4 then 10 else 0);
     cid \<leftarrow> client_id options;
     let n = n + (length cid + 2);
     let n = (case username options of None \<Rightarrow> n | Some u \<Rightarrow> n + (length u + 2));
     let n = (case password options of None \<Rightarrow> n | Some p \<Rightarrow> n + (length p + 2));
     Some (n mod 2 ^ 32) }"

definition copy_connect_params :: "MQTTConnectParams \<Rightarrow> MQTTConnectParams \<Rightarrow> MQTTConnectParams"
  where
  "copy_connect_params destination source = destination\<lparr>
     mqtt_version := mqtt_version source, client_id := client_id source,
     username := username source, keep_alive_interval := keep_alive_interval source,
     clean_session := clean_session source,
     auto_connect_enable := auto_connect_enable source, password := password source\<rparr>"

definition proto_MQTT :: bytes where "proto_MQTT = [0x4D, 0x51, 0x54, 0x54]"
definition proto_MQIsdp :: bytes where "proto_MQIsdp = [0x4D, 0x51, 0x49, 0x73, 0x64, 0x70]"

definition connect_flags :: "MQTTConnectParams \<Rightarrow> byte" where
  "connect_flags options =
     (if clean_session options then 0x02 else 0) OR
     (if username options \<noteq> None then 0x80 else 0) OR 0x40"

definition serialize_connect_packet ::
  "bytes \<Rightarrow> nat \<Rightarrow> MQTTConnectParams \<Rightarrow> (int + ptr) option" where
  "serialize_connect_packet buf buf_len options =
     (case client_id options of
        None \<Rightarrow> Some (Inl ERR_PARAM_INVALID)
      | Some cid \<Rightarrow>
        if cid = [] then Some (Inl ERR_PARAM_INVALID)
        else do {
          rem_len \<leftarrow> get_packet_connect_rem_len options;
          if get_mqtt_packet_len rem_len > buf_len then Some (Inl ERR_MQTT_BUFFER_TOO_SHORT)
          else case mqtt_init_packet_header CONNECT QOS0 0 0 of
            Inl ret \<Rightarrow> Some (Inl ret)
          | Inr header \<Rightarrow> do {
              p \<leftarrow> mqtt_write_char (buf, 0) header;
              p \<leftarrow> mqtt_write_packet_rem_len p rem_len;
              p \<leftarrow> (if mqtt_version options = 4
                   then do { p \<leftarrow> mqtt_write_utf8_string p proto_MQTT; mqtt_write_char p 4 }
                   else do { p \<leftarrow> mqtt_write_utf8_string p proto_MQIsdp; mqtt_write_char p 3 });
              p \<leftarrow> mqtt_write_char p (connect_flags options);
              p \<leftarrow> mqtt_write_uint_16 p (keep_alive_interval options);
              p \<leftarrow> mqtt_write_utf8_string p cid;
              p \<leftarrow> (case username options of None \<Rightarrow> Some p
                   | Some u \<Rightarrow> mqtt_write_utf8_string p u);
              p \<leftarrow> (case password options of None \<Rightarrow> Some p
                   | Some w \<Rightarrow> mqtt_write_utf8_string p w);
              Some (Inr p) } })"

definition connack_code :: "byte \<Rightarrow> int" where
  "connack_code c =
     (if c = 0 then MQTT_CONNECTION_ACCEPTED
      else if c = 1 then ERR_MQTT_CONNACK_UNACCEPTABLE_PROTOCOL_VERSION
      else if c = 2 then ERR_MQTT_CONNACK_IDENTIFIER_REJECTED
      else if c = 3 then ERR_MQTT_CONNACK_SERVER_UNAVAILABLE
      else if c = 4 then ERR_MQTT_CONNACK_BAD_USERDATA
      else if c = 5 then ERR_MQTT_CONNACK_NOT_AUTHORIZED
      else ERR_MQTT_CONNACK_UNKNOWN)"

text \<open>The outputs are the session-present flag and the translated return code.\<close>

definition deserialize_connack_packet :: "bytes \<Rightarrow> nat \<Rightarrow> (int + byte \<times> int) option" where
  "deserialize_connack_packet buf buflen =
     (if 4 > buflen then Some (Inl ERR_MQTT_BUFFER_TOO_SHORT)
      else do {
        (header, cur) \<leftarrow> mqtt_read_char buf 0;
        if header_type header \<noteq> msg_code CONNACK then Some (Inl FAILURE_RET)
        else do {
          rl \<leftarrow> mqtt_read_packet_rem_len_form_buf buf cur;
          case rl of
            Inl ret \<Rightarrow> Some (Inl ret)
          | Inr (decodedLen, readBytesLen) \<Rightarrow> do {
              let cur = cur + readBytesLen;
              let enddata = cur + decodedLen;
              if enddata - cur \<noteq> 2 then Some (Inl FAILURE_RET)
              else do {
                (flags, cur) \<leftarrow> mqtt_read_char buf cur;
                (connack_rc_char, cur) \<leftarrow> mqtt_read_char buf cur;
                Some (Inr (flags AND 0x01, connack_code connack_rc_char)) } } } })"

subsection \<open>Every writer is one block write\<close>

fun rem_len_bytes :: "nat \<Rightarrow> bytes" where
  "rem_len_bytes n =
     (if n div 128 > 0
      then ((word_of_nat (n mod 128) :: byte) OR 0x80) # rem_len_bytes (n div 128)
      else [word_of_nat (n mod 128)])"

declare rem_len_bytes.simps [simp del]

definition uint16_bytes :: "16 word \<Rightarrow> bytes" where
  "uint16_bytes w = [ucast (w div 256), ucast (w mod 256)]"

definition utf8_bytes :: "bytes \<Rightarrow> bytes" where
  "utf8_bytes s = uint16_bytes (word_of_nat (length s)) @ s"

lemma length_uint16_bytes [simp]: "length (uint16_bytes w) = 2"
  by (simp add: uint16_bytes_def)

lemma length_utf8_bytes [simp]: "length (utf8_bytes s) = 2 + length s"
  by (simp add: utf8_bytes_def)

lemma write_char_put [put_simps]: "mqtt_write_char p c = put_bytes p [c]"
  by (cases p) (simp add: mqtt_write_char_def arr_set_def put_bytes_single)

lemma write_uint_16_put [put_simps]: "mqtt_write_uint_16 p w = put_bytes p (uint16_bytes w)"
  by (simp add: mqtt_write_uint_16_def write_char_put put_bytes_append uint16_bytes_def)

lemma write_utf8_put [put_simps]: "mqtt_write_utf8_string p s = put_bytes p (utf8_bytes s)"
  by (simp add: mqtt_write_utf8_string_def write_uint_16_put put_bytes_append utf8_bytes_def)

lemma write_rem_len_put [put_simps]: "mqtt_write_packet_rem_len p n = put_bytes p (rem_len_bytes n)"
proof (induction n arbitrary: p rule: rem_len_bytes.induct)
  case (1 n)
  show ?case
  proof (cases "n div 128 > 0")
    case True
    with 1 show ?thesis
      by (simp add: mqtt_write_packet_rem_len.simps [of p n] rem_len_bytes.simps [of n]
          write_char_put put_bytes_append Let_def)
  next
    case False
    then show ?thesis
      by (simp add: mqtt_write_packet_rem_len.simps [of p n] rem_len_bytes.simps [of n]
          write_char_put Let_def)
  qed
qed

lemmas put_fold = put_simps put_bytes_append put_bytes_bind_assoc

subsection \<open>The remaining-length field\<close>

lemma length_rem_len_bytes:
  "length (rem_len_bytes n) =
     (if n < 128 then 1 else if n < 16384 then 2 else if n < 2097152 then 3
      else if n < 268435456 then 4 else 4 + length (rem_len_bytes (n div 268435456)))"
proof -
  have step: "length (rem_len_bytes m) = (if m < 128 then 1 else Suc (length (rem_len_bytes (m div 128))))"
    for m by (subst rem_len_bytes.simps) auto
  have divs: "n div 128 div 128 = n div 16384" "n div 16384 div 128 = n div 2097152"
    "n div 2097152 div 128 = n div 268435456"
    by (simp_all add: div_mult2_eq [symmetric])
  have "n div 128 < 128 \<longleftrightarrow> n < 16384" "n div 16384 < 128 \<longleftrightarrow> n < 2097152"
    "n div 2097152 < 128 \<longleftrightarrow> n < 268435456"
    by (simp_all add: div_less_iff_less_mult)
  then show ?thesis
    using step [of n] step [of "n div 128"] step [of "n div 16384"] step [of "n div 2097152"]
    by (simp add: divs)
qed

text \<open>The reservation is never too small below the 4-byte limit, and at most one too large.\<close>

lemma get_mqtt_packet_len_bounds:
  assumes "n < 268435456"
  shows "1 + length (rem_len_bytes n) + n \<le> get_mqtt_packet_len n"
    and "get_mqtt_packet_len n \<le> 2 + length (rem_len_bytes n) + n"
  using assms by (auto simp: get_mqtt_packet_len_def Let_def length_rem_len_bytes)

lemma byte_and_127: "unat ((c :: byte) AND 127) = unat c mod 128"
proof -
  have "(127 :: byte) = mask 7" by (simp add: mask_eq_exp_minus_1)
  then have "unat (c AND 127) = unat (take_bit 7 c)" by (simp only: take_bit_eq_mask)
  also have "\<dots> = take_bit 7 (unat c)" by (rule unsigned_take_bit_eq)
  finally show ?thesis by (simp add: take_bit_eq_mod)
qed

lemma or_128_and_127: "((c :: byte) OR 0x80) AND 127 = c AND 127"
  by (simp add: bit.conj_disj_distrib2)

lemma or_128_and_128: "((c :: byte) OR 0x80) AND 128 \<noteq> 0"
  by (simp add: bit.conj_disj_distrib2 word_ao_absorbs)

lemma digit_and_128: "n < 128 \<Longrightarrow> (word_of_nat n :: byte) AND 128 = 0"
proof -
  assume "n < 128"
  then have "\<not> bit n 7" by (simp add: bit_iff_odd)
  then have "\<not> bit (word_of_nat n :: byte) 7" by (simp only: bit_of_nat_iff) simp
  then show ?thesis using and_exp_eq_0_iff_not_bit [of "word_of_nat n :: byte" 7] by simp
qed

text \<open>One digit: what the encoder writes is what the decoder's masks read.\<close>

lemma digit_value: "n < 128 \<Longrightarrow> unat ((word_of_nat n :: byte) AND 127) = n"
  by (simp add: byte_and_127 unat_of_nat)

lemma digit_value_more: "n < 128 \<Longrightarrow> unat (((word_of_nat n :: byte) OR 0x80) AND 127) = n"
  by (simp only: or_128_and_127 digit_value)

lemma decode_step_last:
  "Suc k \<le> 4 \<Longrightarrow> i < length buf \<Longrightarrow> buf ! i = word_of_nat d \<Longrightarrow> d < 128 \<Longrightarrow>
   decode_rem_len_loop buf i m k v = Some (Inr (v + d * m, Suc k))"
  by (subst decode_rem_len_loop.simps)
     (simp add: arr_get_def digit_value digit_and_128 numeral_eq_Suc del: numeral_eq_Suc)

lemma decode_step_more:
  "Suc k \<le> 4 \<Longrightarrow> i < length buf \<Longrightarrow> buf ! i = word_of_nat d OR 0x80 \<Longrightarrow> d < 128 \<Longrightarrow>
   decode_rem_len_loop buf i m k v =
   decode_rem_len_loop buf (Suc i) (m * 128) (Suc k) (v + d * m)"
  by (subst decode_rem_len_loop.simps)
     (simp add: arr_get_def digit_value_more or_128_and_128)

lemma decode_too_long: "decode_rem_len_loop buf i m 4 v = Some (Inl ERR_MQTT_PACKET_READ_ERROR)"
  by (subst decode_rem_len_loop.simps) simp

text \<open>
  The decoder on the encoder's output: the value comes back within the four digits that are
  allowed, and a longer field is reported as bad data.
\<close>

lemma decode_rem_len_bytes:
  assumes "i + length (rem_len_bytes n) \<le> length buf"
    and "take (length (rem_len_bytes n)) (drop i buf) = rem_len_bytes n" and "k \<le> 4"
  shows "decode_rem_len_loop buf i m k v =
    (if k + length (rem_len_bytes n) \<le> 4 then Some (Inr (v + n * m, k + length (rem_len_bytes n)))
     else Some (Inl ERR_MQTT_PACKET_READ_ERROR))"
  using assms
proof (induction n arbitrary: i k m v rule: rem_len_bytes.induct)
  case (1 n)
  note unf = rem_len_bytes.simps [of n]
  show ?case
  proof (cases "k = 4")
    case True
    then show ?thesis by (simp add: decode_too_long unf)
  next
    case False
    with 1 have k: "Suc k \<le> 4" by simp
    show ?thesis
    proof (cases "n div 128 > 0")
      case True
      let ?bs = "rem_len_bytes (n div 128)"
      from True have unf': "rem_len_bytes n = ((word_of_nat (n mod 128) :: byte) OR 0x80) # ?bs"
        by (simp add: unf)
      with "1.prems" have b: "i < length buf" "buf ! i = word_of_nat (n mod 128) OR 0x80"
        "Suc i + length ?bs \<le> length buf" "take (length ?bs) (drop (Suc i) buf) = ?bs"
        by (auto simp: Cons_nth_drop_Suc [symmetric])
      have "n mod 128 * m + n div 128 * (m * 128) = n * m"
        by (metis add_mult_distrib mod_mult_div_eq mult.assoc mult.commute)
      with "1.IH" [OF True b(3,4) k] decode_step_more [OF k b(1,2)] show ?thesis
        by (simp add: unf' algebra_simps)
    next
      case False
      then have "n < 128" "rem_len_bytes n = [word_of_nat n]" by (auto simp: unf)
      with "1.prems" k decode_step_last [OF k, of i buf n m v] show ?thesis
        by (auto simp: Cons_nth_drop_Suc [symmetric])
    qed
  qed
qed

text \<open>Any decode that succeeds is below 2^28, so the \<open>uint32_t\<close> accumulator never wraps.\<close>

lemma decode_bound:
  assumes "decode_rem_len_loop buf i m k v = Some (Inr (w, n))" "k \<le> 4" "m = 128 ^ k" "v < 128 ^ k"
  shows "w < 128 ^ n \<and> k < n \<and> n \<le> 4 \<and> i + (n - k) \<le> length buf"
  using assms
proof (induction "4 - k" arbitrary: i k m v)
  case 0
  then have "k = 4" by simp
  with 0 show ?case by (simp add: decode_too_long)
next
  case (Suc x)
  from Suc.prems(1) have k: "Suc k \<le> 4" and i: "i < length buf"
    by (auto simp: decode_rem_len_loop.simps [of buf i] arr_get_def split: if_splits)
  let ?v = "v + unat (buf ! i AND 127) * m"
  have "unat (buf ! i AND 127) \<le> 127" by (simp add: byte_and_127)
  then have "unat (buf ! i AND 127) * m \<le> 127 * 128 ^ k" using Suc.prems(3) by simp
  with Suc.prems(4) have v: "?v < 128 ^ Suc k" by simp
  show ?case
  proof (cases "buf ! i AND 128 \<noteq> 0")
    case True
    with Suc.prems k i have rec: "decode_rem_len_loop buf (i + 1) (m * 128) (k + 1) ?v = Some (Inr (w, n))"
      by (simp add: decode_rem_len_loop.simps [of buf i] arr_get_def)
    have "w < 128 ^ n \<and> k + 1 < n \<and> n \<le> 4 \<and> (i + 1) + (n - (k + 1)) \<le> length buf"
      using rec v Suc.prems Suc.hyps(2) k by (intro Suc.hyps(1)) (auto simp: mult.commute)
    then show ?thesis by auto
  next
    case False
    with Suc.prems k i v show ?thesis
      by (auto simp: decode_rem_len_loop.simps [of buf i] arr_get_def)
  qed
qed

subsection \<open>The fixed header\<close>

lemma msg_code_range: "unat (msg_code t) < 15"
  by (cases t) simp_all

lemma msg_code_inj: "msg_code t = msg_code u \<longleftrightarrow> t = u"
  by (cases t; cases u) simp_all

lemma header_RESERVED: "mqtt_init_packet_header RESERVED q d r = Inl ERR_MQTT_UNKNOWN_ERROR"
  by (simp add: mqtt_init_packet_header_def)

lemma byte_eqI:
  fixes a b :: byte
  assumes "bit a 0 = bit b 0" "bit a 1 = bit b 1" "bit a 2 = bit b 2" "bit a 3 = bit b 3"
    "bit a 4 = bit b 4" "bit a 5 = bit b 5" "bit a 6 = bit b 6" "bit a 7 = bit b 7"
  shows "a = b"
proof (rule bit_word_eqI)
  fix n assume "n < LENGTH(8)"
  then have "n \<in> {0,1,2,3,4,5,6,7}" by auto
  with assms show "bit a n = bit b n" by auto
qed

lemma mask_bits:
  "bit (0xF0 :: byte) n \<longleftrightarrow> n \<in> {4,5,6,7}"
  "bit (0x08 :: byte) n \<longleftrightarrow> n = 3" "bit (0x06 :: byte) n \<longleftrightarrow> n \<in> {1,2}"
proof -
  have "bit (0xF0 :: byte) n \<longleftrightarrow> n < 8 \<and> bit (0xF0 :: nat) n"
    using bit_of_nat_iff [of "0xF0" n, where 'a = byte] by simp
  also have "\<dots> \<longleftrightarrow> n \<in> {4,5,6,7}"
  proof (cases "n < 8")
    case True
    then have "n \<in> {0,1,2,3,4,5,6,7}" by auto
    then show ?thesis by (auto simp: bit_iff_odd)
  qed auto
  finally show "bit (0xF0 :: byte) n \<longleftrightarrow> n \<in> {4,5,6,7}" .
  have "bit (0x08 :: byte) n \<longleftrightarrow> bit (2^3 :: byte) n" by simp
  also have "\<dots> \<longleftrightarrow> n = 3" by (subst bit_exp_iff) auto
  finally show "bit (0x08 :: byte) n \<longleftrightarrow> n = 3" .
  have "bit (0x06 :: byte) n \<longleftrightarrow> n < 8 \<and> bit (0x06 :: nat) n"
    using bit_of_nat_iff [of "0x06" n, where 'a = byte] by simp
  also have "\<dots> \<longleftrightarrow> n \<in> {1,2}"
  proof (cases "n < 8")
    case True
    then have "n \<in> {0,1,2,3,4,5,6,7}" by auto
    then show ?thesis by (auto simp: bit_iff_odd)
  qed auto
  finally show "bit (0x06 :: byte) n \<longleftrightarrow> n \<in> {1,2}" .
qed

definition pack_header :: "byte \<Rightarrow> byte \<Rightarrow> byte \<Rightarrow> byte \<Rightarrow> byte" where
  "pack_header t d q r = (push_bit 4 t AND 0xF0) OR (push_bit 3 d AND 0x08)
                OR (push_bit 1 q AND 0x06) OR (r AND 0x01)"

lemma bit_high: "unat (t::byte) < 2^k \<Longrightarrow> k \<le> n \<Longrightarrow> \<not> bit t n"
proof -
  assume a: "unat t < 2 ^ k" "k \<le> n"
  then have "unat t < 2 ^ n" by (meson less_le_trans one_le_numeral power_increasing)
  then have "\<not> bit (unat t) n" by (simp add: bit_iff_odd)
  then show ?thesis by (simp add: bit_unsigned_iff)
qed

lemma pack_fields:
  assumes "unat t < 16" "unat q < 4"
  shows "header_type (pack_header t d q r) = t" "header_dup (pack_header t d q r) = d AND 1"
   "drop_bit 1 (pack_header t d q r AND 0x06) = q" "header_retained (pack_header t d q r) = r AND 1"
proof -
  have t: "\<And>n. 4 \<le> n \<Longrightarrow> \<not> bit t n" and q: "\<And>n. 2 \<le> n \<Longrightarrow> \<not> bit q n"
    using assms bit_high [of t 4] bit_high [of q 2] by auto
  note s = pack_header_def header_type_def header_dup_def header_retained_def
    bit_drop_bit_eq bit_and_iff bit_or_iff bit_push_bit_iff mask_bits bit_1_iff t q
    bit_double_iff mult.commute [of q]
  show "header_type (pack_header t d q r) = t" by (rule byte_eqI) (simp_all add: s)
  show "header_dup (pack_header t d q r) = d AND 1" by (rule byte_eqI) (simp_all add: s)
  show "drop_bit 1 (pack_header t d q r AND 0x06) = q" by (rule byte_eqI) (simp_all add: s)
  show "header_retained (pack_header t d q r) = r AND 1" by (rule byte_eqI) (simp_all add: s)
qed

lemma header_fields:
  assumes "mqtt_init_packet_header t q d r = Inr h"
  shows "header_type h = msg_code t" "header_dup h = d AND 1"
    "header_qos h = (if q \<le> 2 then q else 0)" "header_retained h = r AND 1"
proof -
  let ?q = "(if q = QOS0 then 0 else if q = QOS1 then 1 else if q = QOS2 then 2 else 0) :: byte"
  from assms have h: "h = pack_header (msg_code t) d ?q r"
    by (auto simp: mqtt_init_packet_header_def pack_header_def Let_def split: if_splits)
  have q: "unat ?q < 4" "unat ?q = (if q \<le> 2 then q else 0)" by auto
  have t: "unat (msg_code t) < 16" using msg_code_range [of t] by simp
  note f = pack_fields [OF t q(1), of d r, folded h]
  from f show "header_type h = msg_code t" "header_dup h = d AND 1" "header_retained h = r AND 1"
    by auto
  from f(3) show "header_qos h = (if q \<le> 2 then q else 0)"
    using q(2) by (simp add: header_qos_def)
qed

lemma header_total: "t \<noteq> RESERVED \<Longrightarrow> \<exists>h. mqtt_init_packet_header t q d r = Inr h"
  by (simp add: mqtt_init_packet_header_def Let_def)


subsection \<open>Reading back what was written\<close>

lemma read_char_at: "i < length buf \<Longrightarrow> mqtt_read_char buf i = Some (buf ! i, i + 1)"
  by (simp add: mqtt_read_char_def arr_get_def)

lemma uint16_join:
  fixes w :: "16 word"
  shows "ucast (ucast (w mod 256) :: byte) + 256 * ucast (ucast (w div 256) :: byte) = w"
proof -
  have byte: "unat (ucast (ucast v :: byte) :: 16 word) = unat v" if "unat v < 256" for v :: "16 word"
    using that by (simp add: unsigned_ucast_eq take_bit_eq_mod unat_mod)
  have lo: "unat (ucast (ucast (w mod 256) :: byte) :: 16 word) = unat w mod 256"
    by (subst byte) (simp_all add: unat_mod)
  have "unat w div 256 < 256" using unsigned_less [of w] by (simp add: div_less_iff_less_mult)
  then have hi: "unat (ucast (ucast (w div 256) :: byte) :: 16 word) = unat w div 256"
    by (subst byte) (simp_all add: unat_div)
  have "unat w mod 256 + 256 * (unat w div 256) = unat w" by simp
  moreover have "unat w < 65536" using unsigned_less [of w, where 'a = nat] by simp
  ultimately show ?thesis
    by (simp add: word_unat_eq_iff unat_word_ariths lo hi mod_add_right_eq)
qed

lemma read_uint16_at:
  assumes "i + 2 \<le> length buf" "take 2 (drop i buf) = uint16_bytes w"
  shows "mqtt_read_uint16_t buf i = Some (w, i + 2)"
proof -
  have i: "i < length buf" "Suc i < length buf" using assms(1) by auto
  have "buf ! i = ucast (w div 256)" "buf ! Suc i = ucast (w mod 256)"
    using assms(2) i by (simp_all add: uint16_bytes_def Cons_nth_drop_Suc [symmetric] numeral_2_eq_2)
  with i show ?thesis by (simp add: mqtt_read_uint16_t_def arr_get_def uint16_join)
qed

subsection \<open>The packets on the wire\<close>

text \<open>The bytes each serializer is meant to produce.\<close>

definition frame :: "byte \<Rightarrow> bytes \<Rightarrow> bytes" where
  "frame header body = header # rem_len_bytes (length body) @ body"

definition publish_body :: "QoS \<Rightarrow> 16 word \<Rightarrow> bytes \<Rightarrow> bytes \<Rightarrow> bytes" where
  "publish_body qos packet_id topicName payload =
     utf8_bytes topicName @ (if qos > 0 then uint16_bytes packet_id else []) @ payload"

text \<open>
  The flags of CONNECT as section 3.1.2.3 of the protocol gives them: bit 1 for a clean session, bit
  6 for a password and bit 7 for a user name (the client has no will).  \<open>connect_body\<close> is what is sent:
  the code sets bit 6 in any case.
\<close>

definition protocol_flags :: "MQTTConnectParams \<Rightarrow> byte" where
  "protocol_flags options = (if clean_session options then 2 else 0) +
     (if password options = None then 0 else 64) + (if username options = None then 0 else 128)"

definition connect_body_with :: "byte \<Rightarrow> MQTTConnectParams \<Rightarrow> bytes \<Rightarrow> bytes" where
  "connect_body_with flags options cid =
     (if mqtt_version options = 4 then utf8_bytes proto_MQTT @ [4] else utf8_bytes proto_MQIsdp @ [3])
     @ [flags] @ uint16_bytes (keep_alive_interval options) @ utf8_bytes cid
     @ (case username options of None \<Rightarrow> [] | Some u \<Rightarrow> utf8_bytes u)
     @ (case password options of None \<Rightarrow> [] | Some w \<Rightarrow> utf8_bytes w)"

definition protocol_connect_body :: "MQTTConnectParams \<Rightarrow> bytes \<Rightarrow> bytes" where
  "protocol_connect_body options = connect_body_with (protocol_flags options) options"

definition connect_body :: "MQTTConnectParams \<Rightarrow> bytes \<Rightarrow> bytes" where
  "connect_body options = connect_body_with
     (protocol_flags options + (if password options = None then 64 else 0)) options"

lemma connect_flags_sent:
  "connect_flags options = protocol_flags options + (if password options = None then 64 else 0)"
  by (cases "clean_session options"; cases "password options"; cases "username options")
     (simp_all add: connect_flags_def protocol_flags_def)

lemma connect_body_eq: "connect_body options cid = connect_body_with (connect_flags options) options cid"
  by (simp add: connect_body_def connect_flags_sent)

lemma connect_body_with_password: "password options \<noteq> None \<Longrightarrow> connect_body options = protocol_connect_body options"
  by (auto simp: connect_body_def protocol_connect_body_def)

lemmas connect_body_bytes = connect_body_eq connect_body_with_def

definition placed :: "bytes \<Rightarrow> bytes \<Rightarrow> ptr" where
  "placed buf pkt = (pkt @ drop (length pkt) buf, length pkt)"

lemma put_bytes_placed:
  "put_bytes (buf, 0) pkt = (if length pkt \<le> length buf then Some (placed buf pkt) else None)"
  by (simp add: put_bytes_def placed_def)

lemma put_placed_more:
  assumes "length xs \<le> length buf"
  shows "put_bytes (placed buf xs) ys =
    (if length xs + length ys \<le> length buf then Some (placed buf (xs @ ys)) else None)"
  using put_bytes_append [of "(buf, 0)" xs ys] assms by (simp add: put_bytes_placed)

lemma length_placed: "length pkt \<le> length buf \<Longrightarrow> length (fst (placed buf pkt)) = length buf"
  by (simp add: placed_def)

lemma length_frame: "length (frame h body) = 1 + length (rem_len_bytes (length body)) + length body"
  by (simp add: frame_def)

lemma frame_fits:
  "length body < 268435456 \<Longrightarrow> get_mqtt_packet_len (length body) \<le> n \<Longrightarrow> length (frame h body) \<le> n"
  using get_mqtt_packet_len_bounds(1) [of "length body"] by (simp add: length_frame)

lemma length_publish_body:
  "length (publish_body q i t p) = 2 + length t + length p + (if q > 0 then 2 else 0)"
  by (simp add: publish_body_def)

text \<open>
  All the serializers that reserve with \<open>get_mqtt_packet_len\<close> end alike: the frame is written as
  one block, and the reservation makes it fit.
\<close>

definition framed :: "bytes \<Rightarrow> nat \<Rightarrow> int + byte \<Rightarrow> bytes \<Rightarrow> (int + ptr) option" where
  "framed buf buf_len hdr body =
    (if get_mqtt_packet_len (length body) > buf_len then Some (Inl ERR_MQTT_BUFFER_TOO_SHORT)
     else case hdr of Inl ret \<Rightarrow> Some (Inl ret)
        | Inr header \<Rightarrow> Option.bind (put_bytes (buf, 0) (frame header body)) (\<lambda>p. Some (Inr p)))"

lemma framed_eq:
  assumes "length body < 268435456" "buf_len \<le> length buf"
  shows "framed buf buf_len hdr body =
    (if get_mqtt_packet_len (length body) > buf_len then Some (Inl ERR_MQTT_BUFFER_TOO_SHORT)
     else case hdr of Inl ret \<Rightarrow> Some (Inl ret)
        | Inr header \<Rightarrow> Some (Inr (placed buf (frame header body))))"
proof (cases "get_mqtt_packet_len (length body) > buf_len")
  case False
  then have "\<And>h. length (frame h body) \<le> length buf"
    using frame_fits [OF assms(1), of buf_len] assms(2) by (meson le_trans not_le)
  then show ?thesis by (simp add: framed_def put_bytes_placed split: sum.split)
qed (simp add: framed_def)

lemma serialize_publish_layout:
  assumes "length topicName + length payload < 268435452"
  shows "serialize_publish_packet buf buf_len dup qos retained packet_id topicName (Some payload) =
    framed buf buf_len (mqtt_init_packet_header PUBLISH qos dup retained)
      (publish_body qos packet_id topicName payload)"
proof -
  let ?body = "publish_body qos packet_id topicName payload"
  have len: "get_publish_packet_len qos topicName (length payload) = length ?body"
    using assms by (auto simp: get_publish_packet_len_def length_publish_body)
  show ?thesis
    unfolding serialize_publish_packet_def option.case len Let_def framed_def frame_def
    by (simp add: put_fold publish_body_def split: sum.split)
qed

lemma serialize_pub_ack_layout:
  assumes "buf_len \<le> length buf"
  shows "serialize_pub_ack_packet buf buf_len t dup packet_id =
    (if 4 > buf_len then Some (Inl ERR_MQTT_BUFFER_TOO_SHORT)
     else case mqtt_init_packet_header t (if t = PUBREL then QOS1 else QOS0) dup 0 of
        Inl ret \<Rightarrow> Some (Inl ret)
      | Inr header \<Rightarrow> Some (Inr (placed buf (frame header (uint16_bytes packet_id)))))"
proof -
  define hdr where "hdr = mqtt_init_packet_header t (if t = PUBREL then QOS1 else QOS0) dup 0"
  show ?thesis
    unfolding serialize_pub_ack_packet_def Let_def hdr_def [symmetric]
    using assms by (simp add: put_fold split: sum.split)
      (auto simp: put_bytes_placed frame_def length_rem_len_bytes)
qed

lemma serialize_zero_layout:
  assumes "buf_len \<le> length buf"
  shows "serialize_packet_with_zero_payload buf buf_len t =
    (if 4 > buf_len then Some (Inl ERR_MQTT_BUFFER_TOO_SHORT)
     else case mqtt_init_packet_header t QOS0 0 0 of
        Inl ret \<Rightarrow> Some (Inl ret)
      | Inr header \<Rightarrow> Some (Inr (placed buf (frame header []))))"
  unfolding serialize_packet_with_zero_payload_def
  using assms by (simp add: put_fold split: sum.split)
    (auto simp: put_bytes_placed frame_def length_rem_len_bytes)

lemma serialize_subscribe_layout:
  assumes "length topicFilter < 268435451"
  shows "serialize_subscribe_packet buf buf_len dup packet_id 1 [topicFilter] [qos] =
    framed buf buf_len (mqtt_init_packet_header SUBSCRIBE QOS1 dup 0)
      (uint16_bytes packet_id @ utf8_bytes topicFilter @ [word_of_nat qos])"
proof -
  let ?body = "uint16_bytes packet_id @ utf8_bytes topicFilter @ [word_of_nat qos]"
  have len: "get_subscribe_packet_rem_len 1 [topicFilter] = Some (length ?body)"
    using assms(1) by (auto simp: get_subscribe_packet_rem_len_def topic_plus_def)
  show ?thesis
    unfolding serialize_subscribe_packet_def len Option.bind.simps framed_def frame_def
    by (simp add: put_fold topic_plus_def arr_get_def split: sum.split)
qed

lemma serialize_unsubscribe_layout:
  assumes "length topicFilter < 268435451"
  shows "serialize_unsubscribe_packet buf buf_len dup packet_id 1 [topicFilter] =
    framed buf buf_len (mqtt_init_packet_header UNSUBSCRIBE QOS1 dup 0)
      (uint16_bytes packet_id @ utf8_bytes topicFilter)"
proof -
  let ?body = "uint16_bytes packet_id @ utf8_bytes topicFilter"
  have len: "get_unsubscribe_packet_rem_len 1 [topicFilter] = Some (length ?body)"
    using assms(1) by (auto simp: get_unsubscribe_packet_rem_len_def topic_plus_def)
  show ?thesis
    unfolding serialize_unsubscribe_packet_def len Option.bind.simps framed_def frame_def
    by (simp add: put_fold topic_plus_def split: sum.split)
qed

definition opt_len :: "bytes option \<Rightarrow> nat" where
  "opt_len s = (case s of None \<Rightarrow> 0 | Some x \<Rightarrow> length x)"

lemma serialize_connect_layout:
  assumes "client_id options = Some cid" "cid \<noteq> []" "mqtt_version options \<in> {3, 4}"
    and "length cid + opt_len (username options) + opt_len (password options) < 268435400"
  shows "serialize_connect_packet buf buf_len options =
    framed buf buf_len (mqtt_init_packet_header CONNECT QOS0 0 0) (connect_body options cid)"
proof -
  have len: "get_packet_connect_rem_len options = Some (length (connect_body options cid))"
    using assms by (auto simp: get_packet_connect_rem_len_def connect_body_bytes opt_len_def
        proto_MQTT_def proto_MQIsdp_def split: option.splits)
  have v: "mqtt_version options = 4 \<or> mqtt_version options = 3" using assms(3) by auto
  show ?thesis
    unfolding serialize_connect_packet_def assms(1) option.case len Option.bind.simps
      framed_def frame_def connect_body_bytes
    using assms(2) v
    by (cases "username options"; cases "password options"; elim disjE)
       (simp_all add: put_fold split: sum.split)
qed

subsection \<open>Reading a packet back\<close>

lemma frame_header: "mqtt_read_char (frame h body @ rest) 0 = Some (h, 1)"
  by (simp add: read_char_at frame_def)

lemma frame_rem_len:
  assumes "length body < 268435456"
  shows "mqtt_read_packet_rem_len_form_buf (frame h body @ rest) 1 =
    Some (Inr (length body, length (rem_len_bytes (length body))))"
  using assms decode_rem_len_bytes [of 1 "length body" "frame h body @ rest" 0 1 0]
  by (simp add: mqtt_read_packet_rem_len_form_buf_def frame_def length_rem_len_bytes)

definition body_pos :: "bytes \<Rightarrow> nat" where
  "body_pos body = 1 + length (rem_len_bytes (length body))"

lemma frame_drop:
  "k \<le> length body \<Longrightarrow> drop (body_pos body + k) (frame h body @ rest) = drop k body @ rest"
  by (simp add: frame_def body_pos_def)

lemma frame_length: "length (frame h body) = body_pos body + length body"
  by (simp add: frame_def body_pos_def)

lemma frame_read_uint16:
  assumes "take 2 (drop k body) = uint16_bytes w" "k + 2 \<le> length body"
  shows "mqtt_read_uint16_t (frame h body @ rest) (body_pos body + k) = Some (w, body_pos body + k + 2)"
proof (rule read_uint16_at)
  have "k \<le> length body" using assms(2) by simp
  from frame_drop [OF this, of h rest] assms
  show "take 2 (drop (body_pos body + k) (frame h body @ rest)) = uint16_bytes w" by simp
qed (use assms(2) in \<open>simp add: frame_length\<close>)

lemma ack_roundtrip:
  assumes "mqtt_init_packet_header t q dup 0 = Inr h" "4 \<le> n"
  shows "deserialize_ack_packet (frame h (uint16_bytes pid) @ rest) n =
    Some (Inr (msg_code t, dup AND 1, pid))"
proof -
  have p: "body_pos (uint16_bytes pid) = 2" by (simp add: body_pos_def length_rem_len_bytes)
  have "mqtt_read_uint16_t (frame h (uint16_bytes pid) @ rest) 2 = Some (pid, 4)"
    using frame_read_uint16 [of 0 "uint16_bytes pid" pid h rest] by (simp add: p)
  moreover have "mqtt_read_packet_rem_len_form_buf (frame h (uint16_bytes pid) @ rest) (Suc 0) = Some (Inr (2, 1))"
    using frame_rem_len [of "uint16_bytes pid" h rest] by (simp add: length_rem_len_bytes)
  ultimately show ?thesis
    using assms(2) header_fields [OF assms(1)]
    by (simp add: deserialize_ack_packet_def frame_header Let_def numeral_2_eq_2)
qed

lemma length_word16: "length s < 65536 \<Longrightarrow> unat (word_of_nat (length s) :: 16 word) = length s"
  by (simp add: unat_of_nat)

lemma read_string_at:
  assumes "body_pos body + k + 2 + length s \<le> body_pos body + length body"
    "take (2 + length s) (drop k body) = utf8_bytes s" "length s \<le> 2048"
  shows "read_string_with_len (frame h body @ rest) (body_pos body + k) (body_pos body + length body) =
    Some (Inr (body_pos body + k + 2, length s, body_pos body + k + 2 + length s))"
proof -
  have "take 2 (drop k body) = take 2 (take (2 + length s) (drop k body))"
    by (simp add: numeral_2_eq_2)
  also have "\<dots> = uint16_bytes (word_of_nat (length s))"
    by (simp only: assms(2)) (simp add: utf8_bytes_def)
  finally have "mqtt_read_uint16_t (frame h body @ rest) (body_pos body + k) =
      Some (word_of_nat (length s), body_pos body + k + 2)"
    using assms(1) by (intro frame_read_uint16) simp_all
  then show ?thesis using assms(1,3) by (simp add: read_string_with_len_def length_word16)
qed

lemma publish_roundtrip:
  fixes rest :: bytes and pid :: "16 word"
  assumes h: "mqtt_init_packet_header PUBLISH q dup ret = Inr h"
    and q: "q \<le> 2" and t: "length t \<le> 2048" and b: "length t + length p < 268435452" and n: "4 \<le> n"
  defines "body \<equiv> publish_body q pid t p"
  shows "deserialize_publish_packet (frame h body @ rest) n =
    Some (Inr \<lparr>pf_dup = dup AND 1, pf_qos = q, pf_retained = ret AND 1,
      pf_packet_id = (if q = 0 then None else Some pid),
      pf_topic_pos = body_pos body + 2, pf_topic_len = length t,
      pf_payload_pos = body_pos body + (length body - length p),
      pf_payload_len = word_of_nat (length p)\<rparr>)"
proof -
  let ?buf = "frame h body @ rest"
  have lb: "length body = 2 + length t + length p + (if q > 0 then 2 else 0)"
    by (simp add: body_def length_publish_body)
  have body0: "take (2 + length t) body = utf8_bytes t"
    by (simp add: body_def publish_body_def)
  have str: "read_string_with_len ?buf (body_pos body) (body_pos body + length body) =
      Some (Inr (body_pos body + 2, length t, body_pos body + 2 + length t))"
    using read_string_at [of body 0 t h rest] body0 t lb by simp
  have pid: "q > 0 \<Longrightarrow> mqtt_read_uint16_t ?buf (body_pos body + 2 + length t) =
      Some (pid, body_pos body + 2 + length t + 2)"
    using frame_read_uint16 [of "2 + length t" body pid h rest] lb
    by (simp add: body_def publish_body_def add.assoc)
  have rl: "mqtt_read_packet_rem_len_form_buf ?buf 1 = Some (Inr (length body, body_pos body - 1))"
    using frame_rem_len [of body h rest] lb b by (simp add: body_pos_def split: if_splits)
  have bp: "1 + (body_pos body - 1) = body_pos body" by (simp add: body_pos_def)
  show ?thesis
    unfolding deserialize_publish_packet_def frame_header Option.bind.simps prod.case rl sum.case
      Let_def bp str
    using n header_fields [OF h] q lb pid
    by (auto simp: algebra_simps split: if_splits)
qed

end
