(* ===== verification/Codec_Props.thy ===== *)
theory Codec_Props
  imports Mqtt_Codec
begin

text \<open>
  The properties of the MQTT packet codec: round trips between the serializers and the
  deserializers, where a deserializer reads outside its buffer and where not, and the flag that a
  serializer sets without need.
\<close>

text \<open>
  C24: The remaining-length field written at any place of a buffer is read back by the decoder
  with the number of bytes written, for every value the protocol allows (below 2^28); a larger
  value is reported as bad data, because the decoder stops after four bytes.
\<close>

theorem rem_len_field_roundtrip:
  assumes "mqtt_write_packet_rem_len (buf, i) n = Some (buf', j)"
  shows "mqtt_read_packet_rem_len_form_buf buf' i =
    (if n < 268435456 then Some (Inr (n, j - i)) else Some (Inl ERR_MQTT_PACKET_READ_ERROR))"
proof -
  let ?bs = "rem_len_bytes n"
  from assms have fit: "i + length ?bs \<le> length buf" "buf' = take i buf @ ?bs @ drop (i + length ?bs) buf"
    "j = i + length ?bs"
    by (auto simp: write_rem_len_put put_bytes_def split: if_splits)
  have "length ?bs \<ge> 1" by (subst rem_len_bytes.simps) simp
  moreover have "length ?bs \<le> 4 \<longleftrightarrow> n < 268435456"
  proof (cases "n < 268435456")
    case False
    have "rem_len_bytes (n div 268435456) \<noteq> []" by (subst rem_len_bytes.simps) simp
    then show ?thesis using False by (simp add: length_rem_len_bytes [of n])
  qed (simp add: length_rem_len_bytes)
  ultimately show ?thesis
    using decode_rem_len_bytes [of i n buf' 0 1 0] fit
    by (simp add: mqtt_read_packet_rem_len_form_buf_def)
qed

theorem rem_len_field_roundtrip_witness:
  "mqtt_read_packet_rem_len_form_buf [7, 0xC1, 0x02, 9] 1 = Some (Inr (321, 2))"
proof -
  have "mqtt_write_packet_rem_len ([7, 0, 0, 9], 1) 321 = Some ([7, 0xC1, 0x02, 9], 3)"
    by code_simp
  from rem_len_field_roundtrip [OF this] show ?thesis by simp
qed

lemma framedD:
  assumes "framed buf buf_len hdr body = Some (Inr (buf', n))" "length body < 268435456"
    "buf_len \<le> length buf"
  obtains h where "hdr = Inr h" "buf' = frame h body @ drop (length (frame h body)) buf"
    "n = length (frame h body)" "n \<le> buf_len"
proof -
  have "\<exists>h. get_mqtt_packet_len (length body) \<le> buf_len \<and> hdr = Inr h
      \<and> placed buf (frame h body) = (buf', n)"
    using assms(1) unfolding framed_eq [OF assms(2,3)] by (auto split: if_splits sum.splits)
  then obtain h where fit: "get_mqtt_packet_len (length body) \<le> buf_len" and h: "hdr = Inr h"
    and p: "placed buf (frame h body) = (buf', n)" by blast
  from p have "buf' = frame h body @ drop (length (frame h body)) buf" "n = length (frame h body)"
    unfolding placed_def by blast+
  with that [OF h] frame_fits [OF assms(2) fit, of h] show ?thesis by blast
qed

text \<open>
  C2: What \<open>serialize_publish_packet\<close> writes stays inside the transmit buffer, and
  \<open>deserialize_publish_packet\<close> reads the same DUP and RETAIN bits, QoS, packet identifier, topic
  and payload back from it; the payload ends exactly at the packet's end.
\<close>

theorem publish_packet_roundtrip:
  assumes ser: "serialize_publish_packet buf buf_len dup qos retained packet_id topic (Some payload)
      = Some (Inr (buf', n))"
    and "buf_len \<le> length buf" "qos \<le> 2" "length topic \<le> 2048"
    and "length topic + length payload < 268435452"
  shows "n \<le> buf_len \<and> length buf' = length buf \<and>
    (\<exists>f. deserialize_publish_packet buf' n = Some (Inr f) \<and>
      pf_dup f = dup AND 1 \<and> pf_qos f = qos \<and> pf_retained f = retained AND 1 \<and>
      pf_packet_id f = (if qos = 0 then None else Some packet_id) \<and>
      take (pf_topic_len f) (drop (pf_topic_pos f) buf') = topic \<and>
      take (unat (pf_payload_len f)) (drop (pf_payload_pos f) buf') = payload \<and>
      pf_payload_pos f + unat (pf_payload_len f) = n)"
proof -
  let ?body = "publish_body qos packet_id topic payload"
  have lb: "length ?body = 2 + length topic + length payload + (if qos > 0 then 2 else 0)"
    by (simp add: length_publish_body)
  then have small: "length ?body < 268435456" using assms(5) by simp
  from ser serialize_publish_layout [OF assms(5), of buf buf_len dup qos retained packet_id]
  have "framed buf buf_len (mqtt_init_packet_header PUBLISH qos dup retained) ?body = Some (Inr (buf', n))"
    by simp
  then obtain h where h: "mqtt_init_packet_header PUBLISH qos dup retained = Inr h"
    and buf': "buf' = frame h ?body @ drop (length (frame h ?body)) buf"
    and n: "n = length (frame h ?body)" "n \<le> buf_len"
    by (rule framedD [OF _ small assms(2)])
  have n': "n = body_pos ?body + length ?body" by (simp add: n(1) frame_length)
  have n4: "4 \<le> n" using lb by (simp add: n' body_pos_def length_rem_len_bytes)
  have len: "length buf' = length buf" using n assms(2) by (simp add: buf')
  have p64: "unat (word_of_nat (length payload) :: 64 word) = length payload"
    using assms(5) by (simp add: unat_of_nat)
  have topic: "take (length topic) (drop (body_pos ?body + 2) buf') = topic"
    unfolding buf' by (subst frame_drop) (simp_all add: lb publish_body_def utf8_bytes_def)
  have "take (length payload) (drop (length ?body - length payload) ?body) = payload"
    unfolding lb by (simp add: publish_body_def)
  then have payload: "take (length payload) (drop (body_pos ?body + (length ?body - length payload)) buf') = payload"
    unfolding buf' by (subst frame_drop) (simp_all add: lb)
  have end_eq: "body_pos ?body + (length ?body - length payload) + length payload = n"
    using lb by (simp add: n')
  show ?thesis
    using publish_roundtrip [OF h assms(3-5) n4, of packet_id "drop (length (frame h ?body)) buf"]
      n len topic payload end_eq p64
    unfolding buf' [symmetric] by simp
qed

theorem publish_packet_roundtrip_witness:
  "\<exists>f. deserialize_publish_packet [0x33, 9, 0, 2, 0x61, 0x62, 0, 5, 1, 2, 3, 0] 11 = Some (Inr f) \<and>
     pf_qos f = 1 \<and> take (unat (pf_payload_len f)) (drop (pf_payload_pos f)
       [0x33, 9, 0, 2, 0x61, 0x62, 0, 5, 1, 2, 3, 0]) = [1, 2, 3 :: byte]"
proof -
  have ser: "serialize_publish_packet (replicate 12 0) 12 0 1 1 5 [0x61, 0x62] (Some [1, 2, 3]) =
      Some (Inr ([0x33, 9, 0, 2, 0x61, 0x62, 0, 5, 1, 2, 3, 0], 11))"
    by code_simp
  have side: "(12::nat) \<le> length (replicate 12 (0::byte))" "(1::nat) \<le> 2"
    "length [0x61, 0x62 :: byte] \<le> 2048" "length [0x61, 0x62 :: byte] + length [1, 2, 3 :: byte] < 268435452"
    by simp_all
  from publish_packet_roundtrip [OF ser side] show ?thesis
    by (elim conjE exE) (intro exI conjI; assumption)
qed

text \<open>
  An acknowledgement written by \<open>serialize_pub_ack_packet\<close> (PUBACK, PUBREC, PUBREL,
  PUBCOMP, and the UNSUBACK a server sends) is read back by \<open>deserialize_ack_packet\<close> with its
  type, DUP bit and packet identifier, for every identifier.
\<close>

lemma ack_packet_roundtrip:
  assumes "serialize_pub_ack_packet buf buf_len t dup packet_id = Some (Inr (buf', n))"
    and "buf_len \<le> length buf"
  shows "n = 4 \<and> length buf' = length buf \<and>
    deserialize_ack_packet buf' n = Some (Inr (msg_code t, dup AND 1, packet_id))"
proof -
  let ?body = "uint16_bytes packet_id"
  from assms(1) obtain h where h: "mqtt_init_packet_header t (if t = PUBREL then QOS1 else QOS0) dup 0 = Inr h"
    and p: "placed buf (frame h ?body) = (buf', n)" and b: "4 \<le> buf_len"
    by (auto simp: serialize_pub_ack_layout [OF assms(2)] split: if_splits sum.splits)
  have "length (frame h ?body) = 4" by (simp add: frame_def length_rem_len_bytes)
  with p have "buf' = frame h ?body @ drop 4 buf" "n = 4" by (auto simp: placed_def)
  with ack_roundtrip [OF h] b assms(2) show ?thesis by (simp add: frame_def length_rem_len_bytes)
qed

text \<open>
  C25: With a password, \<open>serialize_connect_packet\<close> writes exactly the CONNECT packet of the
  protocol: protocol name and level, flags, keep-alive, client identifier, user name and password.
  Without a password the packet differs from the protocol's in one bit: the flags announce a
  password (64) that does not follow.  When the buffer is too short the packet is not written, and
  nothing is ever written outside the buffer.
\<close>

theorem connect_packet_layout:
  assumes "client_id options = Some cid" "cid \<noteq> []" "mqtt_version options \<in> {3, 4}"
    and "length cid + opt_len (username options) + opt_len (password options) < 268435400"
    and "buf_len \<le> length buf"
  shows "serialize_connect_packet buf buf_len options =
    (let body = (if password options = None
                 then connect_body_with (protocol_flags options + 64) options cid
                 else protocol_connect_body options cid)
     in if get_mqtt_packet_len (length body) > buf_len then Some (Inl ERR_MQTT_BUFFER_TOO_SHORT)
        else Some (Inr (frame 0x10 body @ drop (length (frame 0x10 body)) buf, length (frame 0x10 body))))"
proof -
  have small: "length (connect_body options cid) < 268435456"
    using assms(4) by (auto simp: connect_body_bytes opt_len_def proto_MQTT_def proto_MQIsdp_def
        split: option.splits)
  have hdr: "mqtt_init_packet_header CONNECT QOS0 0 0 = Inr 0x10" by code_simp
  have body: "(if password options = None then connect_body_with (protocol_flags options + 64) options cid
      else protocol_connect_body options cid) = connect_body options cid"
    by (simp add: connect_body_def protocol_connect_body_def)
  show ?thesis
    unfolding body
    by (simp add: Let_def serialize_connect_layout [OF assms(1-4)] framed_eq [OF small assms(5)] hdr placed_def)
qed

definition with_password :: MQTTConnectParams where
  "with_password = DEFAULT_MQTT_CONNECT_PARAMS\<lparr>client_id := Some [0x61], username := Some [0x75], password := Some [0x70]\<rparr>"

theorem connect_packet_layout_witness:
  "serialize_connect_packet (replicate 24 0) 24 with_password =
   Some (Inr ([0x10, 19, 0, 4, 0x4D, 0x51, 0x54, 0x54, 4, 0xC2, 0, 240, 0, 1, 0x61, 0, 1, 0x75, 0, 1, 0x70] @
     replicate 3 0, 21))"
proof -
  let ?b = "[0, 4, 0x4D, 0x51, 0x54, 0x54, 4, 0xC2, 0, 240, 0, 1, 0x61, 0, 1, 0x75, 0, 1, 0x70] :: bytes"
  have b: "protocol_connect_body with_password [0x61] = ?b" by code_simp
  have f: "frame 0x10 ?b = [0x10, 19] @ ?b" "\<not> get_mqtt_packet_len (length ?b) > 24" by code_simp+
  have d: "drop 21 (replicate 24 (0 :: byte)) = replicate 3 0" "length ([0x10, 19] @ ?b) = 21"
    by code_simp+
  have side: "client_id with_password = Some [0x61]" "[0x61 :: byte] \<noteq> []" "mqtt_version with_password \<in> {3, 4}"
    "length [0x61 :: byte] + opt_len (username with_password) + opt_len (password with_password) < 268435400"
    "24 \<le> length (replicate 24 (0 :: byte))"
    by (simp_all add: with_password_def DEFAULT_MQTT_CONNECT_PARAMS_def opt_len_def)
  have pw: "(password with_password = None) = False" by (simp add: with_password_def)
  from connect_packet_layout [OF side] have "serialize_connect_packet (replicate 24 0) 24 with_password =
      Some (Inr (([0x10, 19] @ ?b) @ replicate 3 0, 21))"
    by (simp only: pw Let_def if_False b f d)
  then show ?thesis by simp
qed

text \<open>
  The CONNECT flags announce a password whether or not there is one: for a client without
  user name and password the frame has the password flag set and no password field.
\<close>

lemma connect_flags_announce_password:
  "connect_flags options AND 0x40 = 0x40"
  by (simp add: connect_flags_def bit.conj_disj_distrib2 word_ao_absorbs)

lemma read_uint16_some: "i + 2 \<le> length buf \<Longrightarrow> \<exists>w. mqtt_read_uint16_t buf i = Some (w, i + 2)"
  by (simp add: mqtt_read_uint16_t_def arr_get_def)

lemma read_uint16_pos: "mqtt_read_uint16_t buf i = Some (w, j) \<Longrightarrow> j = i + 2"
  by (auto simp: mqtt_read_uint16_t_def split: bind_splits)

lemma read_string_in_bounds:
  assumes "enddata \<le> length buf"
  shows "\<exists>r. read_string_with_len buf cur enddata = Some r"
    "read_string_with_len buf cur enddata = Some (Inr (p, l, c)) \<Longrightarrow>
     p = cur + 2 \<and> c = p + l \<and> c \<le> enddata"
  using assms read_uint16_some [of cur buf]
  by (auto simp: read_string_with_len_def split: if_splits bind_splits dest: read_uint16_pos)

lemma read_uint16_none: "mqtt_read_uint16_t buf i = None \<longleftrightarrow> length buf < i + 2"
  by (auto simp: mqtt_read_uint16_t_def arr_get_def bind_eq_None_conv)

lemma decoded_small:
  assumes "mqtt_read_packet_rem_len_form_buf buf 1 = Some (Inr (rem_len, k))"
  shows "rem_len < 268435456"
proof -
  have "rem_len < 128 ^ k \<and> k \<le> 4"
    using decode_bound [OF assms [unfolded mqtt_read_packet_rem_len_form_buf_def]] by simp
  then have "rem_len < 128 ^ 4"
    by (meson less_le_trans one_le_numeral power_increasing)
  then show ?thesis by simp
qed

text \<open>
  C26: When the packet announced by the remaining length lies in the receive buffer,
  \<open>deserialize_publish_packet\<close> reads outside the buffer in one case only: a packet with QoS above 0
  whose topic leaves less than two bytes for the packet identifier, at the end of the buffer.  The
  topic it returns lies inside the packet, and the payload ends where the packet ends if there is
  room for the identifier.  Without that room the payload length wraps around to 2^64 - 1 or
  2^64 - 2.
\<close>

theorem deserialize_publish_in_bounds:
  assumes rl: "mqtt_read_packet_rem_len_form_buf buf 1 = Some (Inr (rem_len, k))"
    and fits: "1 + k + rem_len \<le> length buf"
  shows "(deserialize_publish_packet buf buf_len = None \<longrightarrow>
      header_qos (buf ! 0) \<noteq> 0 \<and>
      (\<exists>l. mqtt_read_uint16_t buf (1 + k) = Some (l, 1 + k + 2) \<and> 2 + unat l \<le> rem_len \<and>
        rem_len < 2 + unat l + 2 \<and> length buf < 1 + k + 2 + unat l + 2)) \<and>
    (\<forall>f. deserialize_publish_packet buf buf_len = Some (Inr f) \<longrightarrow>
      pf_topic_pos f = 1 + k + 2 \<and>
      pf_topic_pos f + pf_topic_len f \<le> 1 + k + rem_len \<and>
      pf_payload_pos f = pf_topic_pos f + pf_topic_len f + (if pf_qos f = 0 then 0 else 2) \<and>
      (if pf_payload_pos f \<le> 1 + k + rem_len
       then pf_payload_pos f + unat (pf_payload_len f) = 1 + k + rem_len
       else pf_qos f \<noteq> 0 \<and> pf_payload_len f = - word_of_nat (pf_payload_pos f - (1 + k + rem_len)) \<and>
         pf_payload_pos f - (1 + k + rem_len) \<in> {1, 2}))"
proof -
  let ?stop = "1 + k + rem_len"
  have small: "rem_len < 268435456" by (rule decoded_small [OF rl])
  have conv: "unat (word_of_int (int ?stop - int c) :: 64 word) = ?stop - c" if "1 + k + 2 \<le> c" "c \<le> ?stop" for c
  proof -
    have eq: "int ?stop - int c = int (?stop - c)" using that(2) by simp
    have "?stop - c < 2 ^ LENGTH(64)" using that small by simp
    then show ?thesis unfolding eq of_int_of_nat_eq unat_of_nat by (rule mod_less)
  qed
  have neg: "(word_of_int (int ?stop - int c) :: 64 word) = - word_of_nat (c - ?stop)" if "?stop < c" for c
  proof -
    have eq: "int ?stop - int c = - int (c - ?stop)" using that by simp
    show ?thesis unfolding eq by simp
  qed
  have "1 < length buf"
    using rl by (auto simp: mqtt_read_packet_rem_len_form_buf_def decode_rem_len_loop.simps [of buf]
        arr_get_def bind_eq_Some_conv split: if_splits)
  then have h: "mqtt_read_char buf 0 = Some (buf ! 0, 1)" using read_char_at [of 0 buf] by fastforce
  obtain r where r: "read_string_with_len buf (1 + k) ?stop = Some r"
    using read_string_in_bounds(1) [of ?stop buf] fits by auto
  show ?thesis
  proof (cases r)
    case (Inl e)
    show ?thesis
      unfolding deserialize_publish_packet_def h Option.bind.simps prod.case rl sum.case r Inl Let_def
      by auto
  next
    case (Inr x)
    obtain p l c where x: "x = (p, l, c)" by (cases x)
    have s: "p = 1 + k + 2" "c = p + l" "c \<le> ?stop"
      using read_string_in_bounds(2) [of ?stop buf "1 + k" p l c] fits r Inr x by auto
    obtain w where w: "mqtt_read_uint16_t buf (1 + k) = Some (w, 1 + k + 2)" "l = unat w"
    proof -
      from r Inr x obtain a j where a: "mqtt_read_uint16_t buf (1 + k) = Some (a, j)" "l = unat a"
        by (auto simp: read_string_with_len_def bind_eq_Some_conv split: if_splits)
      with read_uint16_pos [OF a(1)] that show ?thesis by simp
    qed
    have eq: "deserialize_publish_packet buf buf_len =
      (if 4 > buf_len then Some (Inl ERR_MQTT_BUFFER_TOO_SHORT)
       else if header_type (buf ! 0) \<noteq> msg_code PUBLISH then Some (Inl FAILURE_RET)
       else let q = header_qos (buf ! 0); c' = (if q \<noteq> QOS0 then c + 2 else c) in
         map_option (\<lambda>i. Inr \<lparr>pf_dup = header_dup (buf ! 0), pf_qos = q, pf_retained = header_retained (buf ! 0),
            pf_packet_id = i, pf_topic_pos = p, pf_topic_len = l,
            pf_payload_pos = c', pf_payload_len = word_of_int (int ?stop - int c')\<rparr>)
          (if q \<noteq> QOS0 then map_option (\<lambda>v. Some (fst v)) (mqtt_read_uint16_t buf c) else Some None))"
      unfolding deserialize_publish_packet_def h Option.bind.simps prod.case rl sum.case r Inr x Let_def
      using s(3) by (cases "mqtt_read_uint16_t buf c") (auto dest: read_uint16_pos)
    show ?thesis
    proof (rule conjI, goal_cases)
      case 1
      show ?case
      proof
        assume n: "deserialize_publish_packet buf buf_len = None"
        have "header_qos (buf ! 0) \<noteq> 0 \<and> mqtt_read_uint16_t buf c = None"
          using n unfolding eq by (auto simp: Let_def split: if_splits)
        then show "header_qos (buf ! 0) \<noteq> 0 \<and>
            (\<exists>l. mqtt_read_uint16_t buf (1 + k) = Some (l, 1 + k + 2) \<and> 2 + unat l \<le> rem_len \<and>
              rem_len < 2 + unat l + 2 \<and> length buf < 1 + k + 2 + unat l + 2)"
          using w s fits by (auto simp: read_uint16_none)
      qed
    next
      case 2
      show ?case
        unfolding eq using s conv [of c] conv [of "c + 2"] neg [of "c + 2"]
        by (auto simp: Let_def split: if_splits)
    qed
  qed
qed

text \<open>
  A QoS 1 PUBLISH whose remaining length ends behind the topic is accepted: the packet
  identifier is read from the bytes behind the packet and the payload length wraps around to
  2^64 - 2.
\<close>

lemma publish_without_packet_id_underflows:
  "\<exists>f. deserialize_publish_packet ([0x32, 3, 0, 1, 0x61, 7, 8] @ rest) UIOT_MQTT_RX_BUF_LEN = Some (Inr f)
     \<and> pf_packet_id f = Some 0x708 \<and> pf_payload_len f = 0xFFFFFFFFFFFFFFFE"
proof -
  let ?b = "[0x32, 3, 0, 1, 0x61, 7, 8] @ rest"
  have "mqtt_read_packet_rem_len_form_buf ?b 1 = Some (Inr (3, 1))"
    by (simp add: mqtt_read_packet_rem_len_form_buf_def decode_rem_len_loop.simps arr_get_def)
  moreover have "mqtt_read_char ?b 0 = Some (0x32, 1)" by (simp add: read_char_at)
  moreover have "read_string_with_len ?b (Suc (Suc 0)) 5 = Some (Inr (4, 1, 5))"
    by (simp add: read_string_with_len_def mqtt_read_uint16_t_def arr_get_def)
  moreover have "mqtt_read_uint16_t ?b 5 = Some (0x708, 7)"
    by (simp add: mqtt_read_uint16_t_def arr_get_def)
  moreover have "header_type 0x32 = 3" "header_qos 0x32 = 1" by code_simp+
  ultimately show ?thesis by (simp add: deserialize_publish_packet_def)
qed

text \<open>A packet without identifier that ends with the buffer, and one that has no room for its identifier.\<close>

theorem deserialize_publish_in_bounds_witness:
  "deserialize_publish_packet [0x30, 3, 0, 1, 0x61] 7 \<noteq> None \<and>
   (\<exists>f. deserialize_publish_packet [0x32, 3, 0, 1, 0x61, 7, 8] 2048 = Some (Inr f) \<and>
      pf_topic_pos f = 4 \<and> pf_topic_len f \<le> 1)"
proof -
  have a: "mqtt_read_packet_rem_len_form_buf [0x30, 3, 0, 1, 0x61] 1 = Some (Inr (3, 1))"
    "mqtt_read_packet_rem_len_form_buf [0x32, 3, 0, 1, 0x61, 7, 8] 1 = Some (Inr (3, 1))"
    by code_simp+
  have b: "1 + 1 + 3 \<le> length [0x30, 3, 0, 1, 0x61 :: byte]" "1 + 1 + 3 \<le> length [0x32, 3, 0, 1, 0x61, 7, 8 :: byte]"
    by simp_all
  have q: "header_qos ([0x30, 3, 0, 1, 0x61 :: byte] ! 0) = 0" by code_simp
  have "deserialize_publish_packet [0x30, 3, 0, 1, 0x61] 7 \<noteq> None"
    using conjunct1 [OF deserialize_publish_in_bounds [OF a(1) b(1), of 7]] q by blast
  moreover obtain f where f: "deserialize_publish_packet [0x32, 3, 0, 1, 0x61, 7, 8] 2048 = Some (Inr f)"
    using publish_without_packet_id_underflows [of "[]"] by auto
  from conjunct2 [OF deserialize_publish_in_bounds [OF a(2) b(2), of 2048], rule_format, OF f]
  have "pf_topic_pos f = 1 + 1 + 2" "pf_topic_pos f + pf_topic_len f \<le> 1 + 1 + 3" by blast+
  then have "pf_topic_pos f = 4" "pf_topic_len f \<le> 1" by linarith+
  ultimately show ?thesis using f by blast
qed

end
