(* ===== verification/Utils_List.thy ===== *)
theory Utils_List
  imports Prelude
begin

text \<open>
  \<^verbatim>\<open>src/utils/utils_list.c\<close>: the doubly linked list that the MQTT client and the device
  shadow keep their pending requests in.  A \<open>ListNode\<close> lives at an address of a heap, \<open>NULL\<close>
  is \<open>None\<close>, and every dereference of a missing node is a fault.  The predicate \<open>is_list\<close> says
  when the pointers form a well-shaped list, \<open>nodes\<close> reads its contents off, and the
  operations are shown to implement the operations of a HOL list.  The locale
  \<open>pending_list\<close> is the contract the clients of the list rely on; it is interpreted here on
  the pointer implementation.  The result of the \<open>HAL_Malloc\<close> that an operation makes is its
  argument \<open>ok\<close>.
\<close>

subsection \<open>Data\<close>

record 'v ListNode =
  prev :: "nat option"
  nxt :: "nat option"
  val :: 'v

datatype ListDirection = LIST_HEAD | LIST_TAIL

text \<open>
  \<open>free_fn\<close> says whether \<open>self->free\<close> is set, \<open>freed\<close> are the values it has been called with;
  \<open>match_fn\<close> is \<open>self->match\<close>.
\<close>

record 'v List =
  heap :: "nat \<rightharpoonup> 'v ListNode"
  head :: "nat option"
  tail :: "nat option"
  len :: nat
  free_fn :: bool
  match_fn :: "('v \<Rightarrow> 'v \<Rightarrow> bool) option"
  freed :: "'v list"

record ListIterator =
  it_next :: "nat option"
  direction :: ListDirection

subsection \<open>Operations\<close>

text \<open>\<open>list_new\<close> returns \<open>None\<close> for NULL; \<open>a\<close> is the address that \<open>HAL_Malloc\<close> returns for a node.\<close>

definition list_new :: "bool \<Rightarrow> (nat \<rightharpoonup> 'v ListNode) \<Rightarrow> 'v List option" where
  "list_new ok h =
     (if \<not> ok then None
      else Some \<lparr>heap = h, head = None, tail = None, len = 0, free_fn = False, match_fn = None, freed = []\<rparr>)"

definition list_node_new :: "bool \<Rightarrow> 'v List \<Rightarrow> nat \<Rightarrow> 'v \<Rightarrow> nat option \<times> 'v List" where
  "list_node_new ok l a v =
     (if \<not> ok then (None, l)
      else (Some a, l\<lparr>heap := (heap l)(a \<mapsto> \<lparr>prev = None, nxt = None, val = v\<rparr>)\<rparr>))"

definition free_value :: "'v \<Rightarrow> 'v List \<Rightarrow> 'v List" where
  "free_value v l = (if free_fn l then l\<lparr>freed := freed l @ [v]\<rparr> else l)"

text \<open>Field accesses through a pointer.\<close>

definition node_at :: "'v List \<Rightarrow> nat option \<Rightarrow> 'v ListNode option" where
  "node_at l p = Option.bind p (heap l)"

definition set_prev :: "'v List \<Rightarrow> nat option \<Rightarrow> nat option \<Rightarrow> 'v List option" where
  "set_prev l p q = do { a \<leftarrow> p; n \<leftarrow> heap l a;
     Some (l\<lparr>heap := (heap l)(a \<mapsto> n\<lparr>prev := q\<rparr>)\<rparr>) }"

definition set_next :: "'v List \<Rightarrow> nat option \<Rightarrow> nat option \<Rightarrow> 'v List option" where
  "set_next l p q = do { a \<leftarrow> p; n \<leftarrow> heap l a;
     Some (l\<lparr>heap := (heap l)(a \<mapsto> n\<lparr>nxt := q\<rparr>)\<rparr>) }"

definition list_rpush :: "'v List \<Rightarrow> nat option \<Rightarrow> (nat option \<times> 'v List) option" where
  "list_rpush self node =
     (if node = None then Some (None, self)
      else if len self \<noteq> 0 then do {
        l \<leftarrow> set_prev self node (tail self);
        l \<leftarrow> set_next l node None;
        l \<leftarrow> set_next l (tail l) node;
        Some (node, l\<lparr>tail := node, len := len l + 1\<rparr>) }
      else do {
        l \<leftarrow> set_next self node None;
        l \<leftarrow> set_prev l node None;
        Some (node, l\<lparr>head := node, tail := node, len := len l + 1\<rparr>) })"

definition list_lpush :: "'v List \<Rightarrow> nat option \<Rightarrow> (nat option \<times> 'v List) option" where
  "list_lpush self node =
     (if node = None then Some (None, self)
      else if len self \<noteq> 0 then do {
        l \<leftarrow> set_next self node (head self);
        l \<leftarrow> set_prev l node None;
        l \<leftarrow> set_prev l (head l) node;
        Some (node, l\<lparr>head := node, len := len l + 1\<rparr>) }
      else do {
        l \<leftarrow> set_next self node None;
        l \<leftarrow> set_prev l node None;
        Some (node, l\<lparr>head := node, tail := node, len := len l + 1\<rparr>) })"

definition list_rpop :: "'v List \<Rightarrow> (nat option \<times> 'v List) option" where
  "list_rpop self =
     (if len self = 0 then Some (None, self)
      else do {
        let node = tail self;
        n \<leftarrow> node_at self node;
        l \<leftarrow> (if len self - 1 \<noteq> 0
              then set_next (self\<lparr>len := len self - 1, tail := prev n\<rparr>) (prev n) None
              else Some (self\<lparr>len := len self - 1, tail := None, head := None\<rparr>));
        l \<leftarrow> set_prev l node None;
        l \<leftarrow> set_next l node None;
        Some (node, l) })"

definition list_lpop :: "'v List \<Rightarrow> (nat option \<times> 'v List) option" where
  "list_lpop self =
     (if len self = 0 then Some (None, self)
      else do {
        let node = head self;
        n \<leftarrow> node_at self node;
        l \<leftarrow> (if len self - 1 \<noteq> 0
              then set_prev (self\<lparr>len := len self - 1, head := nxt n\<rparr>) (nxt n) None
              else Some (self\<lparr>len := len self - 1, head := None, tail := None\<rparr>));
        l \<leftarrow> set_prev l node None;
        l \<leftarrow> set_next l node None;
        Some (node, l) })"

definition list_remove :: "'v List \<Rightarrow> nat option \<Rightarrow> 'v List option" where
  "list_remove self node = do {
     n \<leftarrow> node_at self node;
     l \<leftarrow> (if prev n \<noteq> None then set_next self (prev n) (nxt n)
           else Some (self\<lparr>head := nxt n\<rparr>));
     n \<leftarrow> node_at l node;
     l \<leftarrow> (if nxt n \<noteq> None then set_prev l (nxt n) (prev n)
           else Some (l\<lparr>tail := prev n\<rparr>));
     n \<leftarrow> node_at l node;
     let l = free_value (val n) l;
     a \<leftarrow> node;
     Some (l\<lparr>heap := (heap l)(a := None), len := len l - 1\<rparr>) }"

text \<open>
  The iterator is a value here: \<open>list_iterator_destroy\<close>, which every loop ends with, frees it and
  changes nothing else.
\<close>

definition list_iterator_new_from_node :: "bool \<Rightarrow> nat option \<Rightarrow> ListDirection \<Rightarrow> ListIterator option" where
  "list_iterator_new_from_node ok node d =
     (if \<not> ok then None else Some \<lparr>it_next = node, direction = d\<rparr>)"

definition list_iterator_new :: "bool \<Rightarrow> 'v List \<Rightarrow> ListDirection \<Rightarrow> ListIterator option" where
  "list_iterator_new ok l d =
     list_iterator_new_from_node ok (if d = LIST_HEAD then head l else tail l) d"

definition list_iterator_next :: "'v List \<Rightarrow> ListIterator \<Rightarrow> (nat option \<times> ListIterator) option"
  where
  "list_iterator_next l self =
     (case it_next self of
        None \<Rightarrow> Some (None, self)
      | Some a \<Rightarrow> do { n \<leftarrow> heap l a;
          Some (Some a, self\<lparr>it_next := if direction self = LIST_HEAD then nxt n else prev n\<rparr>) })"

definition list_matches :: "'v List \<Rightarrow> 'v \<Rightarrow> 'v \<Rightarrow> bool" where
  "list_matches self v w = (case match_fn self of Some f \<Rightarrow> f v w | None \<Rightarrow> v = w)"

text \<open>
  The loop of \<open>list_find\<close>; the fuel is the number of nodes the iterator may still visit.  The
  inner \<open>None\<close> of \<open>list_find\<close> and \<open>list_at\<close> is NULL.
\<close>

fun list_find_loop ::
  "nat \<Rightarrow> 'v List \<Rightarrow> 'v \<Rightarrow> ListIterator \<Rightarrow> nat option \<Rightarrow> nat option option" where
  "list_find_loop 0 l v it node = (if node = None then Some None else None)"
| "list_find_loop (Suc fuel) l v it node =
     (case node of
        None \<Rightarrow> Some None
      | Some a \<Rightarrow> do { n \<leftarrow> heap l a;
          if list_matches l v (val n) then Some (Some a)
          else do { (node', it') \<leftarrow> list_iterator_next l it;
                    list_find_loop fuel l v it' node' } })"

definition list_find :: "bool \<Rightarrow> 'v List \<Rightarrow> 'v \<Rightarrow> nat option option" where
  "list_find ok self v =
     (case list_iterator_new ok self LIST_HEAD of
        None \<Rightarrow> Some None
      | Some it \<Rightarrow> do {
          (node, it) \<leftarrow> list_iterator_next self it;
          list_find_loop (len self) self v it node })"

fun list_at_loop :: "nat \<Rightarrow> 'v List \<Rightarrow> ListIterator \<Rightarrow> nat option \<Rightarrow> nat option option" where
  "list_at_loop 0 l it node = Some node"
| "list_at_loop (Suc index) l it node = do {
     (node', it') \<leftarrow> list_iterator_next l it; list_at_loop index l it' node' }"

definition list_at :: "bool \<Rightarrow> 'v List \<Rightarrow> int \<Rightarrow> nat option option" where
  "list_at ok self index =
     (let dir = (if index < 0 then LIST_TAIL else LIST_HEAD);
          i = nat (if index < 0 then - index - 1 else index)
      in if i < len self
         then (case list_iterator_new ok self dir of
                 None \<Rightarrow> Some None
               | Some it \<Rightarrow> do { (node, it) \<leftarrow> list_iterator_next self it;
                   list_at_loop i self it node })
         else Some None)"

fun list_destroy_loop :: "nat \<Rightarrow> 'v List \<Rightarrow> nat option \<Rightarrow> 'v List option" where
  "list_destroy_loop 0 l cur = Some l"
| "list_destroy_loop (Suc n) l cur = do {
     c \<leftarrow> cur; nd \<leftarrow> heap l c;
     let l = free_value (val nd) l;
     list_destroy_loop n (l\<lparr>heap := (heap l)(c := None)\<rparr>) (nxt nd) }"

text \<open>What is left of a destroyed list: the heap, and the values \<open>self->free\<close> was called with.\<close>

definition list_destroy :: "'v List \<Rightarrow> ((nat \<rightharpoonup> 'v ListNode) \<times> 'v list) option" where
  "list_destroy self =
     map_option (\<lambda>l. (heap l, freed l)) (list_destroy_loop (len self) self (head self))"

subsection \<open>Well-shaped lists\<close>

definition first_of :: "nat list \<Rightarrow> nat option" where
  "first_of xs = (case xs of [] \<Rightarrow> None | x # _ \<Rightarrow> Some x)"

text \<open>\<open>dlseg h p xs q\<close>: the nodes \<open>xs\<close> are linked in both directions, after \<open>p\<close>, before \<open>q\<close>.\<close>

fun dlseg :: "(nat \<rightharpoonup> 'v ListNode) \<Rightarrow> nat option \<Rightarrow> nat list \<Rightarrow> nat option \<Rightarrow> bool" where
  "dlseg h p [] q = True"
| "dlseg h p (x # xs) q =
     (\<exists>n. h x = Some n \<and> prev n = p \<and> nxt n = (if xs = [] then q else first_of xs) \<and>
          dlseg h (Some x) xs q)"

definition last_of :: "nat list \<Rightarrow> nat option" where
  "last_of xs = (if xs = [] then None else Some (last xs))"

definition is_list :: "'v List \<Rightarrow> nat list \<Rightarrow> bool" where
  "is_list l xs \<longleftrightarrow> dlseg (heap l) None xs None \<and> distinct xs \<and>
     head l = first_of xs \<and> tail l = last_of xs \<and> len l = length xs"

text \<open>Reading the contents off the pointers, from the head.\<close>

fun walk :: "(nat \<rightharpoonup> 'v ListNode) \<Rightarrow> nat \<Rightarrow> nat option \<Rightarrow> (nat \<times> 'v) list" where
  "walk h 0 p = []"
| "walk h (Suc n) p =
     (case p of None \<Rightarrow> []
      | Some a \<Rightarrow> (case h a of None \<Rightarrow> [] | Some nd \<Rightarrow> (a, val nd) # walk h n (nxt nd)))"

definition nodes :: "'v List \<Rightarrow> (nat \<times> 'v) list" where
  "nodes l = walk (heap l) (len l) (head l)"

definition list_inv :: "'v List \<Rightarrow> bool" where
  "list_inv l \<longleftrightarrow> is_list l (map fst (nodes l))"

lemma first_of_simps [simp]: "first_of [] = None" "first_of (x # xs) = Some x"
  by (simp_all add: first_of_def)

lemma last_of_simps [simp]:
  "last_of [] = None" "last_of [x] = Some x" "last_of (x # y # ys) = last_of (y # ys)"
  "last_of (xs @ y # ys) = last_of (y # ys)"
  by (simp_all add: last_of_def)

lemma first_of_eq_None [simp]: "first_of xs = None \<longleftrightarrow> xs = []"
  by (cases xs) auto

lemma last_of_eq_None [simp]: "last_of xs = None \<longleftrightarrow> xs = []"
  by (simp add: last_of_def)

lemma dlseg_cong:
  "(\<And>x. x \<in> set xs \<Longrightarrow> h x = h' x) \<Longrightarrow> dlseg h p xs q = dlseg h' p xs q"
  by (induction xs arbitrary: p) auto

lemma dlseg_upd [simp]: "a \<notin> set xs \<Longrightarrow> dlseg (h(a := v)) p xs q = dlseg h p xs q"
  by (rule dlseg_cong) auto

lemma dlseg_append:
  "dlseg h p (xs @ ys) q \<longleftrightarrow>
     dlseg h p xs (if ys = [] then q else first_of ys) \<and>
     dlseg h (if xs = [] then p else last_of xs) ys q"
proof (induction xs arbitrary: p)
  case Nil
  then show ?case by simp
next
  case (Cons x xs)
  have last: "last_of (x # xs) = (if xs = [] then Some x else last_of xs)"
    by (simp add: last_of_def)
  have first: "xs \<noteq> [] \<Longrightarrow> first_of (xs @ ys) = first_of xs"
    by (cases xs) auto
  show ?case
  proof (cases "xs = []")
    case True
    then show ?thesis by (cases ys) auto
  next
    case False
    with Cons.IH [of "Some x"] last first show ?thesis by auto
  qed
qed

lemma dlseg_at:
  "dlseg h p (xs @ a # ys) q \<Longrightarrow>
   \<exists>n. h a = Some n \<and> prev n = (if xs = [] then p else last_of xs) \<and>
       nxt n = (if ys = [] then q else first_of ys)"
  by (simp only: dlseg_append) (auto split: if_splits)

lemma dlseg_mapped: "dlseg h p xs q \<Longrightarrow> x \<in> set xs \<Longrightarrow> h x \<noteq> None"
  by (induction xs arbitrary: p) auto

text \<open>Redirecting the last node's \<open>next\<close> or the first node's \<open>prev\<close>.\<close>

lemma dlseg_set_next_last:
  assumes "dlseg h p (xs @ [x]) q" "distinct (xs @ [x])" "h x = Some n"
  shows "dlseg (h(x \<mapsto> n\<lparr>nxt := r\<rparr>)) p (xs @ [x]) r"
  using assms by (auto simp: dlseg_append)

lemma dlseg_set_prev_first:
  assumes "dlseg h p (x # xs) q" "distinct (x # xs)" "h x = Some n"
  shows "dlseg (h(x \<mapsto> n\<lparr>prev := r\<rparr>)) r (x # xs) q"
  using assms by auto

lemma walk_dlseg:
  "dlseg h p xs None \<Longrightarrow> walk h (length xs) (first_of xs) = map (\<lambda>a. (a, val (the (h a)))) xs"
proof (induction xs arbitrary: p)
  case Nil
  then show ?case by simp
next
  case (Cons x xs)
  then show ?case by (cases xs) auto
qed

lemma nodes_is_list: "is_list l xs \<Longrightarrow> nodes l = map (\<lambda>a. (a, val (the (heap l a)))) xs"
  unfolding nodes_def is_list_def using walk_dlseg by fastforce

lemma is_list_fst_nodes: "is_list l xs \<Longrightarrow> map fst (nodes l) = xs"
  by (simp add: nodes_is_list comp_def)

lemma list_inv_iff: "list_inv l \<longleftrightarrow> (\<exists>xs. is_list l xs)"
  unfolding list_inv_def using is_list_fst_nodes by metis

lemma list_new_inv: "list_new ok h = Some l \<Longrightarrow> list_inv l \<and> nodes l = []"
  by (auto simp: list_inv_def nodes_def is_list_def list_new_def split: if_splits)

lemma free_value_fields [simp]:
  "heap (free_value v l) = heap l" "head (free_value v l) = head l" "tail (free_value v l) = tail l"
  "len (free_value v l) = len l" "free_fn (free_value v l) = free_fn l" "match_fn (free_value v l) = match_fn l"
  "freed (free_value v l) = freed l @ (if free_fn l then [v] else [])"
  by (simp_all add: free_value_def)

lemma is_list_mapped: "is_list l xs \<Longrightarrow> x \<in> set xs \<Longrightarrow> \<exists>n. heap l x = Some n"
  unfolding is_list_def using dlseg_mapped by fastforce

subsection \<open>The operations are the operations of a HOL list\<close>

text \<open>Same values at every address: pointer updates do not touch the payload.\<close>

definition same_vals :: "'v List \<Rightarrow> 'v List \<Rightarrow> bool" where
  "same_vals l l' \<longleftrightarrow> (\<forall>x. map_option val (heap l' x) = map_option val (heap l x))"

lemmas ptr_defs = set_prev_def set_next_def node_at_def same_vals_def is_list_def

lemma list_rpush_correct:
  assumes l: "is_list l xs" and n: "heap l a = Some n" and fresh: "a \<notin> set xs"
  shows "\<exists>l'. list_rpush l (Some a) = Some (Some a, l') \<and> is_list l' (xs @ [a]) \<and> same_vals l l'"
proof (cases xs rule: rev_cases)
  case Nil
  with l n show ?thesis by (simp add: list_rpush_def ptr_defs)
next
  case (snoc ys y)
  with l obtain m where m: "heap l y = Some m"
    using is_list_mapped [of l xs y] by auto
  from l snoc fresh have "y \<noteq> a" "a \<notin> set ys" "y \<notin> set ys" by (auto simp: is_list_def)
  moreover from l snoc have "first_of (ys @ [y, a]) = first_of xs" by (cases ys) auto
  ultimately show ?thesis using l n m snoc
    by (auto simp: list_rpush_def ptr_defs dlseg_append)
qed

lemma list_lpush_correct:
  assumes l: "is_list l xs" and n: "heap l a = Some n" and fresh: "a \<notin> set xs"
  shows "\<exists>l'. list_lpush l (Some a) = Some (Some a, l') \<and> is_list l' (a # xs) \<and> same_vals l l'"
proof (cases xs)
  case Nil
  with l n show ?thesis by (simp add: list_lpush_def ptr_defs)
next
  case (Cons y ys)
  with l obtain m where m: "heap l y = Some m"
    using is_list_mapped [of l xs y] by auto
  from l Cons fresh have "y \<noteq> a" "a \<notin> set ys" "y \<notin> set ys" by (auto simp: is_list_def)
  moreover from Cons have "last_of (a # y # ys) = last_of xs" by (simp add: last_of_def)
  ultimately show ?thesis using l n m Cons
    by (auto simp: list_lpush_def ptr_defs)
qed

lemma list_rpop_correct:
  assumes l: "is_list l (xs @ [a])"
  shows "\<exists>l'. list_rpop l = Some (Some a, l') \<and> is_list l' xs \<and> same_vals l l'"
proof -
  from l obtain n where n: "heap l a = Some n" using is_list_mapped by fastforce
  show ?thesis
  proof (cases xs rule: rev_cases)
    case Nil
    with l n show ?thesis by (simp add: list_rpop_def ptr_defs)
  next
    case (snoc ys y)
    with l obtain m where m: "heap l y = Some m"
      using is_list_mapped by fastforce
    from l snoc have "y \<noteq> a" "a \<notin> set ys" "y \<notin> set ys" by (auto simp: is_list_def)
    moreover from snoc have "first_of (xs @ [a]) = first_of xs" by (cases ys) auto
    moreover from l snoc n have "prev n = Some y" by (auto simp: is_list_def dlseg_append)
    ultimately show ?thesis using l n m snoc
      by (auto simp: list_rpop_def ptr_defs dlseg_append)
  qed
qed

lemma list_lpop_correct:
  assumes l: "is_list l (a # xs)"
  shows "\<exists>l'. list_lpop l = Some (Some a, l') \<and> is_list l' xs \<and> same_vals l l'"
proof -
  from l obtain n where n: "heap l a = Some n" using is_list_mapped by fastforce
  show ?thesis
  proof (cases xs)
    case Nil
    with l n show ?thesis by (simp add: list_lpop_def ptr_defs)
  next
    case (Cons y ys)
    with l obtain m where m: "heap l y = Some m"
      using is_list_mapped by fastforce
    from l Cons have "y \<noteq> a" "a \<notin> set ys" "y \<notin> set ys" by (auto simp: is_list_def)
    moreover from Cons have "last_of (a # xs) = last_of xs" by (simp add: last_of_def)
    moreover from l Cons n have "nxt n = Some y" by (auto simp: is_list_def)
    ultimately show ?thesis using l n m Cons
      by (auto simp: list_lpop_def ptr_defs)
  qed
qed

lemma list_remove_frees:
  assumes "list_remove l (Some a) = Some l'" "heap l a = Some n"
  shows "heap l' a = None" "freed l' = freed l @ (if free_fn l then [val n] else [])"
  using assms
  by (auto simp: list_remove_def set_prev_def set_next_def node_at_def bind_eq_Some_conv Let_def split: if_splits)

lemma list_remove_correct:
  assumes l: "is_list l (xs @ a # ys)"
  shows "\<exists>l'. list_remove l (Some a) = Some l' \<and> is_list l' (xs @ ys) \<and>
              (\<forall>x. x \<noteq> a \<longrightarrow> map_option val (heap l' x) = map_option val (heap l x))"
proof -
  from l obtain n where n: "heap l a = Some n" "prev n = last_of xs" "nxt n = first_of ys"
    unfolding is_list_def by (auto simp: dlseg_append split: if_splits)
  show ?thesis
  proof (cases xs rule: rev_cases)
    case Nil
    show ?thesis
    proof (cases ys)
      case Nil
      with l n \<open>xs = []\<close> show ?thesis by (simp add: list_remove_def ptr_defs)
    next
      case (Cons y zs)
      with l obtain m where m: "heap l y = Some m" using is_list_mapped by fastforce
      from l Cons Nil have "y \<noteq> a" "a \<notin> set zs" "y \<notin> set zs" by (auto simp: is_list_def)
      moreover from Cons have "last_of (a # ys) = last_of ys" by (simp add: last_of_def)
      ultimately show ?thesis using l n m Cons Nil
        by (auto simp: list_remove_def ptr_defs)
    qed
  next
    case (snoc us u)
    with l obtain k where k: "heap l u = Some k" using is_list_mapped by fastforce
    from l snoc have u: "u \<noteq> a" "a \<notin> set us" "u \<notin> set us" "u \<notin> set ys" "a \<notin> set ys"
      by (auto simp: is_list_def)
    have hd: "first_of (us @ u # ws) = first_of (us @ [u])" for ws by (cases us) auto
    show ?thesis
    proof (cases ys)
      case Nil
      with l n k u snoc hd [of "[a]"] show ?thesis
        by (auto simp: list_remove_def ptr_defs dlseg_append)
    next
      case (Cons y zs)
      with l obtain m where m: "heap l y = Some m" using is_list_mapped by fastforce
      from l Cons snoc have y: "y \<noteq> a" "y \<noteq> u" "y \<notin> set us" "y \<notin> set zs" "a \<notin> set zs"
        by (auto simp: is_list_def)
      have "last_of (us @ u # a # y # zs) = last_of (us @ u # y # zs)" by (simp add: last_of_def)
      with l n k u m y Cons snoc hd [of "a # ys"] hd [of ys] show ?thesis
        by (auto simp: list_remove_def ptr_defs dlseg_append)
    qed
  qed
qed

subsection \<open>Iteration\<close>

lemma iterator_next_head:
  assumes "is_list l xs" "it_next it = first_of (drop k xs)" "direction it = LIST_HEAD"
  shows "list_iterator_next l it = Some (first_of (drop k xs),
           if k < length xs then it\<lparr>it_next := first_of (drop (Suc k) xs)\<rparr> else it)"
proof (cases "k < length xs")
  case True
  then have split: "xs = take k xs @ xs ! k # drop (Suc k) xs" by (simp add: id_take_nth_drop)
  with assms(1) obtain n where "heap l (xs ! k) = Some n" "nxt n = first_of (drop (Suc k) xs)"
    unfolding is_list_def using dlseg_at [of "heap l" None "take k xs"]
    by (metis first_of_simps(1))
  moreover from True have "first_of (drop k xs) = Some (xs ! k)"
    by (metis Cons_nth_drop_Suc first_of_simps(2))
  ultimately show ?thesis using assms True by (simp add: list_iterator_next_def)
next
  case False
  then show ?thesis using assms by (simp add: list_iterator_next_def)
qed

lemma iterator_next_tail:
  assumes "is_list l xs" "it_next it = last_of (take k xs)" "direction it = LIST_TAIL"
    "k \<le> length xs"
  shows "list_iterator_next l it = Some (last_of (take k xs),
           if k > 0 then it\<lparr>it_next := last_of (take (k - 1) xs)\<rparr> else it)"
proof (cases k)
  case 0
  then show ?thesis using assms by (simp add: list_iterator_next_def)
next
  case (Suc j)
  with assms(4) have tk: "take k xs = take j xs @ [xs ! j]" by (simp add: take_Suc_conv_app_nth)
  from Suc assms(4) have split: "xs = take j xs @ xs ! j # drop (Suc j) xs"
    by (simp add: id_take_nth_drop)
  with assms(1) obtain n where "heap l (xs ! j) = Some n" "prev n = last_of (take j xs)"
    unfolding is_list_def using dlseg_at [of "heap l" None "take j xs"]
    by (metis last_of_simps(1))
  with assms tk Suc show ?thesis by (simp add: list_iterator_next_def)
qed

text \<open>
  The loop \<open>for (;;) { node = list_iterator_next(iter); if (NULL == node) break; ... }\<close> that
  every client of the list is written with: the nodes it visits, in order.
\<close>

fun iterate :: "nat \<Rightarrow> 'v List \<Rightarrow> ListIterator \<Rightarrow> nat list option" where
  "iterate 0 l it = None"
| "iterate (Suc fuel) l it = do {
     (node, it') \<leftarrow> list_iterator_next l it;
     case node of None \<Rightarrow> Some [] | Some a \<Rightarrow> map_option (Cons a) (iterate fuel l it') }"

lemma iterate_tail:
  assumes "is_list l xs" "direction it = LIST_TAIL" "k \<le> length xs"
    "it_next it = last_of (take k xs)" "k < fuel"
  shows "iterate fuel l it = Some (rev (take k xs))"
  using assms(2-5)
proof (induction k arbitrary: fuel it)
  case 0
  then show ?case using assms(1) iterator_next_tail [OF assms(1), of it 0]
    by (cases fuel) simp_all
next
  case (Suc k)
  then obtain f where f: "fuel = Suc f" by (cases fuel) auto
  have "iterate f l (it\<lparr>it_next := last_of (take k xs)\<rparr>) = Some (rev (take k xs))"
    using Suc f by (intro Suc.IH) auto
  with Suc f assms(1) iterator_next_tail [OF assms(1), of it "Suc k"] show ?case
    by (simp add: take_Suc_conv_app_nth)
qed

lemma iterate_head:
  assumes "is_list l xs" "direction it = LIST_HEAD" "k \<le> length xs"
    "it_next it = first_of (drop (length xs - k) xs)" "k < fuel"
  shows "iterate fuel l it = Some (drop (length xs - k) xs)"
  using assms(2-5)
proof (induction k arbitrary: fuel it)
  case 0
  then show ?case using assms(1) iterator_next_head [OF assms(1), of it "length xs"]
    by (cases fuel) simp_all
next
  case (Suc k)
  then obtain f where f: "fuel = Suc f" by (cases fuel) auto
  let ?i = "length xs - Suc k"
  from Suc.prems have i: "?i < length xs" "Suc ?i = length xs - k" by auto
  then have hd: "drop ?i xs = xs ! ?i # drop (length xs - k) xs"
    by (metis Cons_nth_drop_Suc)
  have "iterate f l (it\<lparr>it_next := first_of (drop (length xs - k) xs)\<rparr>)
        = Some (drop (length xs - k) xs)"
    using Suc f by (intro Suc.IH) auto
  with Suc.prems f i hd iterator_next_head [OF assms(1), of it ?i] show ?case
    by simp
qed

lemma iterate_from_ends:
  assumes "is_list l xs"
  shows "list_iterator_new ok l LIST_TAIL = Some it \<Longrightarrow> iterate (Suc (len l)) l it = Some (rev xs)"
    and "list_iterator_new ok l LIST_HEAD = Some it \<Longrightarrow> iterate (Suc (len l)) l it = Some xs"
proof -
  from assms have "len l = length xs" "head l = first_of xs" "tail l = last_of xs"
    by (auto simp: is_list_def)
  with iterate_tail [OF assms, of it "length xs"] iterate_head [OF assms, of it "length xs"]
  show "list_iterator_new ok l LIST_TAIL = Some it \<Longrightarrow> iterate (Suc (len l)) l it = Some (rev xs)"
    "list_iterator_new ok l LIST_HEAD = Some it \<Longrightarrow> iterate (Suc (len l)) l it = Some xs"
    by (auto simp del: iterate.simps
          simp: list_iterator_new_def list_iterator_new_from_node_def split: if_splits)
qed

subsection \<open>Search, indexing, destruction\<close>

lemma list_find_loop_correct:
  assumes "is_list l xs" "k \<le> length xs" "it_next it = first_of (drop (Suc k) xs)"
    "direction it = LIST_HEAD" "length xs - k \<le> fuel"
  shows "list_find_loop fuel l v it (first_of (drop k xs))
         = Some (find (\<lambda>a. list_matches l v (val (the (heap l a)))) (drop k xs))"
  using assms(2-5)
proof (induction fuel arbitrary: k it)
  case 0
  then show ?case by simp
next
  case (Suc fuel)
  show ?case
  proof (cases "k < length xs")
    case True
    then have hd: "drop k xs = xs ! k # drop (Suc k) xs" by (simp add: Cons_nth_drop_Suc)
    from True assms(1) obtain n where n: "heap l (xs ! k) = Some n"
      using is_list_mapped by (metis nth_mem)
    define it' where
      "it' = (if Suc k < length xs then it\<lparr>it_next := first_of (drop (Suc (Suc k)) xs)\<rparr> else it)"
    have nx: "list_iterator_next l it = Some (first_of (drop (Suc k) xs), it')"
      unfolding it'_def using Suc.prems by (intro iterator_next_head [OF assms(1)]) auto
    have "list_find_loop fuel l v it' (first_of (drop (Suc k) xs))
          = Some (find (\<lambda>a. list_matches l v (val (the (heap l a)))) (drop (Suc k) xs))"
      using Suc.prems True by (intro Suc.IH) (auto simp: it'_def)
    with n hd nx show ?thesis by simp
  next
    case False
    with Suc.prems show ?thesis by simp
  qed
qed

lemma list_find_correct:
  assumes "is_list l xs"
  shows "list_find ok l v = Some (if ok then find (\<lambda>a. list_matches l v (val (the (heap l a)))) xs else None)"
proof (cases ok)
  case True
  let ?it = "\<lparr>it_next = first_of xs, direction = LIST_HEAD\<rparr>"
  from assms have h: "head l = first_of xs" "len l = length xs" by (auto simp: is_list_def)
  then have it: "list_iterator_new True l LIST_HEAD = Some ?it"
    by (simp add: list_iterator_new_def list_iterator_new_from_node_def)
  have "list_iterator_next l ?it = Some (first_of xs,
          if 0 < length xs then ?it\<lparr>it_next := first_of (drop (Suc 0) xs)\<rparr> else ?it)"
    using iterator_next_head [OF assms, of ?it 0] by simp
  moreover have "list_find_loop (len l) l v
      (if 0 < length xs then ?it\<lparr>it_next := first_of (drop (Suc 0) xs)\<rparr> else ?it) (first_of xs)
      = Some (find (\<lambda>a. list_matches l v (val (the (heap l a)))) xs)"
    using list_find_loop_correct [OF assms, of 0 _ "len l" v] h by auto
  ultimately show ?thesis using True by (simp add: list_find_def it)
qed (simp add: list_find_def list_iterator_new_def list_iterator_new_from_node_def)

lemma first_of_drop: "k < length xs \<Longrightarrow> first_of (drop k xs) = Some (xs ! k)"
  by (metis Cons_nth_drop_Suc first_of_simps(2))

lemma list_at_loop_head:
  assumes "is_list l xs" "k + i < length xs" "it_next it = first_of (drop (Suc k) xs)"
    "direction it = LIST_HEAD"
  shows "list_at_loop i l it (first_of (drop k xs)) = Some (Some (xs ! (k + i)))"
  using assms(2-4)
proof (induction i arbitrary: k it)
  case 0
  then show ?case by (simp add: first_of_drop)
next
  case (Suc i)
  then show ?case using iterator_next_head [OF assms(1), of it "Suc k"] Suc.IH [of "Suc k"]
    by simp
qed

lemma list_at_loop_tail:
  assumes "is_list l xs" "i < k" "k \<le> length xs" "it_next it = last_of (take (k - 1) xs)"
    "direction it = LIST_TAIL"
  shows "list_at_loop i l it (last_of (take k xs)) = Some (Some (xs ! (k - 1 - i)))"
  using assms(2-5)
proof (induction i arbitrary: k it)
  case 0
  then show ?case by (cases k) (simp_all add: take_Suc_conv_app_nth)
next
  case (Suc i)
  then show ?case using iterator_next_tail [OF assms(1), of it "k - 1"] Suc.IH [of "k - 1"]
    by (simp add: numeral_2_eq_2)
qed

lemma list_at_correct:
  assumes "is_list l xs"
  shows "list_at ok l i = Some (if \<not> ok then None else if 0 \<le> i \<and> nat i < length xs then Some (xs ! nat i)
           else if i < 0 \<and> nat (- i) \<le> length xs then Some (xs ! (length xs - nat (- i))) else None)"
proof -
  from assms have h: "head l = first_of xs" "tail l = last_of xs" "len l = length xs"
    by (auto simp: is_list_def)
  note defs = list_at_def list_iterator_new_def list_iterator_new_from_node_def h
  show ?thesis
  proof (cases "i < 0")
    case True
    define j where "j = nat (- i - 1)"
    have j: "nat (- i) = Suc j" using True by (simp add: j_def)
    show ?thesis
      using True iterator_next_tail [OF assms, of "\<lparr>it_next = last_of xs, direction = LIST_TAIL\<rparr>" "length xs"]
        list_at_loop_tail [OF assms, of j "length xs" "\<lparr>it_next = last_of (take (length xs - 1) xs), direction = LIST_TAIL\<rparr>"]
      by (simp add: defs j j_def [symmetric] Suc_le_eq)
  next
    case False
    then show ?thesis
      using iterator_next_head [OF assms, of "\<lparr>it_next = first_of xs, direction = LIST_HEAD\<rparr>" 0]
        list_at_loop_head [OF assms, of 0 "nat i" "\<lparr>it_next = first_of (drop (Suc 0) xs), direction = LIST_HEAD\<rparr>"]
      by (auto simp: defs)
  qed
qed

lemma list_destroy_loop_correct:
  assumes "dlseg (heap l) p xs None" "distinct xs"
  shows "\<exists>l'. list_destroy_loop (length xs) l (first_of xs) = Some l' \<and>
           heap l' = (\<lambda>x. if x \<in> set xs then None else heap l x) \<and>
           freed l' = freed l @ (if free_fn l then map (\<lambda>a. val (the (heap l a))) xs else [])"
  using assms
proof (induction xs arbitrary: l p)
  case Nil
  then show ?case by simp
next
  case (Cons x xs)
  then obtain n where n: "heap l x = Some n" "nxt n = first_of xs"
    by (auto split: if_splits)
  let ?l = "(free_value (val n) l)\<lparr>heap := (heap l)(x := None)\<rparr>"
  from Cons.prems have "dlseg (heap ?l) (Some x) xs None" "distinct xs" by auto
  from Cons.IH [OF this] obtain l' where
    "list_destroy_loop (length xs) ?l (first_of xs) = Some l'"
    "heap l' = (\<lambda>y. if y \<in> set xs then None else heap ?l y)"
    "freed l' = freed ?l @ (if free_fn ?l then map (\<lambda>a. val (the (heap ?l a))) xs else [])"
    by blast
  with n Cons.prems(2) show ?case by (auto simp: fun_eq_iff Let_def)
qed

lemma list_destroy_correct:
  assumes "is_list l xs"
  shows "list_destroy l = Some (\<lambda>x. if x \<in> set xs then None else heap l x,
    freed l @ (if free_fn l then map snd (nodes l) else []))"
  using list_destroy_loop_correct [of l None xs] assms
  by (auto simp: list_destroy_def nodes_is_list [OF assms] comp_def) (auto simp: is_list_def)

subsection \<open>The contents, and the contract for clients\<close>

lemma nodes_cong:
  assumes "is_list l xs" "is_list l' ys"
    and "\<And>x. x \<in> set ys \<Longrightarrow> map_option val (heap l' x) = map_option val (heap l x)"
  shows "nodes l' = map (\<lambda>a. (a, val (the (heap l a)))) ys"
proof -
  have "val (the (heap l' x)) = val (the (heap l x))" if "x \<in> set ys" for x
    using assms(3) [OF that] is_list_mapped [OF assms(2) that] by (cases "heap l x") auto
  with assms(2) show ?thesis by (simp add: nodes_is_list)
qed

text \<open>Appending a freshly allocated node, as every client does it.\<close>

definition push_new :: "bool \<Rightarrow> 'v List \<Rightarrow> nat \<Rightarrow> 'v \<Rightarrow> 'v List option" where
  "push_new ok l a v = (case list_node_new ok l a v of (node, l) \<Rightarrow> map_option snd (list_rpush l node))"

lemma push_new_out_of_memory: "push_new False l a v = Some l"
  by (simp add: push_new_def list_node_new_def list_rpush_def)

definition remove_node :: "'v List \<Rightarrow> nat \<Rightarrow> 'v List option" where
  "remove_node l a = list_remove l (Some a)"

lemma push_new_correct:
  assumes inv: "list_inv l" and fresh: "a \<notin> fst ` set (nodes l)"
  shows "\<exists>l'. push_new True l a v = Some l' \<and> list_inv l' \<and> nodes l' = nodes l @ [(a, v)]"
proof -
  let ?m = "snd (list_node_new True l a v)"
  from inv obtain xs where xs: "is_list l xs" by (auto simp: list_inv_iff)
  with fresh have a: "a \<notin> set xs" by (auto simp: nodes_is_list image_image)
  with xs have m: "is_list ?m xs" by (auto simp: is_list_def list_node_new_def)
  have "heap ?m a = Some \<lparr>prev = None, nxt = None, val = v\<rparr>" by (simp add: list_node_new_def)
  from list_rpush_correct [OF m this a] obtain l' where
    l': "list_rpush ?m (Some a) = Some (Some a, l')" "is_list l' (xs @ [a])" "same_vals ?m l'"
    by blast
  have "nodes l' = map (\<lambda>a. (a, val (the (heap ?m a)))) (xs @ [a])"
    using l' by (intro nodes_cong [OF m]) (auto simp: same_vals_def)
  also have "\<dots> = nodes l @ [(a, v)]"
    using a by (auto simp: nodes_is_list [OF xs] list_node_new_def)
  finally show ?thesis using l' by (auto simp: push_new_def list_inv_iff list_node_new_def)
qed

lemma remove_node_correct:
  assumes inv: "list_inv l" and mem: "a \<in> fst ` set (nodes l)"
  shows "\<exists>l'. remove_node l a = Some l' \<and> list_inv l' \<and>
              nodes l' = filter (\<lambda>n. fst n \<noteq> a) (nodes l)"
proof -
  from inv obtain zs where zs: "is_list l zs" by (auto simp: list_inv_iff)
  with mem have "a \<in> set zs" by (auto simp: nodes_is_list image_image)
  then obtain xs ys where split: "zs = xs @ a # ys" by (meson split_list)
  with zs have dist: "a \<notin> set xs" "a \<notin> set ys" by (auto simp: is_list_def)
  from list_remove_correct [OF zs [unfolded split]] obtain l' where
    l': "list_remove l (Some a) = Some l'" "is_list l' (xs @ ys)"
      "\<forall>x. x \<noteq> a \<longrightarrow> map_option val (heap l' x) = map_option val (heap l x)"
    by blast
  have "nodes l' = map (\<lambda>a. (a, val (the (heap l a)))) (xs @ ys)"
    using l' dist by (intro nodes_cong [OF zs]) auto
  also have "\<dots> = filter (\<lambda>n. fst n \<noteq> a) (nodes l)"
  proof -
    from dist have "filter (\<lambda>x. x \<noteq> a) xs = xs" "filter (\<lambda>x. x \<noteq> a) ys = ys" by (auto intro: filter_True)
    then show ?thesis by (simp add: nodes_is_list [OF zs] split filter_map comp_def)
  qed
  finally show ?thesis using l' by (auto simp: remove_node_def list_inv_iff)
qed

lemma list_inv_distinct: "list_inv l \<Longrightarrow> distinct (map fst (nodes l))"
  by (simp add: list_inv_def is_list_def)

text \<open>
  What a client of the list relies on: appending a fresh node, unlinking a node, and the
  contents.  \<open>nodes\<close> pairs the address of a node with the value it carries.
\<close>

locale pending_list =
  fixes inv :: "'l \<Rightarrow> bool"
    and contents :: "'l \<Rightarrow> (nat \<times> 'v) list"
    and push :: "'l \<Rightarrow> nat \<Rightarrow> 'v \<Rightarrow> 'l option"
    and remove :: "'l \<Rightarrow> nat \<Rightarrow> 'l option"
  assumes push_law: "inv l \<Longrightarrow> a \<notin> fst ` set (contents l) \<Longrightarrow>
      \<exists>l'. push l a v = Some l' \<and> inv l' \<and> contents l' = contents l @ [(a, v)]"
    and remove_law: "inv l \<Longrightarrow> a \<in> fst ` set (contents l) \<Longrightarrow>
      \<exists>l'. remove l a = Some l' \<and> inv l' \<and>
           contents l' = filter (\<lambda>n. fst n \<noteq> a) (contents l)"
    and distinct_law: "inv l \<Longrightarrow> distinct (map fst (contents l))"
begin

text \<open>Taking a request back after a failed send leaves the list as it was.\<close>

lemma push_then_remove:
  assumes "inv l" "a \<notin> fst ` set (contents l)"
  shows "\<exists>l' l''. push l a v = Some l' \<and> remove l' a = Some l'' \<and> inv l'' \<and>
                  contents l'' = contents l"
proof -
  from push_law [OF assms] obtain l' where
    l': "push l a v = Some l'" "inv l'" "contents l' = contents l @ [(a, v)]" by blast
  from remove_law [OF l'(2), of a] l'(3) obtain l'' where
    "remove l' a = Some l''" "inv l''" "contents l'' = filter (\<lambda>n. fst n \<noteq> a) (contents l')"
    by auto
  moreover have "filter (\<lambda>n. fst n \<noteq> a) (contents l) = contents l"
    using assms(2) by (force intro: filter_True)
  ultimately show ?thesis using l' by auto
qed

text \<open>The list grows by one and shrinks by one; addresses stay unique.\<close>

lemma push_length:
  "inv l \<Longrightarrow> a \<notin> fst ` set (contents l) \<Longrightarrow> push l a v = Some l' \<Longrightarrow>
   length (contents l') = Suc (length (contents l))"
  using push_law [of l a v] by auto

lemma remove_length:
  assumes "inv l" "a \<in> fst ` set (contents l)" "remove l a = Some l'"
  shows "Suc (length (contents l')) = length (contents l)"
proof -
  from remove_law [OF assms(1,2)] assms(3)
  have l': "contents l' = filter (\<lambda>n. fst n \<noteq> a) (contents l)" by auto
  from assms(2) obtain v xs ys where c: "contents l = xs @ (a, v) # ys"
    by (metis (no_types, lifting) imageE split_list surjective_pairing)
  with distinct_law [OF assms(1)] have "a \<notin> fst ` set xs" "a \<notin> fst ` set ys"
    by (auto simp: distinct_map)
  then have "filter (\<lambda>n. fst n \<noteq> a) xs = xs" "filter (\<lambda>n. fst n \<noteq> a) ys = ys"
    by (force intro: filter_True)+
  with c l' show ?thesis by simp
qed

end

interpretation clist: pending_list list_inv nodes "push_new True" remove_node
  by unfold_locales
     (auto intro: push_new_correct remove_node_correct list_inv_distinct)

end
