(* ===== verification/List_Props.thy ===== *)
theory List_Props
  imports Utils_List
begin

text \<open>
  The properties of the doubly linked list of \<^verbatim>\<open>src/utils/utils_list.c\<close>, stated on its
  contents: the pairs of node address and value, from head to tail.
\<close>

text \<open>
  Appending a freshly allocated node to a well-formed list and unlinking it again (what the
  client does when a request cannot be sent) succeeds, keeps the list well-formed and leaves the
  contents as they were.
\<close>

lemma list_push_then_remove:
  assumes "list_inv l" "a \<notin> fst ` set (nodes l)"
  shows "\<exists>l' l''. push_new True l a v = Some l' \<and> nodes l' = nodes l @ [(a, v)] \<and>
    remove_node l' a = Some l'' \<and> list_inv l'' \<and> nodes l'' = nodes l"
proof -
  from clist.push_then_remove [OF assms] obtain l' l'' where
    r: "push_new True l a v = Some l'" "remove_node l' a = Some l''" "list_inv l''" "nodes l'' = nodes l"
    by blast
  with clist.push_law [OF assms, of v] show ?thesis by auto
qed

text \<open>
  C27: On a well-formed list \<open>list_find\<close> returns the first node, from the head, that the
  comparison of the list accepts (equality of the values when there is none), and NULL when there
  is no such node or its iterator cannot be allocated.  The node it returns can be removed:
  \<open>list_remove\<close> takes exactly that node out, keeps the list well-formed, releases the node and
  hands its value, once, to the list's \<open>free\<close> if it has one.
\<close>

theorem list_find_then_remove:
  assumes "list_inv l"
  shows "list_find ok l v = Some
      (if ok then map_option fst (find (\<lambda>n. list_matches l v (snd n)) (nodes l)) else None) \<and>
    (\<forall>a. list_find ok l v = Some (Some a) \<longrightarrow>
      (\<exists>w l'. (a, w) \<in> set (nodes l) \<and> list_matches l v w \<and>
        list_remove l (Some a) = Some l' \<and> list_inv l' \<and>
        nodes l' = filter (\<lambda>m. fst m \<noteq> a) (nodes l) \<and> heap l' a = None \<and>
        freed l' = freed l @ (if free_fn l then [w] else [])))"
proof -
  from assms obtain xs where xs: "is_list l xs" by (auto simp: list_inv_iff)
  let ?v = "\<lambda>a. val (the (heap l a))"
  have "map_option fst (find (\<lambda>n. list_matches l v (snd n)) (map (\<lambda>a. (a, ?v a)) ys)) =
      find (\<lambda>a. list_matches l v (?v a)) ys" for ys
    by (induction ys) auto
  then have found: "list_find ok l v = Some
      (if ok then map_option fst (find (\<lambda>n. list_matches l v (snd n)) (nodes l)) else None)"
    by (simp add: list_find_correct [OF xs] nodes_is_list [OF xs])
  have "\<exists>w l'. (a, w) \<in> set (nodes l) \<and> list_matches l v w \<and>
        list_remove l (Some a) = Some l' \<and> list_inv l' \<and>
        nodes l' = filter (\<lambda>m. fst m \<noteq> a) (nodes l) \<and> heap l' a = None \<and>
        freed l' = freed l @ (if free_fn l then [w] else [])" if "list_find ok l v = Some (Some a)" for a
  proof -
    from that found obtain w where
      "find (\<lambda>n. list_matches l v (snd n)) (nodes l) = Some (a, w)" by (auto split: if_splits)
    then have "(a, w) \<in> set (nodes l) \<and> list_matches l v (snd (a, w))"
      by (metis (no_types, lifting) find_Some_iff nth_mem)
    then have w: "(a, w) \<in> set (nodes l)" "list_matches l v w" by simp_all
    with xs obtain n where n: "heap l a = Some n" "val n = w"
      using is_list_mapped [OF xs, of a] by (auto simp: nodes_is_list [OF xs])
    from w(1) have "a \<in> fst ` set (nodes l)" by force
    from clist.remove_law [OF assms this] obtain l' where
      "list_remove l (Some a) = Some l'" "list_inv l'" "nodes l' = filter (\<lambda>m. fst m \<noteq> a) (nodes l)"
      by (auto simp: remove_node_def)
    with w n list_remove_frees [OF this(1) n(1)] show ?thesis by blast
  qed
  with found show ?thesis by blast
qed

definition two_requests :: "nat List" where
  "two_requests = \<lparr>heap = [5 \<mapsto> \<lparr>prev = None, nxt = Some 6, val = 7\<rparr>, 6 \<mapsto> \<lparr>prev = Some 5, nxt = None, val = 8\<rparr>],
     head = Some 5, tail = Some 6, len = 2, free_fn = True, match_fn = None, freed = []\<rparr>"

theorem list_find_then_remove_witness:
  "list_find False two_requests 8 = Some None \<and> list_find True two_requests 9 = Some None \<and>
   (\<exists>l'. list_find True two_requests 8 = Some (Some 6) \<and> list_remove two_requests (Some 6) = Some l' \<and>
     nodes l' = [(5, 7)] \<and> freed l' = [8])"
proof -
  have n: "nodes two_requests = [(5, 7), (6, 8)]"
    by (simp add: nodes_def two_requests_def numeral_2_eq_2)
  then have inv: "list_inv two_requests"
    by (simp add: list_inv_def is_list_def) (simp add: two_requests_def)
  have m: "list_matches two_requests v w = (v = w)" "free_fn two_requests" "freed two_requests = []" for v w
    by (simp_all add: list_matches_def two_requests_def)
  have l: "list_find False two_requests 8 = Some None" "list_find True two_requests 9 = Some None"
    using conjunct1 [OF list_find_then_remove [OF inv, of False 8]]
      conjunct1 [OF list_find_then_remove [OF inv, of True 9]]
    by (simp_all add: n m)
  have hit: "list_find True two_requests 8 = Some (Some 6)"
    using conjunct1 [OF list_find_then_remove [OF inv, of True 8]] by (simp add: n m)
  obtain w l' where r: "(6, w) \<in> set (nodes two_requests)" "list_remove two_requests (Some 6) = Some l'"
    "nodes l' = filter (\<lambda>m. fst m \<noteq> 6) (nodes two_requests)" 
    "freed l' = freed two_requests @ (if free_fn two_requests then [w] else [])"
    using conjunct2 [OF list_find_then_remove [OF inv, of True 8], rule_format, OF hit] by blast
  from r(1) have "w = 8" by (simp add: n)
  with r(3,4) have "nodes l' = [(5, 7)]" "freed l' = [8]" by (simp_all add: n m(2,3))
  with l hit r(2) show ?thesis by blast
qed

end
