(* ===== verification/Mqtt_Topic.thy ===== *)
theory Mqtt_Topic
  imports Prelude
begin

text \<open>
  Topic matching of \<^verbatim>\<open>src/mqtt/src/mqtt_client_common.c\<close> (\<open>_is_topic_equals\<close>,
  \<open>_is_topic_matched\<close>), the matching relation of the MQTT standard it is meant to compute, and
  the relation between the two.

  A filter is a C string; the name is an array with a length.  The pointers \<open>curf\<close>, \<open>curn\<close>
  and \<open>nextpos\<close> are indices, and a read outside the array has no result.
\<close>

abbreviation (input) PLUS :: byte where "PLUS \<equiv> 0x2B"
abbreviation (input) HASH :: byte where "HASH \<equiv> 0x23"
abbreviation (input) SLASH :: byte where "SLASH \<equiv> 0x2F"

definition is_topic_equals :: "bytes \<Rightarrow> bytes \<Rightarrow> bool" where
  "is_topic_equals topic_filter topicName \<longleftrightarrow>
     length topic_filter = length topicName \<and> topic_filter = topicName"

text \<open>\<open>while (nextpos < curn_end && *nextpos != '/') nextpos = ++curn + 1;\<close> gives the new \<open>curn\<close>.\<close>

function skip_level :: "bytes \<Rightarrow> nat \<Rightarrow> nat \<Rightarrow> nat option" where
  "skip_level name curn curn_end =
     (if curn + 1 < curn_end then do {
        c \<leftarrow> arr_get name (curn + 1);
        if c \<noteq> SLASH then skip_level name (curn + 1) curn_end else Some curn }
      else Some curn)"
  by pat_completeness auto
termination by (relation "measure (\<lambda>(name, curn, curn_end). curn_end - curn)") auto

declare skip_level.simps [simp del]

text \<open>
  The main loop, from the two cursors to the two cursors at its end.  A filter cursor behind the
  terminator would leave the string.
\<close>

function topic_match_loop ::
  "bytes \<Rightarrow> bytes \<Rightarrow> nat \<Rightarrow> nat \<Rightarrow> nat \<Rightarrow> (nat \<times> nat) option" where
  "topic_match_loop tf name curn_end curf curn =
     (if length tf < curf then None
      else if cstr_at tf curf \<noteq> 0 \<and> curn < curn_end then do {
        let f = cstr_at tf curf;
        c \<leftarrow> arr_get name curn;
        if f = PLUS \<and> c = SLASH then topic_match_loop tf name curn_end (curf + 1) curn
        else if c = SLASH \<and> f \<noteq> SLASH then Some (curf, curn)
        else if f \<noteq> PLUS \<and> f \<noteq> HASH \<and> f \<noteq> c then Some (curf, curn)
        else do {
          curn \<leftarrow> (if f = PLUS then skip_level name curn curn_end
                  else if f = HASH then Some (curn_end - 1) else Some curn);
          topic_match_loop tf name curn_end (curf + 1) (curn + 1) } }
      else Some (curf, curn))"
  by pat_completeness auto
termination
  by (relation "measure (\<lambda>(tf, name, curn_end, curf, curn). Suc (length tf) - curf)")
     (auto simp: cstr_at_def split: if_splits)

declare topic_match_loop.simps [simp del]

definition is_topic_matched :: "bytes \<Rightarrow> bytes \<Rightarrow> nat \<Rightarrow> bool option" where
  "is_topic_matched topic_filter topicName topicNameLen = do {
     (curf, curn) \<leftarrow> topic_match_loop topic_filter topicName topicNameLen 0 0;
     if cstr_at topic_filter curf = 0 then Some (curn = topicNameLen)
     else if cstr_at topic_filter curf = HASH \<or> cstr_at topic_filter (curf + 1) = HASH then Some True
     else if cstr_at topic_filter curf = PLUS then
       (if curn = 0 then None else do { c \<leftarrow> arr_get topicName (curn - 1); Some (c = SLASH) })
     else Some False }"

subsection \<open>The matching relation of the standard\<close>

text \<open>The levels of a topic: the pieces between the separators.\<close>

fun levels :: "bytes \<Rightarrow> bytes list" where
  "levels [] = [[]]"
| "levels (c # cs) = (if c = SLASH then [] # levels cs
                      else (c # hd (levels cs)) # tl (levels cs))"

fun levels_match :: "bytes list \<Rightarrow> bytes list \<Rightarrow> bool" where
  "levels_match [] ns = (ns = [])"
| "levels_match (f # fs) ns =
     (if f = [HASH] then fs = []
      else case ns of [] \<Rightarrow> False
         | n # ns' \<Rightarrow> (f = [PLUS] \<or> f = n) \<and> levels_match fs ns')"

definition topic_matches :: "bytes \<Rightarrow> bytes \<Rightarrow> bool" where
  "topic_matches tf name = levels_match (levels tf) (levels name)"

text \<open>
  A filter in correct format: the wildcards stand alone in their level and \<open>#\<close> is last.
\<close>

fun valid_levels :: "bytes list \<Rightarrow> bool" where
  "valid_levels [] = True"
| "valid_levels (f # fs) =
     ((HASH \<in> set f \<longrightarrow> f = [HASH] \<and> fs = []) \<and> (PLUS \<in> set f \<longrightarrow> f = [PLUS]) \<and> valid_levels fs)"

definition valid_filter :: "bytes \<Rightarrow> bool" where
  "valid_filter tf \<longleftrightarrow> 0 \<notin> set tf \<and> valid_levels (levels tf)"

definition valid_name :: "bytes \<Rightarrow> bool" where
  "valid_name name \<longleftrightarrow> name \<noteq> [] \<and> 0 \<notin> set name \<and> PLUS \<notin> set name \<and> HASH \<notin> set name"

subsection \<open>The loop on the rest of the strings\<close>

text \<open>
  What the code decides, on the unread rest of the filter and of the name and the character
  read last.
\<close>

definition at_break :: "byte \<Rightarrow> bytes \<Rightarrow> byte option \<Rightarrow> bool" where
  "at_break f F p \<longleftrightarrow> f = HASH \<or> cstr_at F 0 = HASH \<or> (f = PLUS \<and> p = Some SLASH)"

function accepts :: "bytes \<Rightarrow> bytes \<Rightarrow> byte option \<Rightarrow> bool" where
  "accepts [] N p = (N = [])"
| "accepts (f # F) [] p = at_break f F p"
| "accepts (f # F) (c # N) p =
     (if f = PLUS \<and> c = SLASH then accepts F (c # N) p
      else if c = SLASH \<and> f \<noteq> SLASH then at_break f F p
      else if f \<noteq> PLUS \<and> f \<noteq> HASH \<and> f \<noteq> c then at_break f F p
      else if f = PLUS then accepts F (dropWhile (\<lambda>c. c \<noteq> SLASH) N)
                              (Some (last (c # takeWhile (\<lambda>c. c \<noteq> SLASH) N)))
      else if f = HASH then accepts F [] (Some (last (c # N)))
      else accepts F N (Some c))"
  by pat_completeness auto
termination by (relation "measure (\<lambda>(F, N, p). length F)") auto

lemma skip_level_eq:
  assumes "drop curn (take curn_end name) = c # N" "curn_end \<le> length name"
  shows "skip_level name curn curn_end = Some (curn + length (takeWhile (\<lambda>c. c \<noteq> SLASH) N))"
  using assms
proof (induction N arbitrary: curn c)
  case Nil
  then have "length (drop curn (take curn_end name)) = 1" by simp
  then have "curn + 1 = curn_end" using assms(2) by simp
  then show ?case by (simp add: skip_level.simps [of name curn])
next
  case (Cons d N)
  have "length (drop curn (take curn_end name)) = Suc (Suc (length N))" using Cons.prems(1) by simp
  then have less: "curn + 1 < curn_end" using assms(2) by simp
  have tail: "drop (curn + 1) (take curn_end name) = d # N"
    using Cons.prems(1) by (metis drop_drop drop_Suc_Cons drop0 One_nat_def plus_1_eq_Suc)
  then have "take curn_end name ! (curn + 1) = d"
    by (metis hd_drop_conv_nth list.sel(1) less assms(2) length_take min_absorb2)
  then have "name ! (curn + 1) = d" using less by simp
  then show ?case
    using less Cons.IH [OF tail assms(2)] assms(2)
    by (subst skip_level.simps) (simp add: arr_get_def)
qed

definition verdict :: "bytes \<Rightarrow> bytes \<Rightarrow> nat \<Rightarrow> nat \<Rightarrow> nat \<Rightarrow> bool option" where
  "verdict tf name n curf curn =
    (if cstr_at tf curf = 0 then Some (curn = n)
     else if cstr_at tf curf = HASH \<or> cstr_at tf (curf + 1) = HASH then Some True
     else if cstr_at tf curf = PLUS then
       (if curn = 0 then None else do { c \<leftarrow> arr_get name (curn - 1); Some (c = SLASH) })
     else Some False)"

lemma is_topic_matched_verdict:
  "is_topic_matched tf name n =
    Option.bind (topic_match_loop tf name n 0 0) (\<lambda>(curf, curn). verdict tf name n curf curn)"
  by (simp add: is_topic_matched_def verdict_def)

definition prev_char :: "bytes \<Rightarrow> nat \<Rightarrow> byte option" where
  "prev_char name curn = (if curn = 0 then None else Some (name ! (curn - 1)))"

lemma cstr_at_drop: "cstr_at (drop k s) i = cstr_at s (k + i)"
  by (auto simp: cstr_at_def)

lemma verdict_break:
  assumes "drop curf tf = f # F" "f \<noteq> 0" "f = PLUS \<Longrightarrow> 0 < curn \<and> curn \<le> length name"
  shows "verdict tf name n curf curn = Some (at_break f F (prev_char name curn))"
proof -
  have "cstr_at (f # F) 0 = f" "cstr_at (f # F) 1 = cstr_at F 0" by (simp_all add: cstr_at_def)
  then have "cstr_at tf curf = f" "cstr_at tf (curf + 1) = cstr_at F 0"
    using cstr_at_drop [of curf tf 0] cstr_at_drop [of curf tf 1] assms(1) by simp_all
  then show ?thesis using assms(2,3)
    by (auto simp: verdict_def at_break_def prev_char_def arr_get_def)
qed

lemma drop_Cons_step: "drop k xs = y # ys \<Longrightarrow> k < length xs \<and> xs ! k = y \<and> drop (Suc k) xs = ys"
  by (metis Cons_nth_drop_Suc drop_all linorder_not_le list.distinct(1) list.inject)

lemma topic_match_loop_accepts:
  assumes "0 \<notin> set tf" "n \<le> length name" "0 < n"
  shows "drop curf tf = F \<Longrightarrow> drop curn (take n name) = N \<Longrightarrow> curf \<le> length tf \<Longrightarrow> curn \<le> n \<Longrightarrow>
    p = prev_char name curn \<Longrightarrow>
    Option.bind (topic_match_loop tf name n curf curn) (\<lambda>(f, c). verdict tf name n f c)
    = Some (accepts F N p)"
proof (induction F N p arbitrary: curf curn rule: accepts.induct)
  case (1 N p)
  then have "curf = length tf" by simp
  moreover have "N = [] \<longleftrightarrow> curn = n" using 1 assms(2) by auto
  ultimately show ?case by (simp add: topic_match_loop.simps [of tf name n "length tf"] cstr_at_def verdict_def)
next
  case (2 f F p)
  note f = drop_Cons_step [OF "2.prems"(1)]
  then have f0: "f \<noteq> 0" using assms(1) by (metis nth_mem)
  from "2.prems" assms(2) have "curn = n" by auto
  with f f0 verdict_break [OF "2.prems"(1) f0, of n name n] assms "2.prems"(5) show ?case
    by (simp add: topic_match_loop.simps [of tf name n curf] cstr_at_def)
next
  case (3 f F c N p)
  note f = drop_Cons_step [OF "3.prems"(1)] and c = drop_Cons_step [OF "3.prems"(2)]
  then have f0: "f \<noteq> 0" using assms(1) by (metis nth_mem)
  have cn: "curn < n" "name ! curn = c" using c assms(2) by auto
  have next_pos: "prev_char name (Suc curn) = Some c" using cn by (simp add: prev_char_def)
  note vb = verdict_break [OF "3.prems"(1) f0, of curn name n]
  note unf = topic_match_loop.simps [of tf name n curf curn]
  have at: "cstr_at tf curf = f" "arr_get name curn = Some c" "\<not> length tf < curf"
    using f cn assms(2) by (simp_all add: cstr_at_def arr_get_def)
  consider (a) "f = PLUS" "c = SLASH" | (b) "c = SLASH" "f \<noteq> SLASH" "f \<noteq> PLUS"
    | (d) "f \<noteq> PLUS" "f \<noteq> HASH" "f \<noteq> c" "c = SLASH \<longrightarrow> f = SLASH"
    | (e) "f = PLUS" "c \<noteq> SLASH" | (g) "f = HASH" "c \<noteq> SLASH" | (h) "f = c" "f \<noteq> PLUS" "f \<noteq> HASH"
    by (cases "f = PLUS"; cases "f = HASH"; cases "c = SLASH"; cases "f = SLASH"; cases "f = c") auto
  then show ?case
  proof cases
    case a
    have "Option.bind (topic_match_loop tf name n (Suc curf) curn) (\<lambda>(f, c). verdict tf name n f c)
        = Some (accepts F (c # N) p)"
      using "3.IH"(1) [of "Suc curf" curn] a f "3.prems" by auto
    with a at cn f0 show ?thesis by (simp add: unf)
  next
    case b
    with at cn f0 vb "3.prems"(5) show ?thesis by (simp add: unf)
  next
    case d
    with at cn f0 vb "3.prems"(5) show ?thesis by (cases "c = SLASH") (simp_all add: unf)
  next
    case e
    let ?k = "length (takeWhile (\<lambda>c. c \<noteq> SLASH) N)"
    have sk: "skip_level name curn n = Some (curn + ?k)"
      by (rule skip_level_eq [OF "3.prems"(2) assms(2)])
    have dn: "drop (Suc curn + ?k) (take n name) = dropWhile (\<lambda>c. c \<noteq> SLASH) N"
      using arg_cong [of _ _ "drop ?k", OF conjunct2 [OF conjunct2 [OF c]]]
      by (simp add: dropWhile_eq_drop add.commute)
    have "length (c # N) = n - curn"
      using arg_cong [OF "3.prems"(2), of length] assms(2) by simp
    then have le: "Suc curn + ?k \<le> n" using cn length_takeWhile_le [of "\<lambda>c. c \<noteq> SLASH" N] by simp
    have "drop curn (take n name) ! ?k = (c # N) ! ?k" using "3.prems"(2) by simp
    then have "name ! (curn + ?k) = (c # N) ! ?k" using le assms(2) by simp
    also have "\<dots> = last (c # takeWhile (\<lambda>c. c \<noteq> SLASH) N)"
    proof (cases "takeWhile (\<lambda>c. c \<noteq> SLASH) N" rule: rev_cases)
      case (snoc ys y)
      then have "N ! (?k - 1) = y"
        using takeWhile_nth [of "?k - 1" "\<lambda>c. c \<noteq> SLASH" N] by simp
      with snoc show ?thesis by simp
    qed simp
    finally have pc: "prev_char name (Suc curn + ?k) = Some (last (c # takeWhile (\<lambda>c. c \<noteq> SLASH) N))"
      by (simp add: prev_char_def)
    have "Option.bind (topic_match_loop tf name n (Suc curf) (Suc curn + ?k)) (\<lambda>(f, c). verdict tf name n f c)
        = Some (accepts F (dropWhile (\<lambda>c. c \<noteq> SLASH) N) (Some (last (c # takeWhile (\<lambda>c. c \<noteq> SLASH) N))))"
      using "3.IH"(2) [of "Suc curf" "Suc curn + ?k"] e f dn le pc by auto
    with e at cn f0 sk show ?thesis by (simp add: unf)
  next
    case g
    have n1: "Suc (n - Suc 0) = n" using assms(3) by simp
    have "length (c # N) = n - curn"
      using arg_cong [OF "3.prems"(2), of length] assms(2) by simp
    moreover have "last (drop curn (take n name)) = last (c # N)" using "3.prems"(2) by simp
    then have "last (take n name) = last (c # N)" using cn assms(2) by simp
    then have "name ! (n - 1) = last (c # N)" 
      using assms last_conv_nth [of "take n name"] by (cases "name = []") (simp_all add: min_absorb2)
    then have "prev_char name n = Some (last (c # N))" using assms(3) by (simp add: prev_char_def)
    then have "Option.bind (topic_match_loop tf name n (Suc curf) n) (\<lambda>(f, c). verdict tf name n f c)
        = Some (accepts F [] (Some (last (c # N))))"
      using "3.IH"(3) [of "Suc curf" n] g f by auto
    with g at cn f0 n1 show ?thesis by (simp add: unf)
  next
    case h
    have "Option.bind (topic_match_loop tf name n (Suc curf) (Suc curn)) (\<lambda>(f, c). verdict tf name n f c)
        = Some (accepts F N (Some c))"
      using "3.IH"(4) [of "Suc curf" "Suc curn"] h f c cn next_pos by auto
    with h at cn f0 show ?thesis by (simp add: unf)
  qed
qed

lemma is_topic_matched_accepts:
  assumes "0 \<notin> set tf" "name \<noteq> []"
  shows "is_topic_matched tf (name @ rest) (length name) = Some (accepts tf name None)"
  using topic_match_loop_accepts [OF assms(1), of "length name" "name @ rest" 0 tf 0 name None] assms(2)
  by (simp add: is_topic_matched_verdict prev_char_def)

subsection \<open>No subscription is missed\<close>

lemma levels_not_Nil [simp]: "levels s \<noteq> []"
  by (induction s) auto

lemma levels_Cons: "levels s = l # ls \<Longrightarrow> levels (c # s) = (if c = SLASH then [] # l # ls else (c # l) # ls)"
  by simp

declare levels.simps(2) [simp del]

lemma levels_ex: "\<exists>l ls. levels s = l # ls"
  by (cases "levels s") auto

lemma levels_eq_single: "levels s = [l] \<longleftrightarrow> s = l \<and> SLASH \<notin> set s"
proof (induction s arbitrary: l)
  case (Cons c s)
  obtain m ms where m: "levels s = m # ms" using levels_ex by blast
  show ?case
  proof (cases "c = SLASH")
    case False
    have "levels (c # s) = [l] \<longleftrightarrow> (\<exists>l'. l = c # l' \<and> levels s = [l'])"
      using False by (auto simp: levels_Cons [OF m] m)
    with Cons.IH False show ?thesis by auto
  qed (auto simp: levels_Cons [OF m])
qed auto

lemma levels_hd_Nil: "hd (levels s) = [] \<longleftrightarrow> s = [] \<or> hd s = SLASH"
  by (cases s) (auto simp: levels.simps(2))

lemma levels_dropWhile:
  "levels (dropWhile (\<lambda>c. c \<noteq> SLASH) s) = [] # tl (levels s)"
  by (induction s) (auto simp: levels.simps(2))

lemma valid_levels_tail:
  assumes "valid_levels (levels (f # F))"
  shows "valid_levels (levels F)"
proof -
  obtain l ls where l: "levels F = l # ls" using levels_ex by blast
  show ?thesis
  proof (cases "f = SLASH")
    case False
    have "valid_levels ((f # l) # ls)" using assms False by (simp only: levels_Cons [OF l] if_False)
    then show ?thesis unfolding l by (cases "l = []") (simp_all)
  qed (use assms in \<open>simp add: levels_Cons [OF l] l\<close>)
qed

lemma levels_match_accepts:
  "valid_levels (levels F) \<Longrightarrow> levels_match (levels F) (levels N) \<Longrightarrow>
   (\<exists>F'. F = PLUS # F') \<longrightarrow> N \<noteq> [] \<or> p = Some SLASH \<Longrightarrow>
   PLUS \<notin> set N \<Longrightarrow> HASH \<notin> set N \<Longrightarrow> accepts F N p"
proof (induction F N p rule: accepts.induct)
  case (1 N p)
  then show ?case using levels_eq_single [of N "[]"] by (cases "levels N") auto
next
  case (2 f F p)
  obtain l ls where l: "levels F = l # ls" using levels_ex by blast
  show ?case
  proof (cases "f = SLASH")
    case True
    with "2.prems"(2) have "levels_match (l # ls) []" by (simp add: levels_Cons [OF l])
    then have "levels F = [[HASH]]" unfolding l by (simp split: if_splits)
    then have "F = [HASH]" by (simp add: levels_eq_single)
    then show ?thesis by (simp add: at_break_def cstr_at_def)
  next
    case False
    with "2.prems"(2) have "f # l = [HASH] \<or> f # l = [PLUS]"
      by (simp only: levels_Cons [OF l]) (simp split: if_splits)
    with "2.prems"(3) show ?thesis by (auto simp: at_break_def)
  qed
next
  case (3 f F c N p)
  note v = valid_levels_tail [OF "3.prems"(1)]
  have no: "PLUS \<notin> set N" "HASH \<notin> set N" "c \<noteq> PLUS" "c \<noteq> HASH" using "3.prems"(4,5) by simp_all
  obtain l ls where l: "levels F = l # ls" using levels_ex by blast
  obtain m ms where m: "levels N = m # ms" using levels_ex by blast
  have lm: "levels_match (if f = SLASH then [] # l # ls else (f # l) # ls)
      (if c = SLASH then [] # m # ms else (c # m) # ms)"
    using "3.prems"(2) unfolding levels_Cons [OF l] levels_Cons [OF m] .
  have vl: "valid_levels (if f = SLASH then [] # l # ls else (f # l) # ls)"
    using "3.prems"(1) unfolding levels_Cons [OF l] .
  consider (plus) "f = PLUS" | (hash) "f = HASH" | (sep) "f = SLASH"
    | (lit) "f \<noteq> PLUS" "f \<noteq> HASH" "f \<noteq> SLASH" by blast
  then show ?case
  proof cases
    case plus
    with vl have l0: "l = []" by (simp split: if_splits)
    then have F: "F = [] \<or> hd F = SLASH" using l levels_hd_Nil [of F] by simp
    have ns: "(\<exists>F'. F = PLUS # F') \<longrightarrow> X" for X using F by auto
    show ?thesis
    proof (cases "c = SLASH")
      case True
      have "levels_match ls (m # ms)" using lm plus True l0 by simp
      then have "levels_match (levels F) (levels (c # N))"
        unfolding l levels_Cons [OF m] using l0 True by simp
      from "3.IH"(1) [OF _ v this ns "3.prems"(4,5)] True plus show ?thesis by simp
    next
      case False
      have "levels_match ls ms" using lm plus False l0 by simp
      then have lm': "levels_match (levels F) (levels (dropWhile (\<lambda>c. c \<noteq> SLASH) N))"
        using l l0 m by (simp add: levels_dropWhile)
      have "PLUS \<notin> set (dropWhile (\<lambda>c. c \<noteq> SLASH) N)" "HASH \<notin> set (dropWhile (\<lambda>c. c \<noteq> SLASH) N)"
        using no set_dropWhileD by metis+
      from "3.IH"(2) [OF _ _ _ _ v lm' ns this] plus False show ?thesis by simp
    qed
  next
    case hash
    with vl have "l = []" "ls = []" by (simp_all split: if_splits)
    then have "F = []" using l levels_eq_single [of F "[]"] by simp
    then show ?thesis using hash by (simp add: at_break_def)
  next
    case sep
    have c: "c = SLASH" using lm sep by (simp split: if_splits)
    then have "levels_match (levels F) (levels N)" using lm sep l m by simp
    from "3.IH"(4) [OF _ _ _ _ _ v this _ no(1,2)] sep c show ?thesis by simp
  next
    case lit
    have c: "c \<noteq> SLASH \<and> f = c" using lm lit no by (simp split: if_splits)
    have nl: "PLUS \<notin> set l" "HASH \<notin> set l" using vl lit by (simp_all split: if_splits)
    then have "l \<noteq> [HASH]" "l \<noteq> [PLUS]" by auto
    then have lm': "levels_match (levels F) (levels N)"
      unfolding l m using lm lit c no by (simp split: if_splits)
    have ns: "(\<exists>F'. F = PLUS # F') \<longrightarrow> X" for X
      using l nl(1) by (auto simp: levels.simps(2))
    from "3.IH"(4) [OF _ _ _ _ _ v lm' ns no(1,2)] lit c show ?thesis by simp
  qed
qed

lemma matching_accepted:
  assumes "valid_filter tf" "valid_name name" "topic_matches tf name"
  shows "accepts tf name None"
  using levels_match_accepts [of tf name None] assms
  by (simp add: valid_filter_def valid_name_def topic_matches_def)

lemma cstr_at_notin: "x \<notin> set s \<Longrightarrow> x \<noteq> 0 \<Longrightarrow> cstr_at s i \<noteq> x"
  by (auto simp: cstr_at_def)

lemma accepts_literal:
  "PLUS \<notin> set F \<Longrightarrow> HASH \<notin> set F \<Longrightarrow> accepts F N p \<longleftrightarrow> F = N"
  by (induction F N p rule: accepts.induct) (auto simp: at_break_def cstr_at_notin split: if_splits)

end
