(* ===== verification/Topic_Props.thy ===== *)
theory Topic_Props
  imports Mqtt_Topic
begin

text \<open>
  The properties of topic matching: no matching subscription is missed, filters without
  wildcards match by equality, and the names that a filter \<open>/#\<close> matches though it should not.
\<close>

text \<open>
  C28: For a filter in correct format and a topic name without wildcards, whenever the filter
  matches the name level by level as the standard says, \<open>_is_topic_matched\<close> says so too,
  whatever follows the name in its array: no subscribed message is missed.
\<close>

theorem matched_complete:
  assumes "valid_filter tf" "valid_name name" "topic_matches tf name"
  shows "is_topic_matched tf (name @ rest) (length name) = Some True"
proof -
  have "0 \<notin> set tf" "name \<noteq> []" using assms by (simp_all add: valid_filter_def valid_name_def)
  then show ?thesis
    using matching_accepted [OF assms] by (simp add: is_topic_matched_accepts)
qed

theorem matched_complete_witness:
  "is_topic_matched [0x61, 0x2F, 0x2B, 0x2F, 0x23] [0x61, 0x2F, 0x62, 0x2F, 0x63, 0, 0] 5 = Some True"
proof -
  have a: "valid_filter [0x61, 0x2F, 0x2B, 0x2F, 0x23]" by code_simp
  have b: "valid_name [0x61, 0x2F, 0x62, 0x2F, 0x63]" by code_simp
  have c: "topic_matches [0x61, 0x2F, 0x2B, 0x2F, 0x23] [0x61, 0x2F, 0x62, 0x2F, 0x63]" by code_simp
  from matched_complete [OF a b c, of "[0, 0]"] show ?thesis by (simp add: numeral_eq_Suc)
qed

text \<open>
  A filter without wildcards matches exactly the name that is equal to it, and the decision
  never reads outside the name.
\<close>

lemma matched_literal:
  assumes "0 \<notin> set tf" "PLUS \<notin> set tf" "HASH \<notin> set tf" "name \<noteq> []"
  shows "is_topic_matched tf (name @ rest) (length name) = Some (tf = name)"
  by (simp add: is_topic_matched_accepts [OF assms(1,4)] accepts_literal [OF assms(2,3)])

text \<open>
  C29: The filter \<open>/#\<close> accepts every name that does not begin with a separator, although none of
  them lies below the empty first level: the look-ahead \<open>*(curf + 1) == '#'\<close> is also taken when
  the loop was left because of a mismatch.
\<close>

theorem slash_hash_accepts_all:
  assumes "name \<noteq> []" "hd name \<noteq> SLASH"
  shows "is_topic_matched [SLASH, HASH] (name @ rest) (length name) = Some True
    \<and> \<not> topic_matches [SLASH, HASH] name"
proof -
  obtain c cs where n: "name = c # cs" "c \<noteq> SLASH" using assms by (cases name) auto
  have "accepts [SLASH, HASH] name None" using n by (simp add: at_break_def cstr_at_def)
  moreover have "\<not> topic_matches [SLASH, HASH] name"
    using n levels_ex [of cs] by (auto simp: topic_matches_def levels.simps(2))
  ultimately show ?thesis using is_topic_matched_accepts [of "[SLASH, HASH]" name rest] assms(1) by simp
qed

theorem slash_hash_accepts_all_witness:
  "is_topic_matched [0x2F, 0x23] [0x61, 0x62, 0] 2 = Some True"
  unfolding numeral_2_eq_2 using slash_hash_accepts_all [of "[0x61, 0x62]" "[0]"] by simp

end
