(* ===== verification/Hal_World.thy ===== *)
theory Hal_World
  imports Prelude
begin

text \<open>
  The platform under the client: the clock and the timers of
  \<^verbatim>\<open>platform/os/linux/HAL_Timer_linux.c\<close> and \<^verbatim>\<open>src/utils/utils_timer.c\<close>, the mutexes
  and the allocator of \<^verbatim>\<open>HAL_OS_linux.c\<close>, the read and write loops of
  \<^verbatim>\<open>platform/ssl/mbedtls/HAL_TLS_mbedtls.c\<close> and the dispatch layer
  \<^verbatim>\<open>src/utils/utils_net.c\<close> in its TLS configuration.

  What the operating system, the peer and the mbedtls library decide is not code of the
  program.  It is part of the state, as scripts that are consumed: how long every clock reading
  takes, what every \<open>mbedtls_ssl_read\<close> and \<open>mbedtls_ssl_write\<close> returns, whether a connection
  is set up and whether \<open>malloc\<close> succeeds.  A theorem about all states is a theorem about all
  scripts.  An empty script means: no data arrive, writes and allocations succeed.
\<close>

datatype lock = lock_generic | lock_write_buf | lock_list_pub | lock_list_sub

text \<open>One result of \<open>mbedtls_ssl_read\<close>: application data, or a code that is not positive.\<close>

datatype ssl_result = SslData bytes | SslCode int

record world =
  clock :: nat
  ticks :: "nat list"
  ssl_rx :: "ssl_result list"
  ssl_tx :: "int list"
  tls_up :: "bool list"
  mallocs :: "bool list"
  held :: "lock set"
  handle :: nat
  wire :: bytes

subsection \<open>The clock and the timers\<close>

text \<open>
  \<open>gettimeofday\<close>, in microseconds.  Every reading takes at least one microsecond.
\<close>

definition gettimeofday :: "'a world_scheme \<Rightarrow> nat \<times> 'a world_scheme" where
  "gettimeofday w =
     (let now = clock w + Suc (case ticks w of [] \<Rightarrow> 0 | t # _ \<Rightarrow> t)
      in (now, w\<lparr>clock := now, ticks := tl (ticks w)\<rparr>))"

type_synonym Timer = nat

definition HAL_Timer_Init :: Timer where "HAL_Timer_Init = 0"

definition HAL_Timer_Expired :: "Timer \<Rightarrow> 'a world_scheme \<Rightarrow> bool \<times> 'a world_scheme" where
  "HAL_Timer_Expired end_time w = (let (now, w) = gettimeofday w in (end_time \<le> now, w))"

definition HAL_Timer_Countdown_ms :: "nat \<Rightarrow> 'a world_scheme \<Rightarrow> Timer \<times> 'a world_scheme" where
  "HAL_Timer_Countdown_ms timeout_ms w =
     (let (now, w) = gettimeofday w
      in (now + (timeout_ms div 1000 * 1000000 + timeout_ms mod 1000 * 1000), w))"

definition HAL_Timer_Countdown :: "nat \<Rightarrow> 'a world_scheme \<Rightarrow> Timer \<times> 'a world_scheme" where
  "HAL_Timer_Countdown timeout w =
     (let (now, w) = gettimeofday w in (now + timeout * 1000000, w))"

text \<open>
  The seconds of \<open>timersub\<close>'s normalised result are negative exactly when the end lies before
  now; otherwise seconds and microseconds together are the whole milliseconds left.
\<close>

definition HAL_Timer_Remain_ms :: "Timer \<Rightarrow> 'a world_scheme \<Rightarrow> nat \<times> 'a world_scheme" where
  "HAL_Timer_Remain_ms end_time w =
     (let (now, w) = gettimeofday w
      in (if now \<le> end_time then ((end_time - now) div 1000) mod 2 ^ 32 else 0, w))"

definition has_expired :: "Timer \<Rightarrow> 'a world_scheme \<Rightarrow> bool \<times> 'a world_scheme" where
  "has_expired = HAL_Timer_Expired"

definition countdown_ms :: "nat \<Rightarrow> 'a world_scheme \<Rightarrow> Timer \<times> 'a world_scheme" where
  "countdown_ms = HAL_Timer_Countdown_ms"

definition countdown :: "nat \<Rightarrow> 'a world_scheme \<Rightarrow> Timer \<times> 'a world_scheme" where
  "countdown = HAL_Timer_Countdown"

text \<open>\<open>left_ms\<close> converts the \<open>uint32_t\<close> to \<open>int\<close>.\<close>

definition int_of_uint32 :: "nat \<Rightarrow> int" where
  "int_of_uint32 n = (if n < 2 ^ 31 then int n else int n - 2 ^ 32)"

definition uint32_of_int :: "int \<Rightarrow> nat" where
  "uint32_of_int i = nat (i mod 2 ^ 32)"

definition left_ms :: "Timer \<Rightarrow> 'a world_scheme \<Rightarrow> int \<times> 'a world_scheme" where
  "left_ms t w = (let (r, w) = HAL_Timer_Remain_ms t w in (int_of_uint32 r, w))"

definition init_timer :: Timer where "init_timer = HAL_Timer_Init"

text \<open>\<open>usleep(1000 * ms)\<close>; the product is a \<open>uint32_t\<close>.\<close>

definition HAL_SleepMs :: "nat \<Rightarrow> 'a world_scheme \<Rightarrow> 'a world_scheme" where
  "HAL_SleepMs ms w = w\<lparr>clock := clock w + (1000 * ms) mod 2 ^ 32\<rparr>"

subsection \<open>Mutexes and memory\<close>

text \<open>The mutexes are not recursive: locking one that is held never returns.\<close>

definition HAL_MutexLock :: "lock \<Rightarrow> 'a world_scheme \<Rightarrow> 'a world_scheme option" where
  "HAL_MutexLock l w = (if l \<in> held w then None else Some (w\<lparr>held := insert l (held w)\<rparr>))"

definition HAL_MutexUnlock :: "lock \<Rightarrow> 'a world_scheme \<Rightarrow> 'a world_scheme option" where
  "HAL_MutexUnlock l w = (if l \<in> held w then Some (w\<lparr>held := held w - {l}\<rparr>) else None)"

definition HAL_Malloc :: "'a world_scheme \<Rightarrow> bool \<times> 'a world_scheme" where
  "HAL_Malloc w = (case mallocs w of [] \<Rightarrow> (True, w) | b # bs \<Rightarrow> (b, w\<lparr>mallocs := bs\<rparr>))"

subsection \<open>TLS\<close>

definition MBEDTLS_WANT :: "int \<Rightarrow> bool" where
  "MBEDTLS_WANT rc \<longleftrightarrow> rc = - 0x6900 \<or> rc = - 0x6880"

text \<open>
  \<open>mbedtls_ssl_read\<close> delivers at most the bytes asked for and keeps the others; no data in time
  is \<open>MBEDTLS_ERR_SSL_TIMEOUT\<close>.
\<close>

definition mbedtls_ssl_read :: "nat \<Rightarrow> 'a world_scheme \<Rightarrow> int \<times> bytes \<times> 'a world_scheme" where
  "mbedtls_ssl_read n w =
     (case ssl_rx w of
        [] \<Rightarrow> (- 0x6800, [], w)
      | SslCode rc # es \<Rightarrow> (if rc < 0 then rc else 0, [], w\<lparr>ssl_rx := es\<rparr>)
      | SslData bs # es \<Rightarrow>
          (int (min n (length bs)), take n bs,
           w\<lparr>ssl_rx := (if length bs \<le> n then es else SslData (drop n bs) # es)\<rparr>))"

definition mbedtls_ssl_write :: "bytes \<Rightarrow> 'a world_scheme \<Rightarrow> int \<times> 'a world_scheme" where
  "mbedtls_ssl_write bs w =
     (case ssl_tx w of
        [] \<Rightarrow> (int (length bs), w\<lparr>wire := wire w @ bs\<rparr>)
      | rc # es \<Rightarrow>
          (if rc \<le> 0 then (rc, w\<lparr>ssl_tx := es\<rparr>)
           else (min rc (int (length bs)), w\<lparr>ssl_tx := es, wire := wire w @ take (nat rc) bs\<rparr>)))"

lemma mbedtls_ssl_write_clock: "mbedtls_ssl_write bs w = (rc, w') \<Longrightarrow> clock w' = clock w"
  by (auto simp: mbedtls_ssl_write_def split: list.splits if_splits)

lemma clock_mbedtls_ssl_write [simp]: "clock (snd (mbedtls_ssl_write bs w)) = clock w"
  using mbedtls_ssl_write_clock [of bs w] by (metis surjective_pairing)

definition timed_out :: "Timer \<Rightarrow> 'a world_scheme \<Rightarrow> bool" where
  "timed_out t w = fst (HAL_Timer_Expired t w)"

definition clock_read :: "'a world_scheme \<Rightarrow> 'a world_scheme" where
  "clock_read w = snd (gettimeofday w)"

lemma clock_read_less: "clock w < clock (clock_read w)"
  by (simp add: clock_read_def gettimeofday_def Let_def)

lemma timed_out_iff: "timed_out t w \<longleftrightarrow> t \<le> clock (clock_read w)"
  by (simp add: timed_out_def HAL_Timer_Expired_def clock_read_def gettimeofday_def Let_def)

lemma timer_dec: "\<not> timed_out t w \<Longrightarrow> clock (clock_read w) \<le> c \<Longrightarrow> t - c < t - clock w"
  using clock_read_less [of w] by (simp add: timed_out_iff)

text \<open>
  The loop of \<open>HAL_TLS_Read\<close>: \<open>got\<close> are the bytes stored into the caller's buffer so far.  The
  timer is looked at after every call of mbedtls, so the loop ends when it runs out.
\<close>

function tls_read_loop ::
  "Timer \<Rightarrow> nat \<Rightarrow> bytes \<Rightarrow> 'a world_scheme \<Rightarrow> int \<times> bytes \<times> 'a world_scheme" where
  "tls_read_loop timer n got w =
     (if length got < n then
        (case mbedtls_ssl_read (n - length got) w of (read_rc, bs, w1) \<Rightarrow>
           if read_rc > 0 \<or> (read_rc \<noteq> 0 \<and> (MBEDTLS_WANT read_rc \<or> read_rc = - 0x6800)) then
             (if timed_out timer w1 then (int (length (got @ bs)), got @ bs, clock_read w1)
              else tls_read_loop timer n (got @ bs) (clock_read w1))
           else (ERR_SSL_READ_FAILED, got, w1))
      else (int (length got), got, w))"
  by pat_completeness auto
termination
proof (relation "measure (\<lambda>(timer, n, got, w). timer - clock w)", simp, clarsimp)
  fix timer :: Timer and n and got :: bytes and w w1 :: "'a world_scheme" and rc and bs
  assume r: "(rc, bs, w1) = mbedtls_ssl_read (n - length got) w" and t: "\<not> timed_out timer w1"
  from r have "clock w1 = clock w"
    by (auto simp: mbedtls_ssl_read_def split: list.splits ssl_result.splits)
  with t clock_read_less [of w1] show "timer - clock (clock_read w1) < timer - clock w"
    by (simp add: timed_out_iff)
qed

declare tls_read_loop.simps [simp del]

definition HAL_TLS_Read :: "nat \<Rightarrow> nat \<Rightarrow> 'a world_scheme \<Rightarrow> int \<times> bytes \<times> 'a world_scheme" where
  "HAL_TLS_Read n timeout_ms w =
     (let (timer, w) = HAL_Timer_Countdown_ms timeout_ms w in tls_read_loop timer n [] w)"

text \<open>
  The inner loop of \<open>HAL_TLS_Write\<close>: the value of \<open>write_rc\<close> when it is left, or \<open>None\<close> for the
  error flag.  When the timer has run out before the first attempt, \<open>write_rc\<close> keeps the value
  of the round before.
\<close>

function tls_write_try ::
  "Timer \<Rightarrow> bytes \<Rightarrow> int \<Rightarrow> 'a world_scheme \<Rightarrow> int option \<times> 'a world_scheme" where
  "tls_write_try timer bs write_rc w =
     (if timed_out timer w then (Some write_rc, clock_read w)
      else case mbedtls_ssl_write bs (clock_read w) of (rc, w1) \<Rightarrow>
        if rc > 0 then (Some rc, w1)
        else if MBEDTLS_WANT rc then tls_write_try timer bs rc w1 else (None, w1))"
  by pat_completeness auto
termination
  by (relation "measure (\<lambda>p. fst p - clock (snd (snd (snd p))))")
     (auto intro!: timer_dec)

declare tls_write_try.simps [simp del]

lemma tls_write_try_clock:
  "tls_write_try timer bs rc w = (r, w') \<Longrightarrow> clock w < clock w'"
proof (induction timer bs rc w rule: tls_write_try.induct)
  case (1 timer bs write_rc w)
  have step: "mbedtls_ssl_write bs (clock_read w) = (rc, w1) \<Longrightarrow> clock w < clock w1" for rc w1
    using clock_read_less [of w]
    by (auto simp: mbedtls_ssl_write_def split: list.splits if_splits)
  from "1.prems" show ?case
    apply (subst (asm) tls_write_try.simps)
    using "1.IH" step clock_read_less [of w]
    by (auto split: if_splits prod.splits dest: less_trans)
qed

text \<open>
  The outer loop.  \<open>written_so_far\<close> is a \<open>size_t\<close> to which the \<open>int\<close> \<open>write_rc\<close> is added; a
  negative sum stands for the huge \<open>size_t\<close>, which ends the loop and is returned as the same
  negative \<open>int32_t\<close>.
\<close>

function tls_write_loop ::
  "Timer \<Rightarrow> bytes \<Rightarrow> int \<Rightarrow> int \<Rightarrow> 'a world_scheme \<Rightarrow> int \<times> 'a world_scheme" where
  "tls_write_loop timer buf written_so_far write_rc w =
     (if 0 \<le> written_so_far \<and> written_so_far < int (length buf) then
        if timed_out timer w then (written_so_far, clock_read w)
        else case tls_write_try timer (drop (nat written_so_far) buf) write_rc (clock_read w) of
            (None, w1) \<Rightarrow> (ERR_SSL_WRITE_FAILED, w1)
          | (Some rc, w1) \<Rightarrow> tls_write_loop timer buf (written_so_far + rc) rc w1
      else (written_so_far, w))"
  by pat_completeness auto
termination
  by (relation "measure (\<lambda>p. fst p - clock (snd (snd (snd (snd p)))))")
     (auto intro!: timer_dec dest!: tls_write_try_clock [OF sym])

declare tls_write_loop.simps [simp del]

definition HAL_TLS_Write :: "bytes \<Rightarrow> nat \<Rightarrow> 'a world_scheme \<Rightarrow> int \<times> 'a world_scheme" where
  "HAL_TLS_Write buf timeout_ms w =
     (let (timer, w) = HAL_Timer_Countdown_ms timeout_ms w in tls_write_loop timer buf 0 0 w)"

definition HAL_TLS_Disconnect :: "'a world_scheme \<Rightarrow> int \<times> 'a world_scheme" where
  "HAL_TLS_Disconnect w = (if handle w = 0 then FAILURE_RET else SUCCESS_RET, w)"

text \<open>
  \<open>HAL_TLS_Connect\<close> runs the handshake of mbedtls; the model keeps its outcome: the address of
  the connection's data, which is not 0, or 0.
\<close>

definition HAL_TLS_Connect :: "'a world_scheme \<Rightarrow> nat \<times> 'a world_scheme" where
  "HAL_TLS_Connect w =
     (case tls_up w of [] \<Rightarrow> (1, w) | b # bs \<Rightarrow> (if b then 1 else 0, w\<lparr>tls_up := bs\<rparr>))"

subsection \<open>The network dispatch layer\<close>

text \<open>
  \<open>read_ssl\<close> and \<open>write_ssl\<close> dereference the handle.  A read gives the C result and the bytes
  stored; the caller's buffer is updated with them even when the result is an error.
\<close>

definition utils_net_read ::
  "nat \<Rightarrow> nat \<Rightarrow> 'a world_scheme \<Rightarrow> (int \<times> bytes \<times> 'a world_scheme) option" where
  "utils_net_read n timeout_ms w =
     (if handle w = 0 then None else Some (HAL_TLS_Read n timeout_ms w))"

definition utils_net_write ::
  "bytes \<Rightarrow> nat \<Rightarrow> 'a world_scheme \<Rightarrow> (int \<times> 'a world_scheme) option" where
  "utils_net_write bs timeout_ms w =
     (if handle w = 0 then None else Some (HAL_TLS_Write bs timeout_ms w))"

definition utils_net_disconnect :: "'a world_scheme \<Rightarrow> int \<times> 'a world_scheme" where
  "utils_net_disconnect w = (let (_, w) = HAL_TLS_Disconnect w in (SUCCESS_RET, w\<lparr>handle := 0\<rparr>))"

definition utils_net_connect :: "'a world_scheme \<Rightarrow> int \<times> 'a world_scheme" where
  "utils_net_connect w =
     (let (h, w) = HAL_TLS_Connect w
      in (if h \<noteq> 0 then SUCCESS_RET else FAILURE_RET, w\<lparr>handle := h\<rparr>))"

subsection \<open>What the platform calls leave alone\<close>

text \<open>
  The calls that only wait, read or write change the clock and the scripts: the clock does not
  run backwards, the mutexes, the handle and everything that a client adds to the state stay.
\<close>

definition env :: "'a world_scheme \<Rightarrow> 'a world_scheme \<Rightarrow> bool" where
  "env w w' \<longleftrightarrow> clock w \<le> clock w' \<and> held w' = held w \<and> handle w' = handle w \<and>
     mallocs w' = mallocs w \<and> tls_up w' = tls_up w \<and> world.more w' = world.more w"

lemma env_refl [simp]: "env w w"
  by (simp add: env_def)

lemma env_trans [trans]: "env u v \<Longrightarrow> env v w \<Longrightarrow> env u w"
  by (auto simp: env_def)

lemma env_clock_read: "env w (clock_read w)"
  by (simp add: env_def clock_read_def gettimeofday_def Let_def)

lemma env_gettimeofday: "gettimeofday w = (t, w') \<Longrightarrow> env w w' \<and> clock w < clock w'"
  by (auto simp: env_def gettimeofday_def Let_def)

lemma env_ssl_read: "mbedtls_ssl_read n w = (rc, bs, w') \<Longrightarrow> env w w'"
  by (auto simp: env_def mbedtls_ssl_read_def split: list.splits ssl_result.splits)

lemma env_ssl_write: "mbedtls_ssl_write bs w = (rc, w') \<Longrightarrow> env w w'"
  by (auto simp: env_def mbedtls_ssl_write_def split: list.splits if_splits)

lemma env_tls_read_loop: "tls_read_loop timer n got w = (r, bs, w') \<Longrightarrow> env w w'"
proof (induction timer n got w rule: tls_read_loop.induct)
  case (1 timer n got w)
  obtain rc bs1 w1 where m: "mbedtls_ssl_read (n - length got) w = (rc, bs1, w1)"
    by (metis surj_pair)
  note e = env_ssl_read [OF m] env_trans [OF env_ssl_read [OF m] env_clock_read]
  note unf = tls_read_loop.simps [of timer n got w]
  show ?case
  proof (cases "length got < n \<and> (rc > 0 \<or> (rc \<noteq> 0 \<and> (MBEDTLS_WANT rc \<or> rc = - 0x6800)))")
    case True
    then show ?thesis
      using "1.IH" [OF _ m [symmetric] refl] "1.prems" e m env_trans [OF e(2)]
      by (auto simp: unf split: if_splits)
  next
    case False
    with "1.prems" e m show ?thesis by (simp add: unf split: if_splits)
  qed
qed

lemma env_tls_write_try: "tls_write_try timer bs rc w = (r, w') \<Longrightarrow> env w w'"
proof (induction timer bs rc w rule: tls_write_try.induct)
  case (1 timer bs write_rc w)
  obtain rc w1 where m: "mbedtls_ssl_write bs (clock_read w) = (rc, w1)" by (metis surj_pair)
  note e = env_clock_read env_trans [OF env_clock_read env_ssl_write [OF m]]
  note unf = tls_write_try.simps [of timer bs write_rc w]
  show ?case
    using "1.IH" [OF _ m [symmetric]] "1.prems" e m env_trans [OF e(2)]
    by (auto simp: unf split: if_splits)
qed

lemma env_tls_write_loop: "tls_write_loop timer buf n rc w = (r, w') \<Longrightarrow> env w w'"
proof (induction timer buf n rc w rule: tls_write_loop.induct)
  case (1 timer buf n rc w)
  obtain r1 w1 where m: "tls_write_try timer (drop (nat n) buf) rc (clock_read w) = (r1, w1)"
    by (metis surj_pair)
  note e = env_clock_read env_trans [OF env_clock_read env_tls_write_try [OF m]]
  note unf = tls_write_loop.simps [of timer buf n rc w]
  show ?case
    using "1.IH" [OF _ _ m [symmetric]] "1.prems" e m env_trans [OF e(2)]
    by (auto simp: unf split: if_splits option.splits)
qed

lemma env_countdown_ms: "countdown_ms n w = (t, w') \<Longrightarrow> env w w'"
  using env_clock_read [of w]
  by (auto simp: countdown_ms_def HAL_Timer_Countdown_ms_def clock_read_def split_beta Let_def)

lemma env_countdown: "countdown n w = (t, w') \<Longrightarrow> env w w'"
  using env_clock_read [of w]
  by (auto simp: countdown_def HAL_Timer_Countdown_def clock_read_def split_beta Let_def)

lemma env_has_expired: "has_expired t w = (b, w') \<Longrightarrow> env w w' \<and> clock w < clock w' \<and> (b \<longleftrightarrow> t \<le> clock w')"
  using env_clock_read [of w] clock_read_less [of w] timed_out_iff [of t w]
  by (auto simp: has_expired_def HAL_Timer_Expired_def timed_out_def clock_read_def split_beta Let_def)

lemma env_left_ms: "left_ms t w = (n, w') \<Longrightarrow> env w w'"
  using env_clock_read [of w]
  by (auto simp: left_ms_def HAL_Timer_Remain_ms_def clock_read_def split_beta Let_def)

lemma env_SleepMs: "env w (HAL_SleepMs n w)"
  by (simp add: env_def HAL_SleepMs_def)

lemma env_TLS_Read: "HAL_TLS_Read n t w = (r, bs, w') \<Longrightarrow> env w w'"
  using env_countdown_ms [of t w] env_tls_read_loop
  by (fastforce simp: HAL_TLS_Read_def countdown_ms_def split: prod.splits dest: env_trans)

lemma env_TLS_Write: "HAL_TLS_Write bs t w = (r, w') \<Longrightarrow> env w w'"
  using env_countdown_ms [of t w] env_tls_write_loop
  by (fastforce simp: HAL_TLS_Write_def countdown_ms_def split: prod.splits dest: env_trans)

lemma env_net_read: "utils_net_read n t w = Some (r, bs, w') \<Longrightarrow> env w w'"
  by (auto simp: utils_net_read_def env_TLS_Read split: if_splits)

lemma env_net_write: "utils_net_write bs t w = Some (r, w') \<Longrightarrow> env w w'"
  by (auto simp: utils_net_write_def env_TLS_Write split: if_splits)

subsection \<open>Reads and writes deliver what they say\<close>

text \<open>The application data that mbedtls will still deliver, up to the first error.\<close>

definition incoming :: "'a world_scheme \<Rightarrow> bytes" where
  "incoming w = concat (map (\<lambda>e. case e of SslData bs \<Rightarrow> bs | SslCode _ \<Rightarrow> []) (ssl_rx w))"

lemma incoming_clock_read [simp]: "incoming (clock_read w) = incoming w"
  by (simp add: incoming_def clock_read_def gettimeofday_def Let_def)

lemma ssl_read_incoming:
  "mbedtls_ssl_read n w = (rc, bs, w') \<Longrightarrow>
   incoming w = bs @ incoming w' \<and> length bs \<le> n \<and> (rc > 0 \<longrightarrow> rc = int (length bs)) \<and> (rc \<le> 0 \<longrightarrow> bs = [])"
  by (auto simp: mbedtls_ssl_read_def incoming_def split: list.splits ssl_result.splits if_splits)

lemma tls_read_loop_incoming:
  "tls_read_loop timer n got w = (r, bs, w') \<Longrightarrow> length got \<le> n \<Longrightarrow>
   \<exists>new. bs = got @ new \<and> incoming w = new @ incoming w' \<and> length bs \<le> n \<and>
     (r = int (length bs) \<or> r = ERR_SSL_READ_FAILED)"
proof (induction timer n got w rule: tls_read_loop.induct)
  case (1 timer n got w)
  obtain rc bs1 w1 where m: "mbedtls_ssl_read (n - length got) w = (rc, bs1, w1)"
    by (metis surj_pair)
  note i = ssl_read_incoming [OF m]
  note unf = tls_read_loop.simps [of timer n got w]
  show ?case
  proof (cases "length got < n \<and> (rc > 0 \<or> (rc \<noteq> 0 \<and> (MBEDTLS_WANT rc \<or> rc = - 0x6800)))")
    case True
    show ?thesis
    proof (cases "timed_out timer w1")
      case False
      with True "1.prems" m have "tls_read_loop timer n (got @ bs1) (clock_read w1) = (r, bs, w')"
        by (auto simp: unf)
      moreover have "length (got @ bs1) \<le> n" using conjunct1 [OF conjunct2 [OF i]] conjunct1 [OF True] by simp
      ultimately obtain new where
        "bs = got @ bs1 @ new" "incoming w1 = new @ incoming w'" "length bs \<le> n"
        "r = int (length bs) \<or> r = ERR_SSL_READ_FAILED"
        using "1.IH" [OF _ m [symmetric] refl _ False] True by auto
      with i show ?thesis by (intro exI [of _ "bs1 @ new"]) simp
    qed (use True "1.prems" m i in \<open>auto simp: unf\<close>)
  next
    case False
    with "1.prems" m i show ?thesis by (auto simp: unf split: if_splits)
  qed
qed

end
