(* ===== verification/Hal_Props.thy ===== *)
theory Hal_Props
  imports Hal_World
begin

text \<open>
  The properties of the platform loops: reads neither lose nor invent bytes, writes put a prefix
  of the buffer on the wire, timers count down, and the run in which \<open>HAL_TLS_Write\<close> reports
  more bytes than it sent.
\<close>

definition quiet_world :: world where
  "quiet_world = \<lparr>clock = 0, ticks = [], ssl_rx = [], ssl_tx = [], tls_up = [], mallocs = [],
     held = {}, handle = 1, wire = []\<rparr>"

text \<open>
  C30: \<open>HAL_TLS_Read\<close> always ends, stores at most the bytes asked for, and takes exactly the bytes
  it stores from the front of the incoming data; its result is their number, or the read error.
\<close>

theorem tls_read_takes_prefix:
  assumes "HAL_TLS_Read n timeout_ms w = (r, bs, w')"
  shows "length bs \<le> n \<and> incoming w = bs @ incoming w' \<and> (r = int (length bs) \<or> r = ERR_SSL_READ_FAILED)"
proof -
  obtain t w1 where c: "HAL_Timer_Countdown_ms timeout_ms w = (t, w1)" by (metis surj_pair)
  then have "incoming w1 = incoming w"
    using incoming_clock_read [of w]
    by (auto simp: HAL_Timer_Countdown_ms_def clock_read_def split_beta Let_def)
  moreover have "tls_read_loop t n [] w1 = (r, bs, w')"
    using assms c by (simp add: HAL_TLS_Read_def)
  ultimately show ?thesis using tls_read_loop_incoming [of t n "[]" w1 r bs w'] by auto
qed

theorem tls_read_takes_prefix_witness:
  "incoming (quiet_world\<lparr>ssl_rx := [SslData [1, 2, 3]]\<rparr>) = [1, 2] @ [3]"
proof -
  let ?w = "quiet_world\<lparr>ssl_rx := [SslData [1, 2, 3]]\<rparr>"
  obtain r bs w' where c: "HAL_TLS_Read 2 5 ?w = (r, bs, w')" by (metis surj_pair)
  have "fst (snd (HAL_TLS_Read 2 5 ?w)) = [1, 2]" "incoming (snd (snd (HAL_TLS_Read 2 5 ?w))) = [3]"
    by code_simp+
  with tls_read_takes_prefix [OF c] c show ?thesis by simp
qed

lemma ssl_write_wire:
  "mbedtls_ssl_write bs w = (rc, w') \<Longrightarrow>
   (rc > 0 \<longrightarrow> rc \<le> int (length bs) \<and> wire w' = wire w @ take (nat rc) bs) \<and> (rc \<le> 0 \<longrightarrow> wire w' = wire w)"
  by (auto simp: mbedtls_ssl_write_def min_def split: list.splits if_splits)

lemma wire_clock_read [simp]: "wire (clock_read w) = wire w"
  by (simp add: clock_read_def gettimeofday_def Let_def)

lemma tls_write_try_wire:
  "tls_write_try timer bs rc w = (r, w') \<Longrightarrow>
   (case r of None \<Rightarrow> wire w' = wire w
    | Some k \<Rightarrow> (0 < k \<and> k \<le> int (length bs) \<and> wire w' = wire w @ take (nat k) bs) \<or>
        (wire w' = wire w \<and> timer \<le> clock w'))"
proof (induction timer bs rc w rule: tls_write_try.induct)
  case (1 timer bs write_rc w)
  obtain rc w1 where m: "mbedtls_ssl_write bs (clock_read w) = (rc, w1)" by (metis surj_pair)
  note unf = tls_write_try.simps [of timer bs write_rc w]
  consider "timed_out timer w" | "\<not> timed_out timer w" "rc > 0"
    | "\<not> timed_out timer w" "\<not> rc > 0" "\<not> MBEDTLS_WANT rc"
    | "\<not> timed_out timer w" "\<not> rc > 0" "MBEDTLS_WANT rc" by blast
  then show ?case
  proof cases
    case 1
    with "1.prems" show ?thesis by (auto simp: unf timed_out_iff)
  next
    case 4
    then have "tls_write_try timer bs rc w1 = (r, w')" using "1.prems" m by (simp add: unf)
    from "1.IH" [OF 4(1) m [symmetric] 4(2,3) this] ssl_write_wire [OF m] 4(2)
    show ?thesis by (simp split: option.splits)
  qed (use "1.prems" m ssl_write_wire [OF m] in \<open>auto simp: unf\<close>)
qed

lemma tls_write_loop_late:
  assumes "timer \<le> clock w" shows "tls_write_loop timer buf n rc w = (r, w') \<Longrightarrow> wire w' = wire w \<and> timer \<le> clock w'"
  using assms clock_read_less [of w]
  by (auto simp: tls_write_loop.simps [of timer buf n rc w] timed_out_iff split: if_splits)

lemma tls_write_loop_wire:
  "tls_write_loop timer buf n rc w = (r, w') \<Longrightarrow> 0 \<le> n \<Longrightarrow> n \<le> int (length buf) \<Longrightarrow>
   wire w = base @ take (nat n) buf \<Longrightarrow>
   \<exists>k\<le>length buf. wire w' = base @ take k buf \<and>
     (r = int k \<or> r = ERR_SSL_WRITE_FAILED \<or> timer \<le> clock w')"
proof (induction timer buf n rc w rule: tls_write_loop.induct)
  case (1 timer buf n rc w)
  obtain r1 w1 where m: "tls_write_try timer (drop (nat n) buf) rc (clock_read w) = (r1, w1)"
    by (metis surj_pair)
  note t = tls_write_try_wire [OF m]
  note unf = tls_write_loop.simps [of timer buf n rc w]
  have n: "nat n \<le> length buf" "int (nat n) = n" using "1.prems" by auto
  show ?case
  proof (cases "n < int (length buf) \<and> \<not> timed_out timer w")
    case True
    show ?thesis
    proof (cases r1)
      case None
      with t True "1.prems" m n show ?thesis by (auto simp: unf intro!: exI [of _ "nat n"])
    next
      case (Some k)
      with True "1.prems"(1,2) m have l: "tls_write_loop timer buf (n + k) k w1 = (r, w')"
        by (simp add: unf)
      from t Some consider (sent) "0 < k" "k \<le> int (length buf) - n"
          "wire w1 = wire w @ take (nat k) (drop (nat n) buf)"
        | (late) "wire w1 = wire w" "timer \<le> clock w1"
        using n by fastforce
      then show ?thesis
      proof cases
        case sent
        have "wire w1 = base @ take (nat (n + k)) buf"
          using sent "1.prems"(2,4) by (simp add: nat_add_distrib take_add)
        with "1.IH" [OF _ _ m [symmetric] Some l] True sent "1.prems" show ?thesis by auto
      next
        case late
        with tls_write_loop_late [OF late(2) l] "1.prems"(4) n(1) show ?thesis by (auto intro!: exI [of _ "nat n"])
      qed
    qed
  next
    case False
    with "1.prems" n show ?thesis by (auto simp: unf split: if_splits intro!: exI [of _ "nat n"])
  qed
qed

text \<open>
  C31: \<open>HAL_TLS_Write\<close> always ends, and what it puts on the wire is a prefix of the buffer: nothing
  is sent twice or out of order.  The result is the length of that prefix or the write error,
  unless the timeout has passed.
\<close>

theorem tls_write_sends_prefix:
  assumes "HAL_TLS_Write buf timeout_ms w = (r, w')"
  shows "\<exists>k\<le>length buf. wire w' = wire w @ take k buf \<and>
     (r = int k \<or> r = ERR_SSL_WRITE_FAILED \<or> fst (HAL_Timer_Countdown_ms timeout_ms w) \<le> clock w')"
proof -
  obtain t w1 where c: "HAL_Timer_Countdown_ms timeout_ms w = (t, w1)" by (metis surj_pair)
  then have "wire w1 = wire w"
    using wire_clock_read [of w]
    by (auto simp: HAL_Timer_Countdown_ms_def clock_read_def split_beta Let_def)
  moreover have "tls_write_loop t buf 0 0 w1 = (r, w')" using assms c by (simp add: HAL_TLS_Write_def)
  ultimately show ?thesis using tls_write_loop_wire [of t buf 0 0 w1 r w' "wire w"] c by auto
qed

theorem tls_write_sends_prefix_witness:
  "\<exists>k\<le>length [1, 2, 3 :: byte]. wire (snd (HAL_TLS_Write [1, 2, 3] 1 quiet_world)) = take k [1, 2, 3]"
proof -
  obtain r w' where c: "HAL_TLS_Write [1, 2, 3] 1 quiet_world = (r, w')" by (metis surj_pair)
  have "wire quiet_world = []" by (simp add: quiet_world_def)
  then have e: "wire quiet_world @ bs = bs" for bs by simp
  from tls_write_sends_prefix [OF c] show ?thesis unfolding c snd_conv e by blast
qed

text \<open>
  The run that the exception is about: the first round sends one of two bytes, then the timer
  runs out between the two checks of the second round.  \<open>write_rc\<close> still holds the 1 of the first
  round and is added again: the caller is told that both bytes went out.
\<close>

lemma tls_write_counts_twice:
  "case HAL_TLS_Write [0xAA, 0xBB] 1 (quiet_world\<lparr>ssl_tx := [1], ticks := [0, 0, 0, 0, 2000]\<rparr>) of
     (r, w') \<Rightarrow> r = 2 \<and> wire w' = [0xAA]"
  by code_simp

end
