(* ===== verification/Mqtt_Client.thy ===== *)
theory Mqtt_Client
  imports Mqtt_Codec Mqtt_Topic Hal_World Utils_List
begin

text \<open>
  The state of an MQTT client (\<^verbatim>\<open>src/mqtt/include/mqtt_client.h\<close>) and the operations on it
  that do no input or output: packet identifiers, the lists of requests that wait for an
  acknowledgement, the connection state, the subscription handles and the buffer of the
  packet identifiers seen last.

  \<^item> A client extends the platform state \<open>world\<close>, so that one state is passed through.
  \<^item> The wait lists are the contents of the linked lists of \<^verbatim>\<open>utils_list.c\<close>: pairs of node
    address and value from head to tail, as \<open>nodes\<close> of the theory \<open>Utils_List\<close> reads them off
    the pointers.  Appending and unlinking have the laws of \<open>pending_list\<close> in both.
  \<^item> A stored topic filter is a heap copy: the address and the characters, which are never
    changed.  \<open>live\<close> holds the addresses that are allocated; reading a filter that is not live,
    or freeing it, has no result.
  \<^item> User callbacks are recorded in \<open>events\<close>, each with the mutexes that are held while it runs.
\<close>

subsection \<open>Data\<close>

abbreviation (input) MAX_PACKET_ID :: "16 word" where "MAX_PACKET_ID \<equiv> 65535"
abbreviation (input) MAX_SUB_TOPICS :: nat where "MAX_SUB_TOPICS \<equiv> 10"
abbreviation (input) MAX_REPUB_NUM :: nat where "MAX_REPUB_NUM \<equiv> 20"
abbreviation (input) MIN_RECONNECT_WAIT_INTERVAL :: nat where "MIN_RECONNECT_WAIT_INTERVAL \<equiv> 1000"
abbreviation (input) MAX_RECONNECT_WAIT_INTERVAL :: nat where "MAX_RECONNECT_WAIT_INTERVAL \<equiv> 60000"
abbreviation (input) MIN_COMMAND_TIMEOUT :: nat where "MIN_COMMAND_TIMEOUT \<equiv> 500"
abbreviation (input) MAX_COMMAND_TIMEOUT :: nat where "MAX_COMMAND_TIMEOUT \<equiv> 5000"
abbreviation (input) MAX_SIZE_OF_CLOUD_TOPIC :: nat where "MAX_SIZE_OF_CLOUD_TOPIC \<equiv> 128"
abbreviation (input) UIOT_MQTT_MAX_REMAIN_WAIT_MS :: int where "UIOT_MQTT_MAX_REMAIN_WAIT_MS \<equiv> 2000"
abbreviation (input) MQTT_PING_RETRY_TIMES :: nat where "MQTT_PING_RETRY_TIMES \<equiv> 2"
abbreviation (input) MQTT_MAX_REPEAT_BUF_LEN :: nat where "MQTT_MAX_REPEAT_BUF_LEN \<equiv> 50"

record SubTopicHandle =
  topic_filter :: "(nat \<times> bytes) option"
  message_handler :: "nat option"
  message_handler_data :: nat
  sub_qos :: QoS

definition no_handle :: SubTopicHandle where
  "no_handle = \<lparr>topic_filter = None, message_handler = None, message_handler_data = 0, sub_qos = 0\<rparr>"

datatype MQTTNodeState = MQTT_NODE_STATE_NORMAL | MQTT_NODE_STATE_INVALID

record UIoTPubInfo =
  pub_start_time :: Timer
  pub_node_state :: MQTTNodeState
  pub_msg_id :: "16 word"
  pub_buf :: bytes

record UIoTSubInfo =
  sub_type :: MessageTypes
  sub_msg_id :: "16 word"
  sub_start_time :: Timer
  sub_node_state :: MQTTNodeState
  sub_handler :: SubTopicHandle
  sub_buf :: bytes

text \<open>A delivered message: the topic array and its length, the payload as a place in \<open>read_buf\<close>.\<close>

record MQTTMessage =
  msg_qos :: QoS
  msg_retained :: byte
  msg_dup :: byte
  msg_id :: "16 word option"
  msg_topic :: bytes
  msg_topic_len :: nat
  msg_payload :: nat
  msg_payload_len :: "64 word"

datatype event =
    MQTT_EVENT_DISCONNECT | MQTT_EVENT_RECONNECT
  | MQTT_EVENT_SUBSCRIBE_SUCCESS "16 word" | MQTT_EVENT_SUBSCRIBE_TIMEOUT "16 word"
  | MQTT_EVENT_SUBSCRIBE_NACK "16 word"
  | MQTT_EVENT_UNSUBSCRIBE_SUCCESS "16 word" | MQTT_EVENT_UNSUBSCRIBE_TIMEOUT "16 word"
  | MQTT_EVENT_PUBLISH_SUCCESS "16 word" | MQTT_EVENT_PUBLISH_TIMEOUT "16 word"
  | MQTT_EVENT_PUBLISH_RECEIVED MQTTMessage
  | MESSAGE_HANDLER nat nat MQTTMessage

record UIoT_Client = world +
  is_connected :: bool
  was_manually_disconnected :: bool
  is_ping_outstanding :: nat
  next_packet_id :: "16 word"
  command_timeout_ms :: nat
  current_reconnect_wait_interval :: nat
  counter_network_disconnected :: nat
  write_buf_size :: nat
  read_buf_size :: nat
  write_buf :: bytes
  read_buf :: bytes
  list_pub_wait_ack :: "(nat \<times> UIoTPubInfo) list"
  list_sub_wait_ack :: "(nat \<times> UIoTSubInfo) list"
  event_handler :: bool
  options :: MQTTConnectParams
  ping_timer :: Timer
  reconnect_delay_timer :: Timer
  sub_handles :: "SubTopicHandle list"
  check_repeat_msg :: bool
  sg_repeat_packet_id_buf :: "16 word list"
  current_packet_id_cnt :: nat
  live :: "nat set"
  next_addr :: nat
  events :: "(event \<times> lock set) list"

definition emit :: "event \<Rightarrow> UIoT_Client \<Rightarrow> UIoT_Client" where
  "emit e c = c\<lparr>events := events c @ [(e, held c)]\<rparr>"

text \<open>\<open>if (NULL != pClient->event_handler.h_fp) ...\<close>\<close>

definition call_event_handler :: "event \<Rightarrow> UIoT_Client \<Rightarrow> UIoT_Client" where
  "call_event_handler e c = (if event_handler c then emit e c else c)"

subsection \<open>The heap of topic filters\<close>

definition store_filter :: "bytes \<Rightarrow> UIoT_Client \<Rightarrow> (nat \<times> bytes) option \<times> UIoT_Client" where
  "store_filter s c =
     (let (ok, c) = HAL_Malloc c
      in if ok then (Some (next_addr c, s), c\<lparr>live := insert (next_addr c) (live c), next_addr := Suc (next_addr c)\<rparr>)
        else (None, c))"

definition free_filter :: "(nat \<times> bytes) option \<Rightarrow> UIoT_Client \<Rightarrow> UIoT_Client option" where
  "free_filter p c =
     (case p of None \<Rightarrow> Some c
      | Some (a, _) \<Rightarrow> if a \<in> live c then Some (c\<lparr>live := live c - {a}\<rparr>) else None)"

definition read_filter :: "(nat \<times> bytes) \<Rightarrow> UIoT_Client \<Rightarrow> bytes option" where
  "read_filter p c = (if fst p \<in> live c then Some (snd p) else None)"

subsection \<open>Handles, identifiers, connection state\<close>

definition check_handle_is_identical ::
  "SubTopicHandle \<Rightarrow> SubTopicHandle \<Rightarrow> UIoT_Client \<Rightarrow> int option" where
  "check_handle_is_identical h1 h2 c = do {
     p1 \<leftarrow> topic_filter h1; f1 \<leftarrow> read_filter p1 c;
     p2 \<leftarrow> topic_filter h2; f2 \<leftarrow> read_filter p2 c;
     Some (if length f1 \<noteq> length f2 then 1
           else if take (length f1) f1 \<noteq> take (length f1) f2 then 1
           else if message_handler h1 \<noteq> message_handler h2 then 1 else 0) }"

definition get_next_packet_id :: "UIoT_Client \<Rightarrow> (16 word \<times> UIoT_Client) option" where
  "get_next_packet_id c = do {
     c \<leftarrow> HAL_MutexLock lock_generic c;
     let c = c\<lparr>next_packet_id := (if MAX_PACKET_ID = next_packet_id c then 1 else next_packet_id c + 1)\<rparr>;
     c \<leftarrow> HAL_MutexUnlock lock_generic c;
     Some (next_packet_id c, c) }"

definition set_client_conn_state :: "bool \<Rightarrow> UIoT_Client \<Rightarrow> UIoT_Client option" where
  "set_client_conn_state connected c = do {
     c \<leftarrow> HAL_MutexLock lock_generic c;
     HAL_MutexUnlock lock_generic (c\<lparr>is_connected := connected\<rparr>) }"

definition get_client_conn_state :: "UIoT_Client \<Rightarrow> (bool \<times> UIoT_Client) option" where
  "get_client_conn_state c = do {
     c \<leftarrow> HAL_MutexLock lock_generic c;
     let connected = is_connected c;
     c \<leftarrow> HAL_MutexUnlock lock_generic c;
     Some (connected, c) }"

subsection \<open>The wait lists\<close>

definition wl_push :: "(nat \<times> 'v) list \<Rightarrow> nat \<Rightarrow> 'v \<Rightarrow> (nat \<times> 'v) list option" where
  "wl_push l a v = Some (l @ [(a, v)])"

definition wl_remove :: "(nat \<times> 'v) list \<Rightarrow> nat \<Rightarrow> (nat \<times> 'v) list option" where
  "wl_remove l a = (if a \<in> fst ` set l then Some (filter (\<lambda>n. fst n \<noteq> a) l) else None)"

interpretation wait_list: pending_list "\<lambda>l. distinct (map fst l)" "\<lambda>l. l" wl_push wl_remove
proof
  fix l :: "(nat \<times> 'v) list" and a and v
  assume "distinct (map fst l)" "a \<notin> fst ` set l"
  then show "\<exists>l'. wl_push l a v = Some l' \<and> distinct (map fst l') \<and> l' = l @ [(a, v)]"
    by (simp add: wl_push_def)
next
  fix l :: "(nat \<times> 'v) list" and a
  assume "distinct (map fst l)" "a \<in> fst ` set l"
  then show "\<exists>l'. wl_remove l a = Some l' \<and> distinct (map fst l') \<and> l' = filter (\<lambda>n. fst n \<noteq> a) l"
    by (simp add: wl_remove_def distinct_map_filter)
qed

text \<open>
  \<open>_mask_push_pubInfo_to\<close>: on success the address of the new node.  The copy \<open>memcpy\<close> reads
  \<open>n\<close> bytes of the write buffer.
\<close>

definition mask_push_pubInfo_to ::
  "nat \<Rightarrow> 16 word \<Rightarrow> UIoT_Client \<Rightarrow> ((int \<times> nat option) \<times> UIoT_Client) option" where
  "mask_push_pubInfo_to n msgId c =
     (if n > write_buf_size c then Some ((FAILURE_RET, None), c)
      else do {
        c \<leftarrow> HAL_MutexLock lock_list_pub c;
        if length (list_pub_wait_ack c) \<ge> MAX_REPUB_NUM then do {
          c \<leftarrow> HAL_MutexUnlock lock_list_pub c; Some ((FAILURE_RET, None), c) }
        else do {
          let (ok, c) = HAL_Malloc c;
          if \<not> ok then do { c \<leftarrow> HAL_MutexUnlock lock_list_pub c; Some ((FAILURE_RET, None), c) }
          else do {
            let (t, c) = countdown_ms (command_timeout_ms c) c;
            buf \<leftarrow> get_bytes (write_buf c) 0 n;
            let (ok, c) = HAL_Malloc c;
            if \<not> ok then do { c \<leftarrow> HAL_MutexUnlock lock_list_pub c; Some ((FAILURE_RET, None), c) }
            else do {
              let info = \<lparr>pub_start_time = t, pub_node_state = MQTT_NODE_STATE_NORMAL,
                          pub_msg_id = msgId, pub_buf = buf\<rparr>;
              let a = next_addr c;
              l \<leftarrow> wl_push (list_pub_wait_ack c) a info;
              let c = c\<lparr>list_pub_wait_ack := l, next_addr := Suc a\<rparr>;
              c \<leftarrow> HAL_MutexUnlock lock_list_pub c;
              Some ((SUCCESS_RET, Some a), c) } } } })"

definition push_sub_info_to ::
  "nat \<Rightarrow> 16 word \<Rightarrow> MessageTypes \<Rightarrow> SubTopicHandle \<Rightarrow> UIoT_Client \<Rightarrow>
   ((int \<times> nat option) \<times> UIoT_Client) option" where
  "push_sub_info_to n msgId type handler c = do {
     c \<leftarrow> HAL_MutexLock lock_list_sub c;
     if length (list_sub_wait_ack c) \<ge> MAX_SUB_TOPICS then do {
       c \<leftarrow> HAL_MutexUnlock lock_list_sub c; Some ((ERR_MQTT_MAX_SUBSCRIPTIONS_REACHED, None), c) }
     else do {
       let (ok, c) = HAL_Malloc c;
       if \<not> ok then do { c \<leftarrow> HAL_MutexUnlock lock_list_sub c; Some ((FAILURE_RET, None), c) }
       else do {
         let (t, c) = countdown_ms (command_timeout_ms c) c;
         buf \<leftarrow> get_bytes (write_buf c) 0 n;
         let (ok, c) = HAL_Malloc c;
         if \<not> ok then do { c \<leftarrow> HAL_MutexUnlock lock_list_sub c; Some ((FAILURE_RET, None), c) }
         else do {
           let info = \<lparr>sub_type = type, sub_msg_id = msgId, sub_start_time = t,
                       sub_node_state = MQTT_NODE_STATE_NORMAL, sub_handler = handler, sub_buf = buf\<rparr>;
           let a = next_addr c;
           l \<leftarrow> wl_push (list_sub_wait_ack c) a info;
           let c = c\<lparr>list_sub_wait_ack := l, next_addr := Suc a\<rparr>;
           c \<leftarrow> HAL_MutexUnlock lock_list_sub c;
           Some ((SUCCESS_RET, Some a), c) } } } }"

text \<open>
  The loops of \<open>_mask_pubInfo_from\<close> and \<open>_mask_sub_info_from\<close> run from the tail to the head;
  the second hands back the handle it meets last.
\<close>

definition mask_pub_node :: "16 word \<Rightarrow> nat \<times> UIoTPubInfo \<Rightarrow> nat \<times> UIoTPubInfo" where
  "mask_pub_node msgId n =
     (if pub_msg_id (snd n) = msgId then (fst n, (snd n)\<lparr>pub_node_state := MQTT_NODE_STATE_INVALID\<rparr>)
      else n)"

definition mask_pubInfo_from :: "16 word \<Rightarrow> UIoT_Client \<Rightarrow> (int \<times> UIoT_Client) option" where
  "mask_pubInfo_from msgId c = do {
     c \<leftarrow> HAL_MutexLock lock_list_pub c;
     if length (list_pub_wait_ack c) \<noteq> 0 then do {
       let (ok, c) = HAL_Malloc c;
       if \<not> ok then do { c \<leftarrow> HAL_MutexUnlock lock_list_pub c; Some (SUCCESS_RET, c) }
       else do {
         let c = c\<lparr>list_pub_wait_ack := map (mask_pub_node msgId) (list_pub_wait_ack c)\<rparr>;
         c \<leftarrow> HAL_MutexUnlock lock_list_pub c; Some (SUCCESS_RET, c) } }
     else do { c \<leftarrow> HAL_MutexUnlock lock_list_pub c; Some (SUCCESS_RET, c) } }"

definition mask_sub_node :: "16 word \<Rightarrow> nat \<times> UIoTSubInfo \<Rightarrow> nat \<times> UIoTSubInfo" where
  "mask_sub_node msgId n =
     (if sub_msg_id (snd n) = msgId then (fst n, (snd n)\<lparr>sub_node_state := MQTT_NODE_STATE_INVALID\<rparr>)
      else n)"

fun last_handler :: "16 word \<Rightarrow> (nat \<times> UIoTSubInfo) list \<Rightarrow> SubTopicHandle option \<Rightarrow>
  SubTopicHandle option" where
  "last_handler msgId [] messageHandler = messageHandler"
| "last_handler msgId (n # ns) messageHandler =
     last_handler msgId ns (if sub_msg_id (snd n) = msgId then Some (sub_handler (snd n)) else messageHandler)"

text \<open>
  The result is the handle written to \<open>*messageHandler\<close>; \<open>None\<close> when nothing is written.
\<close>

definition mask_sub_info_from ::
  "16 word \<Rightarrow> UIoT_Client \<Rightarrow> (SubTopicHandle option \<times> UIoT_Client) option" where
  "mask_sub_info_from msgId c = do {
     c \<leftarrow> HAL_MutexLock lock_list_sub c;
     if length (list_sub_wait_ack c) \<noteq> 0 then do {
       let (ok, c) = HAL_Malloc c;
       if \<not> ok then do { c \<leftarrow> HAL_MutexUnlock lock_list_sub c; Some (None, c) }
       else do {
         let h = last_handler msgId (rev (list_sub_wait_ack c)) None;
         let c = c\<lparr>list_sub_wait_ack := map (mask_sub_node msgId) (list_sub_wait_ack c)\<rparr>;
         c \<leftarrow> HAL_MutexUnlock lock_list_sub c; Some (h, c) } }
     else do { c \<leftarrow> HAL_MutexUnlock lock_list_sub c; Some (None, c) } }"

text \<open>
  \<open>list_remove\<close> under its lock, as the error paths of publish, subscribe and unsubscribe do it.
\<close>

definition remove_pub_node :: "nat \<Rightarrow> UIoT_Client \<Rightarrow> UIoT_Client option" where
  "remove_pub_node a c = do {
     c \<leftarrow> HAL_MutexLock lock_list_pub c;
     l \<leftarrow> wl_remove (list_pub_wait_ack c) a;
     HAL_MutexUnlock lock_list_pub (c\<lparr>list_pub_wait_ack := l\<rparr>) }"

definition remove_sub_node :: "nat \<Rightarrow> UIoT_Client \<Rightarrow> UIoT_Client option" where
  "remove_sub_node a c = do {
     c \<leftarrow> HAL_MutexLock lock_list_sub c;
     l \<leftarrow> wl_remove (list_sub_wait_ack c) a;
     HAL_MutexUnlock lock_list_sub (c\<lparr>list_sub_wait_ack := l\<rparr>) }"

subsection \<open>Packet identifiers seen before\<close>

fun find_packet_id :: "16 word \<Rightarrow> 16 word list \<Rightarrow> int" where
  "find_packet_id packet_id [] = -1"
| "find_packet_id packet_id (p # ps) =
     (if packet_id = p then int (unat packet_id) else find_packet_id packet_id ps)"

definition get_packet_id_in_repeat_buf :: "16 word \<Rightarrow> UIoT_Client \<Rightarrow> int" where
  "get_packet_id_in_repeat_buf packet_id c = find_packet_id packet_id (sg_repeat_packet_id_buf c)"

definition add_packet_id_to_repeat_buf :: "16 word \<Rightarrow> UIoT_Client \<Rightarrow> UIoT_Client option" where
  "add_packet_id_to_repeat_buf packet_id c =
     (if get_packet_id_in_repeat_buf packet_id c > 0 then Some c
      else do {
        buf \<leftarrow> arr_set (sg_repeat_packet_id_buf c) (current_packet_id_cnt c) packet_id;
        let cnt = current_packet_id_cnt c + 1;
        Some (c\<lparr>sg_repeat_packet_id_buf := buf,
                current_packet_id_cnt := (if cnt \<ge> MQTT_MAX_REPEAT_BUF_LEN then cnt mod 50 else cnt)\<rparr>) })"

definition reset_repeat_packet_id_buffer :: "UIoT_Client \<Rightarrow> UIoT_Client" where
  "reset_repeat_packet_id_buffer c =
     c\<lparr>sg_repeat_packet_id_buf := replicate MQTT_MAX_REPEAT_BUF_LEN 0\<rparr>"

end
