(* ===== verification/Mqtt_IO.thy ===== *)
theory Mqtt_IO
  imports Mqtt_Client
begin

text \<open>
  Sending and receiving packets: \<open>send_mqtt_packet\<close>,
  \<open>_decode_packet_rem_len_with_net_read\<close> and \<open>_read_mqtt_packet\<close> of
  \<^verbatim>\<open>src/mqtt/src/mqtt_client_common.c\<close>.  Loops that look at a timer terminate because every
  look takes time.
\<close>

subsection \<open>Sending\<close>

text \<open>
  The loop of \<open>send_mqtt_packet\<close>.  The call always passes \<open>length\<close>, also when a part of the
  packet has been sent; a range that leaves \<open>write_buf\<close> has no result.
\<close>

function send_loop :: "Timer \<Rightarrow> nat \<Rightarrow> nat \<Rightarrow> UIoT_Client \<Rightarrow> (nat \<times> UIoT_Client) option" where
  "send_loop timer n sent c =
     (if sent < n then do {
        let (expired, c1) = has_expired timer c;
        if expired then Some (sent, c1)
        else do {
          let (ms, c2) = left_ms timer c1;
          chunk \<leftarrow> get_bytes (write_buf c2) sent n;
          (send_len, c3) \<leftarrow> utils_net_write chunk (uint32_of_int ms) c2;
          if send_len < 0 then Some (sent, c3)
          else send_loop timer n (sent + nat send_len) c3 } }
      else Some (sent, c))"
  by pat_completeness auto
termination
proof (relation "measure (\<lambda>(timer, n, sent, c). timer - clock c)", simp, clarsimp)
  fix timer n sent ms chunk send_len and c c1 c2 c3 :: UIoT_Client
  assume e: "(False, c1) = has_expired timer c" and m: "(ms, c2) = left_ms timer c1"
    and w: "utils_net_write chunk (uint32_of_int ms) c2 = Some (send_len, c3)"
  have "clock c < clock c1" "\<not> timer \<le> clock c1" using env_has_expired [OF e [symmetric]] by auto
  moreover have "clock c1 \<le> clock c2" using env_left_ms [OF m [symmetric]] by (simp add: env_def)
  moreover have "clock c2 \<le> clock c3" using env_net_write [OF w] by (simp add: env_def)
  ultimately show "timer - clock c3 < timer - clock c" by linarith
qed

declare send_loop.simps [simp del]

definition send_mqtt_packet :: "nat \<Rightarrow> Timer \<Rightarrow> UIoT_Client \<Rightarrow> (int \<times> UIoT_Client) option" where
  "send_mqtt_packet n timer c =
     (if n \<ge> write_buf_size c then Some (ERR_MQTT_BUFFER_TOO_SHORT, c)
      else do {
        (sent, c) \<leftarrow> send_loop timer n 0 c;
        Some (if sent = n then SUCCESS_RET else FAILURE_RET, c) })"

subsection \<open>Receiving\<close>

text \<open>A network read into \<open>read_buf + pos\<close>; the bytes that arrive are stored whatever the result.\<close>

definition net_read ::
  "nat \<Rightarrow> nat \<Rightarrow> int \<Rightarrow> UIoT_Client \<Rightarrow> (int \<times> UIoT_Client) option" where
  "net_read pos n timeout c =
     (if pos + n > length (read_buf c) then None
      else do {
        (ret, bs, c) \<leftarrow> utils_net_read n (uint32_of_int timeout) c;
        (buf, _) \<leftarrow> put_bytes (read_buf c, pos) bs;
        Some (ret, c\<lparr>read_buf := buf\<rparr>) })"

text \<open>\<open>_decode_packet_rem_len_with_net_read\<close>: the return value and \<open>*value\<close>.\<close>

function decode_rem_len_net ::
  "int \<Rightarrow> nat \<Rightarrow> nat \<Rightarrow> nat \<Rightarrow> UIoT_Client \<Rightarrow> ((int \<times> nat) \<times> UIoT_Client) option" where
  "decode_rem_len_net timeout multiplier n v c =
     (let n' = n + 1
      in if n' > MAX_NO_OF_REMAINING_LENGTH_BYTES then Some ((ERR_MQTT_PACKET_READ_ERROR, v), c)
         else do {
           (ret, bs, c1) \<leftarrow> utils_net_read 1 (uint32_of_int timeout) c;
           if ret \<le> 0 then Some ((FAILURE_RET, v), c1)
           else do {
             i \<leftarrow> arr_get bs 0;
             let v' = v + unat (i AND 127) * multiplier;
             if i AND 128 \<noteq> 0 then decode_rem_len_net timeout (multiplier * 128) n' v' c1
             else Some ((SUCCESS_RET, v'), c1) } })"
  by pat_completeness auto
termination
  by (relation "measure (\<lambda>(timeout, multiplier, n, v, c). 4 - n)") auto

declare decode_rem_len_net.simps [simp del]

text \<open>\<open>timer_left_ms = left_ms(timer); if (timer_left_ms <= 0) timer_left_ms = 1;\<close>\<close>

definition timer_left :: "Timer \<Rightarrow> UIoT_Client \<Rightarrow> int \<times> UIoT_Client" where
  "timer_left timer c = (let (ms, c) = left_ms timer c in (if ms \<le> 0 then 1 else ms, c))"

text \<open>
  The loop that drops a packet too large for the buffer; \<open>got\<close> is \<open>total_bytes_read\<close>.
\<close>

function drop_loop ::
  "int \<Rightarrow> nat \<Rightarrow> nat \<Rightarrow> nat \<Rightarrow> UIoT_Client \<Rightarrow> (unit \<times> UIoT_Client) option" where
  "drop_loop timeout rem_len bytes_to_be_read got c = do {
     (read_len, c1) \<leftarrow> net_read 0 bytes_to_be_read timeout c;
     if read_len > 0 then do {
       let got' = got + nat read_len;
       let next_read = (if rem_len - got' \<ge> read_buf_size c1 then read_buf_size c1 else rem_len - got');
       if got' < rem_len then drop_loop timeout rem_len next_read got' c1 else Some ((), c1) }
     else Some ((), c1) }"
  by pat_completeness auto
termination
  by (relation "measure (\<lambda>(timeout, rem_len, b, got, c). rem_len - got)") auto

declare drop_loop.simps [simp del]

definition read_mqtt_packet ::
  "Timer \<Rightarrow> byte \<Rightarrow> UIoT_Client \<Rightarrow> ((int \<times> byte) \<times> UIoT_Client) option" where
  "read_mqtt_packet timer packet_type c = do {
     let (timer_left_ms, c) = timer_left timer c;
     (read_len, c) \<leftarrow> net_read 0 1 timer_left_ms c;
     if read_len < 0 then Some ((read_len, packet_type), c)
     else if read_len = 0 then Some ((ERR_MQTT_NOTHING_TO_READ, packet_type), c)
     else do {
       let (timer_left_ms, c) = timer_left timer c;
       ((ret, rem_len), c) \<leftarrow>
         decode_rem_len_net (timer_left_ms + UIOT_MQTT_MAX_REMAIN_WAIT_MS) 1 0 0 c;
       if ret \<noteq> SUCCESS_RET then Some ((ret, packet_type), c)
       else if rem_len \<ge> read_buf_size c then do {
         let (timer_left_ms, c) = timer_left timer c;
         (_, c) \<leftarrow> drop_loop (timer_left_ms + UIOT_MQTT_MAX_REMAIN_WAIT_MS) rem_len (read_buf_size c) 0 c;
         Some ((ERR_MQTT_BUFFER_TOO_SHORT, packet_type), c) }
       else do {
         (buf, hdr_len) \<leftarrow> mqtt_write_packet_rem_len (read_buf c, 1) rem_len;
         let c = c\<lparr>read_buf := buf\<rparr>;
         if rem_len > 0 \<and> hdr_len + rem_len > read_buf_size c then do {
           let (timer_left_ms, c) = timer_left timer c;
           (_, c) \<leftarrow> net_read 0 rem_len (timer_left_ms + UIOT_MQTT_MAX_REMAIN_WAIT_MS) c;
           Some ((ERR_MQTT_BUFFER_TOO_SHORT, packet_type), c) }
         else do {
           (read_len, c) \<leftarrow>
             (if rem_len > 0 then do {
                let (timer_left_ms, c) = timer_left timer c;
                net_read hdr_len rem_len (timer_left_ms + UIOT_MQTT_MAX_REMAIN_WAIT_MS) c }
              else Some (1, c));
           if read_len < 0 then Some ((read_len, packet_type), c)
           else if read_len = 0 then Some ((ERR_MQTT_NOTHING_TO_READ, packet_type), c)
           else do {
             header \<leftarrow> arr_get (read_buf c) 0;
             Some ((SUCCESS_RET, header_type header), c) } } } } }"

end
