(* ===== verification/Mqtt_Dispatch.thy ===== *)
theory Mqtt_Dispatch
  imports Mqtt_IO
begin

text \<open>
  What the client does with a packet that has arrived: the handlers of
  \<^verbatim>\<open>src/mqtt/src/mqtt_client_common.c\<close>, the dispatcher \<open>cycle_for_read\<close> and the wait for a
  packet type, \<open>wait_for_read\<close>.
\<close>

subsection \<open>Delivering a message\<close>

text \<open>
  The loop of \<open>_deliver_message\<close> over the handles from \<open>i\<close> on; \<open>lock_generic\<close> is held at its
  start.  \<open>True\<close> means that a handler has been called and the lock is free.  \<open>strlen\<close> of the
  topic array needs a terminator inside the array.
\<close>

function deliver_loop ::
  "nat \<Rightarrow> bytes \<Rightarrow> nat \<Rightarrow> MQTTMessage \<Rightarrow> UIoT_Client \<Rightarrow> (bool \<times> UIoT_Client) option" where
  "deliver_loop i topicName topicNameLen message c =
     (if i < MAX_SUB_TOPICS then do {
        h \<leftarrow> arr_get (sub_handles c) i;
        matched \<leftarrow>
          (case topic_filter h of
             None \<Rightarrow> Some False
           | Some p \<Rightarrow> do {
               tf \<leftarrow> read_filter p c;
               name \<leftarrow> cstr_of_array topicName;
               if is_topic_equals name tf then Some True
               else is_topic_matched tf topicName topicNameLen });
        if matched then do {
          c \<leftarrow> HAL_MutexUnlock lock_generic c;
          case message_handler h of
            Some f \<Rightarrow> Some (True, emit (MESSAGE_HANDLER f (message_handler_data h) message) c)
          | None \<Rightarrow> do {
              c \<leftarrow> HAL_MutexLock lock_generic c;
              deliver_loop (i + 1) topicName topicNameLen message c } }
        else deliver_loop (i + 1) topicName topicNameLen message c }
      else Some (False, c))"
  by pat_completeness auto
termination by (relation "measure (\<lambda>(i, _). 10 - i)") auto

declare deliver_loop.simps [simp del]

definition deliver_message ::
  "bytes \<Rightarrow> nat \<Rightarrow> MQTTMessage \<Rightarrow> UIoT_Client \<Rightarrow> (int \<times> UIoT_Client) option" where
  "deliver_message topicName topicNameLen message0 c = do {
     let message = message0\<lparr>msg_topic := topicName, msg_topic_len := topicNameLen\<rparr>;
     c \<leftarrow> HAL_MutexLock lock_generic c;
     (delivered, c) \<leftarrow> deliver_loop 0 topicName topicNameLen message c;
     if delivered then Some (SUCCESS_RET, c)
     else do {
       c \<leftarrow> HAL_MutexUnlock lock_generic c;
       Some (SUCCESS_RET, call_event_handler (MQTT_EVENT_PUBLISH_RECEIVED message) c) } }"

subsection \<open>Acknowledgements\<close>

definition handle_puback_packet :: "UIoT_Client \<Rightarrow> (int \<times> UIoT_Client) option" where
  "handle_puback_packet c = do {
     r \<leftarrow> deserialize_ack_packet (read_buf c) (read_buf_size c);
     case r of
       Inl ret \<Rightarrow> Some (ret, c)
     | Inr (type, dup, packet_id) \<Rightarrow> do {
         (_, c) \<leftarrow> mask_pubInfo_from packet_id c;
         Some (SUCCESS_RET, call_event_handler (MQTT_EVENT_PUBLISH_SUCCESS packet_id) c) } }"

text \<open>
  The loop of \<open>_handle_suback_packet\<close> over the handles: whether an identical one exists, and the
  first free index.
\<close>

function suback_scan ::
  "nat \<Rightarrow> nat option \<Rightarrow> SubTopicHandle \<Rightarrow> UIoT_Client \<Rightarrow> (bool \<times> nat option) option" where
  "suback_scan i i_free sub_handle c =
     (if i < MAX_SUB_TOPICS then do {
        h \<leftarrow> arr_get (sub_handles c) i;
        if topic_filter h \<noteq> None then do {
          r \<leftarrow> check_handle_is_identical h sub_handle c;
          if r = 0 then Some (True, i_free) else suback_scan (i + 1) i_free sub_handle c }
        else suback_scan (i + 1) (if i_free = None then Some i else i_free) sub_handle c }
      else Some (False, i_free))"
  by pat_completeness auto
termination by (relation "measure (\<lambda>(i, _). 10 - i)") auto

declare suback_scan.simps [simp del]

definition handle_suback_packet :: "UIoT_Client \<Rightarrow> (int \<times> UIoT_Client) option" where
  "handle_suback_packet c = do {
     r \<leftarrow> deserialize_suback_packet 3 1 (read_buf c) (read_buf_size c);
     case r of
       Inl ret \<Rightarrow> Some (ret, c)
     | Inr (packet_id, grantedQoS) \<Rightarrow> do {
         let sub_nack = (\<exists>q \<in> set grantedQoS. q mod 256 = 0x80);
         c \<leftarrow> HAL_MutexLock lock_generic c;
         (mh, c) \<leftarrow> mask_sub_info_from packet_id c;
         let sub_handle = (case mh of None \<Rightarrow> no_handle | Some h \<Rightarrow> h);
         if topic_filter sub_handle = None then do {
           c \<leftarrow> HAL_MutexUnlock lock_generic c; Some (ERR_MQTT_SUB_FAILED, c) }
         else if sub_nack then do {
           let c = call_event_handler (MQTT_EVENT_SUBSCRIBE_NACK packet_id) c;
           c \<leftarrow> free_filter (topic_filter sub_handle) c;
           c \<leftarrow> HAL_MutexUnlock lock_generic c; Some (ERR_MQTT_SUB_FAILED, c) }
         else do {
           (flag_dup, i_free) \<leftarrow> suback_scan 0 None sub_handle c;
           if flag_dup then do {
             c \<leftarrow> free_filter (topic_filter sub_handle) c;
             c \<leftarrow> HAL_MutexUnlock lock_generic c;
             Some (SUCCESS_RET, call_event_handler (MQTT_EVENT_SUBSCRIBE_SUCCESS packet_id) c) }
           else case i_free of
             None \<Rightarrow> do { c \<leftarrow> HAL_MutexUnlock lock_generic c; Some (FAILURE_RET, c) }
           | Some i \<Rightarrow> do {
               let c = c\<lparr>sub_handles := (sub_handles c)[i := sub_handle]\<rparr>;
               c \<leftarrow> HAL_MutexUnlock lock_generic c;
               Some (SUCCESS_RET, call_event_handler (MQTT_EVENT_SUBSCRIBE_SUCCESS packet_id) c) } } } }"

text \<open>
  \<open>messageHandler\<close> is a local variable without initialiser; when no request has the packet
  identifier it is read uninitialised, which has no result.
\<close>

definition handle_unsuback_packet :: "UIoT_Client \<Rightarrow> (int \<times> UIoT_Client) option" where
  "handle_unsuback_packet c = do {
     r \<leftarrow> deserialize_unsuback_packet (read_buf c) (read_buf_size c);
     case r of
       Inl ret \<Rightarrow> Some (ret, c)
     | Inr packet_id \<Rightarrow> do {
         (mh, c) \<leftarrow> mask_sub_info_from packet_id c;
         c \<leftarrow> HAL_MutexLock lock_generic c;
         messageHandler \<leftarrow> mh;
         c \<leftarrow> free_filter (topic_filter messageHandler) c;
         let c = call_event_handler (MQTT_EVENT_UNSUBSCRIBE_SUCCESS packet_id) c;
         c \<leftarrow> HAL_MutexUnlock lock_generic c;
         Some (SUCCESS_RET, c) } }"

subsection \<open>PUBLISH, PUBREC and PINGRESP\<close>

text \<open>Building an acknowledgement in the write buffer and sending it, under \<open>lock_write_buf\<close>.\<close>

definition send_ack :: "MessageTypes \<Rightarrow> 16 word \<Rightarrow> Timer \<Rightarrow> UIoT_Client \<Rightarrow> (int \<times> UIoT_Client) option" where
  "send_ack type packet_id timer c = do {
     c \<leftarrow> HAL_MutexLock lock_write_buf c;
     r \<leftarrow> serialize_pub_ack_packet (write_buf c) (write_buf_size c) type 0 packet_id;
     case r of
       Inl ret \<Rightarrow> do { c \<leftarrow> HAL_MutexUnlock lock_write_buf c; Some (ret, c) }
     | Inr (buf, n) \<Rightarrow> do {
         let c = c\<lparr>write_buf := buf\<rparr>;
         (ret, c) \<leftarrow> send_mqtt_packet n timer c;
         c \<leftarrow> HAL_MutexUnlock lock_write_buf c;
         Some (ret, c) } }"

definition handle_publish_packet :: "Timer \<Rightarrow> UIoT_Client \<Rightarrow> (int \<times> UIoT_Client) option" where
  "handle_publish_packet timer c = do {
     r \<leftarrow> deserialize_publish_packet (read_buf c) (read_buf_size c);
     case r of
       Inl ret \<Rightarrow> Some (ret, c)
     | Inr f \<Rightarrow> do {
         let topic_len = (if pf_topic_len f > MAX_SIZE_OF_CLOUD_TOPIC then MAX_SIZE_OF_CLOUD_TOPIC - 1
                          else pf_topic_len f);
         topic \<leftarrow> get_bytes (read_buf c) (pf_topic_pos f) topic_len;
         (fix_topic, _) \<leftarrow> put_bytes (replicate MAX_SIZE_OF_CLOUD_TOPIC 0, 0) topic;
         let msg = \<lparr>msg_qos = pf_qos f, msg_retained = pf_retained f, msg_dup = pf_dup f,
           msg_id = pf_packet_id f, msg_topic = [], msg_topic_len = 0,
           msg_payload = pf_payload_pos f, msg_payload_len = pf_payload_len f\<rparr>;
         if pf_qos f = QOS0 then deliver_message fix_topic topic_len msg c
         else do {
           packet_id \<leftarrow> pf_packet_id f;
           (ret, c) \<leftarrow>
             (if check_repeat_msg c \<and> \<not> get_packet_id_in_repeat_buf packet_id c < 0
              then Some (SUCCESS_RET, c) else deliver_message fix_topic topic_len msg c);
           if ret \<noteq> SUCCESS_RET then Some (ret, c)
           else do {
             c \<leftarrow> (if check_repeat_msg c then add_packet_id_to_repeat_buf packet_id c else Some c);
             send_ack (if pf_qos f = QOS1 then PUBACK else PUBREC) packet_id timer c } } } }"

definition handle_pubrec_packet :: "Timer \<Rightarrow> UIoT_Client \<Rightarrow> (int \<times> UIoT_Client) option" where
  "handle_pubrec_packet timer c = do {
     r \<leftarrow> deserialize_ack_packet (read_buf c) (read_buf_size c);
     case r of
       Inl ret \<Rightarrow> Some (ret, c)
     | Inr (type, dup, packet_id) \<Rightarrow> send_ack PUBREL packet_id timer c }"

definition handle_pingresp_packet :: "UIoT_Client \<Rightarrow> UIoT_Client option" where
  "handle_pingresp_packet c = do {
     c \<leftarrow> HAL_MutexLock lock_generic c;
     let c = c\<lparr>is_ping_outstanding := 0\<rparr>;
     let (t, c) = countdown (unat (keep_alive_interval (options c))) c;
     HAL_MutexUnlock lock_generic (c\<lparr>ping_timer := t\<rparr>) }"

subsection \<open>The dispatcher\<close>

definition handle_packet :: "byte \<Rightarrow> Timer \<Rightarrow> UIoT_Client \<Rightarrow> (int option \<times> UIoT_Client) option" where
  "handle_packet packet_type timer c =
     (if packet_type = msg_code CONNACK then Some (Some SUCCESS_RET, c)
      else if packet_type = msg_code PUBACK then map_option (apfst Some) (handle_puback_packet c)
      else if packet_type = msg_code SUBACK then map_option (apfst Some) (handle_suback_packet c)
      else if packet_type = msg_code UNSUBACK then map_option (apfst Some) (handle_unsuback_packet c)
      else if packet_type = msg_code PUBLISH then map_option (apfst Some) (handle_publish_packet timer c)
      else if packet_type = msg_code PUBREC then map_option (apfst Some) (handle_pubrec_packet timer c)
      else if packet_type = msg_code PUBREL then Some (Some SUCCESS_RET, c)
      else if packet_type = msg_code PUBCOMP then Some (Some SUCCESS_RET, c)
      else if packet_type = msg_code PINGRESP then Some (Some SUCCESS_RET, c)
      else Some (None, c))"

definition cycle_for_read ::
  "Timer \<Rightarrow> byte \<Rightarrow> UIoT_Client \<Rightarrow> ((int \<times> byte) \<times> UIoT_Client) option" where
  "cycle_for_read timer packet_type c = do {
     ((ret, packet_type), c) \<leftarrow> read_mqtt_packet timer packet_type c;
     if ret = ERR_MQTT_NOTHING_TO_READ then Some ((SUCCESS_RET, packet_type), c)
     else if ret \<noteq> SUCCESS_RET then Some ((ret, packet_type), c)
     else do {
       (res, c) \<leftarrow> handle_packet packet_type timer c;
       case res of
         None \<Rightarrow> Some ((ERR_MQTT_RX_MESSAGE_PACKET_TYPE_INVALID, packet_type), c)
       | Some ret \<Rightarrow>
           if packet_type = msg_code PUBACK \<or> packet_type = msg_code SUBACK
              \<or> packet_type = msg_code UNSUBACK \<or> packet_type = msg_code PINGRESP then do {
             c \<leftarrow> handle_pingresp_packet c; Some ((ret, packet_type), c) }
           else if packet_type = msg_code PUBLISH then do {
             c \<leftarrow> HAL_MutexLock lock_generic c;
             c \<leftarrow> HAL_MutexUnlock lock_generic (c\<lparr>is_ping_outstanding := 0\<rparr>);
             Some ((ret, packet_type), c) }
           else Some ((ret, packet_type), c) } }"

end
