(* ===== verification/Client_Frame.thy ===== *)
theory Client_Frame
  imports Mqtt_Dispatch
begin

text \<open>
  What every operation of the client keeps: the clock does not run backwards, the mutexes that
  are held before are held after, the buffers and tables keep their sizes, and the configuration
  stays.  The facts are used for the termination of the loops that wait and for the invariant.
\<close>

text \<open>
  The bounded resources of a client: the wait lists with their limits and fresh addresses, the live topic filters, the
  packet identifier that is never 0, the position in the buffer of identifiers seen before, and
  the waiting time of a reconnect.
\<close>

definition wl_ok :: "nat \<Rightarrow> nat \<Rightarrow> (nat \<times> 'v) list \<Rightarrow> bool" where
  "wl_ok bound room l \<longleftrightarrow>
     length l \<le> room \<and> distinct (map fst l) \<and> (\<forall>n \<in> set l. fst n < bound)"

definition limits_ok :: "UIoT_Client \<Rightarrow> bool" where
  "limits_ok c \<longleftrightarrow>
     wl_ok (next_addr c) MAX_REPUB_NUM (list_pub_wait_ack c) \<and>
     wl_ok (next_addr c) MAX_SUB_TOPICS (list_sub_wait_ack c) \<and> (\<forall>a \<in> live c. a < next_addr c) \<and>
     next_packet_id c \<noteq> 0 \<and> current_packet_id_cnt c < MQTT_MAX_REPEAT_BUF_LEN \<and>
     current_reconnect_wait_interval c \<le> MAX_RECONNECT_WAIT_INTERVAL"

lemma wl_ok_push: "wl_ok b k l \<Longrightarrow> length l < k \<Longrightarrow> wl_push l b v = Some l' \<Longrightarrow> wl_ok (Suc b) k l'"
  by (auto simp: wl_ok_def wl_push_def less_SucI dest: bspec)

lemma wl_ok_mono: "wl_ok b k l \<Longrightarrow> wl_ok (Suc b) k l"
  by (auto simp: wl_ok_def)

lemma wl_ok_remove: "wl_ok b k l \<Longrightarrow> wl_remove l a = Some l' \<Longrightarrow> wl_ok b k l'"
  by (auto simp: wl_ok_def wl_remove_def distinct_map_filter intro: le_trans [OF length_filter_le]
      split: if_splits)

lemma wl_ok_map: "(\<And>n. fst (f n) = fst n) \<Longrightarrow> wl_ok b k (map f l) = wl_ok b k l"
  by (simp add: wl_ok_def comp_def)

text \<open>A connected client has a connection that can be read from.\<close>

definition conn_ok :: "UIoT_Client \<Rightarrow> bool" where
  "conn_ok c \<longleftrightarrow> (is_connected c \<longrightarrow> handle c \<noteq> 0)"

text \<open>
  \<open>K S c0 L c\<close> relates the state \<open>c\<close>, in which the mutexes \<open>L\<close> are held, to an earlier state
  \<open>c0\<close>.  The set \<open>S\<close> says what else is kept: the handle of the connection, the flag
  \<open>is_connected\<close>, \<open>conn_ok\<close>, or the waiting time of a reconnect.
\<close>

definition shape :: "UIoT_Client \<Rightarrow> nat list \<times> bool \<times> bool" where
  "shape c = ([length (write_buf c), length (read_buf c), write_buf_size c, read_buf_size c,
     length (sub_handles c), length (sg_repeat_packet_id_buf c), command_timeout_ms c],
     event_handler c, check_repeat_msg c)"

datatype track = HANDLE | CONN | SOUND | BACKOFF

definition K :: "track set \<Rightarrow> UIoT_Client \<Rightarrow> lock set \<Rightarrow> UIoT_Client \<Rightarrow> bool" where
  "K S c0 L c \<longleftrightarrow> clock c0 \<le> clock c \<and> held c = L \<and> shape c = shape c0 \<and>
     (limits_ok c0 \<longrightarrow> limits_ok c) \<and>
     (HANDLE \<in> S \<longrightarrow> handle c = handle c0) \<and> (CONN \<in> S \<longrightarrow> is_connected c = is_connected c0) \<and>
     (SOUND \<in> S \<longrightarrow> conn_ok c0 \<longrightarrow> conn_ok c) \<and>
     (BACKOFF \<in> S \<longrightarrow> current_reconnect_wait_interval c = current_reconnect_wait_interval c0)"

lemma K_clock: "K S c0 L c \<Longrightarrow> clock c0 \<le> clock c"
  by (simp add: K_def)

lemma K_cong:
  assumes "K S c0 L c" "clock c \<le> clock c'" "held c' = L'" "shape c' = shape c"
    "limits_ok c \<Longrightarrow> limits_ok c'" "handle c' = handle c" "is_connected c' = is_connected c"
    "current_reconnect_wait_interval c' = current_reconnect_wait_interval c"
  shows "K S c0 L' c'"
  using assms by (simp add: K_def conn_ok_def)

lemma K_refl: "K S c (held c) c"
  by (simp add: K_def)

lemma K_trans: "K S c0 L c1 \<Longrightarrow> K S c1 M c2 \<Longrightarrow> K S c0 M c2"
  by (simp add: K_def)

text \<open>The fields of a client when only the platform has moved.\<close>

lemma env_client:
  assumes "env c (c' :: UIoT_Client)"
  shows "is_connected c' = is_connected c" "was_manually_disconnected c' = was_manually_disconnected c"
    "is_ping_outstanding c' = is_ping_outstanding c" "next_packet_id c' = next_packet_id c"
    "command_timeout_ms c' = command_timeout_ms c"
    "current_reconnect_wait_interval c' = current_reconnect_wait_interval c"
    "counter_network_disconnected c' = counter_network_disconnected c"
    "write_buf_size c' = write_buf_size c" "read_buf_size c' = read_buf_size c"
    "write_buf c' = write_buf c" "read_buf c' = read_buf c"
    "list_pub_wait_ack c' = list_pub_wait_ack c" "list_sub_wait_ack c' = list_sub_wait_ack c"
    "event_handler c' = event_handler c" "options c' = options c" "ping_timer c' = ping_timer c"
    "reconnect_delay_timer c' = reconnect_delay_timer c" "sub_handles c' = sub_handles c"
    "check_repeat_msg c' = check_repeat_msg c" "sg_repeat_packet_id_buf c' = sg_repeat_packet_id_buf c"
    "current_packet_id_cnt c' = current_packet_id_cnt c" "live c' = live c" "next_addr c' = next_addr c"
    "events c' = events c"
  using assms by (cases c; cases c'; simp add: env_def)+

lemma limits_ok_cong:
  "list_pub_wait_ack c' = list_pub_wait_ack c \<Longrightarrow> list_sub_wait_ack c' = list_sub_wait_ack c \<Longrightarrow>
   next_addr c' = next_addr c \<Longrightarrow> live c' = live c \<Longrightarrow> next_packet_id c' = next_packet_id c \<Longrightarrow>
   current_packet_id_cnt c' = current_packet_id_cnt c \<Longrightarrow>
   current_reconnect_wait_interval c' = current_reconnect_wait_interval c \<Longrightarrow> limits_ok c' = limits_ok c"
  by (simp add: limits_ok_def)

lemma K_env:
  assumes k: "K S c0 L c" and e: "env c c'" shows "K S c0 L c'"
  using k
proof (rule K_cong)
  show "clock c \<le> clock c'" "handle c' = handle c" using e by (simp_all add: env_def)
  show "held c' = L" using k e by (simp add: env_def K_def)
  show "shape c' = shape c" by (simp add: shape_def env_client [OF e])
  have "limits_ok c' = limits_ok c" by (rule limits_ok_cong) (simp_all add: env_client [OF e])
  then show "limits_ok c \<Longrightarrow> limits_ok c'" by simp
qed (simp_all add: env_client [OF e])

lemma lock_Some: "HAL_MutexLock l c = Some c' \<longleftrightarrow> l \<notin> held c \<and> c' = c\<lparr>held := insert l (held c)\<rparr>"
  by (auto simp: HAL_MutexLock_def)

lemma unlock_Some: "HAL_MutexUnlock l c = Some c' \<longleftrightarrow> l \<in> held c \<and> c' = c\<lparr>held := held c - {l}\<rparr>"
  by (auto simp: HAL_MutexUnlock_def)

lemma K_lock: "K S c0 L c \<Longrightarrow> HAL_MutexLock l c = Some c' \<Longrightarrow> K S c0 (insert l L) c' \<and> l \<notin> L"
  by (auto simp: lock_Some K_def shape_def limits_ok_def conn_ok_def)

lemma K_same:
  assumes "K S c0 L c" "clock c' = clock c" "held c' = held c" "shape c' = shape c"
    "limits_ok c \<Longrightarrow> limits_ok c'" "handle c' = handle c" "is_connected c' = is_connected c"
    "current_reconnect_wait_interval c' = current_reconnect_wait_interval c"
  shows "K S c0 L c'"
  by (rule K_cong [OF assms(1)]) (use assms in \<open>simp_all add: K_def\<close>)

lemma K_unlock: "K S c0 (insert l L) c \<Longrightarrow> HAL_MutexUnlock l c = Some c' \<Longrightarrow> l \<notin> L \<Longrightarrow> K S c0 L c'"
  by (frule K_cong [of S c0 _ c c' L]) (auto simp: unlock_Some K_def shape_def limits_ok_def)

lemma K_malloc: "K S c0 L c \<Longrightarrow> HAL_Malloc c = (ok, c') \<Longrightarrow> K S c0 L c'"
  by (erule K_same) (auto simp: HAL_Malloc_def shape_def limits_ok_def split: list.splits)

lemma K_emit: "K S c0 L c \<Longrightarrow> K S c0 L (emit e c)" "K S c0 L c \<Longrightarrow> K S c0 L (call_event_handler e c)"
  by (erule K_same; simp add: emit_def call_event_handler_def shape_def limits_ok_def)+

lemma K_free: "K S c0 L c \<Longrightarrow> free_filter p c = Some c' \<Longrightarrow> K S c0 L c'"
  by (erule K_same) (auto simp: free_filter_def shape_def limits_ok_def split: option.splits if_splits)

lemma K_upd:
  "K S c0 L c \<Longrightarrow> K S c0 L (c\<lparr>was_manually_disconnected := a\<rparr>)"
  "K S c0 L c \<Longrightarrow> K S c0 L (c\<lparr>is_ping_outstanding := b\<rparr>)"
  "K S c0 L c \<Longrightarrow> K S c0 L (c\<lparr>counter_network_disconnected := b\<rparr>)"
  "K S c0 L c \<Longrightarrow> K S c0 L (c\<lparr>options := opt\<rparr>)"
  "K S c0 L c \<Longrightarrow> K S c0 L (c\<lparr>ping_timer := b\<rparr>)"
  "K S c0 L c \<Longrightarrow> K S c0 L (c\<lparr>reconnect_delay_timer := b\<rparr>)"
  "K S c0 L c \<Longrightarrow> K S c0 L (c\<lparr>tls_up := us\<rparr>)"
  "K S c0 L c \<Longrightarrow> K S c0 L (c\<lparr>sub_handles := (sub_handles c)[b := h]\<rparr>)"
  by (erule K_same; simp add: shape_def limits_ok_def)+

lemma K_write_buf: "K S c0 L c \<Longrightarrow> length buf = length (write_buf c) \<Longrightarrow> K S c0 L (c\<lparr>write_buf := buf\<rparr>)"
  by (erule K_same) (simp_all add: shape_def limits_ok_def)

lemma K_read_buf: "K S c0 L c \<Longrightarrow> length buf = length (read_buf c) \<Longrightarrow> K S c0 L (c\<lparr>read_buf := buf\<rparr>)"
  by (erule K_same) (simp_all add: shape_def limits_ok_def)

lemma K_connection:
  "K S c0 L c \<Longrightarrow> CONN \<notin> S \<Longrightarrow> SOUND \<notin> S \<Longrightarrow> K S c0 L (c\<lparr>is_connected := a\<rparr>)"
  "K S c0 L c \<Longrightarrow> HANDLE \<notin> S \<Longrightarrow> SOUND \<notin> S \<Longrightarrow> K S c0 L (c\<lparr>handle := b\<rparr>)"
  by (simp_all add: K_def shape_def limits_ok_def)

text \<open>The updates that the limits are about.\<close>

lemma next_id_nonzero: "(if MAX_PACKET_ID = i then 1 else i + 1) \<noteq> (0 :: 16 word)"
proof -
  have "i = MAX_PACKET_ID" if "i + 1 = 0" using that by (simp add: eq_neg_iff_add_eq_0 [symmetric])
  then show ?thesis by auto
qed

lemma K_next_id: "K S c0 L c \<Longrightarrow>
    K S c0 L (c\<lparr>next_packet_id := if MAX_PACKET_ID = next_packet_id c then 1 else next_packet_id c + 1\<rparr>)"
  by (erule K_same) (use next_id_nonzero [of "next_packet_id c"] in \<open>simp_all add: shape_def limits_ok_def\<close>)

lemma K_interval: "K S c0 L c \<Longrightarrow> b \<le> MAX_RECONNECT_WAIT_INTERVAL \<Longrightarrow> BACKOFF \<notin> S \<Longrightarrow>
    K S c0 L (c\<lparr>current_reconnect_wait_interval := b\<rparr>)"
  by (simp add: K_def shape_def limits_ok_def conn_ok_def)

lemma K_new_addr: "K S c0 L c \<Longrightarrow> K S c0 L (c\<lparr>next_addr := Suc (next_addr c)\<rparr>)"
  by (erule K_same) (auto simp: shape_def limits_ok_def wl_ok_mono less_SucI)

lemma K_push_pub:
  assumes "K S c0 L c" "\<not> MAX_REPUB_NUM \<le> length (list_pub_wait_ack c)"
    "wl_push (list_pub_wait_ack c) (next_addr c) i = Some l"
  shows "K S c0 L (c\<lparr>list_pub_wait_ack := l, next_addr := Suc (next_addr c)\<rparr>)"
  using assms(1) by (rule K_same) (use assms(2,3) in \<open>auto simp: shape_def limits_ok_def less_SucI intro: wl_ok_push wl_ok_mono\<close>)

lemma K_push_sub:
  assumes "K S c0 L c" "\<not> MAX_SUB_TOPICS \<le> length (list_sub_wait_ack c)"
    "wl_push (list_sub_wait_ack c) (next_addr c) i = Some l"
  shows "K S c0 L (c\<lparr>list_sub_wait_ack := l, next_addr := Suc (next_addr c)\<rparr>)"
  using assms(1) by (rule K_same) (use assms(2,3) in \<open>auto simp: shape_def limits_ok_def less_SucI intro: wl_ok_push wl_ok_mono\<close>)

lemma K_remove:
  "K S c0 L c \<Longrightarrow> wl_remove (list_pub_wait_ack c) a = Some l \<Longrightarrow> K S c0 L (c\<lparr>list_pub_wait_ack := l\<rparr>)"
  "K S c0 L c \<Longrightarrow> wl_remove (list_sub_wait_ack c) a = Some m \<Longrightarrow> K S c0 L (c\<lparr>list_sub_wait_ack := m\<rparr>)"
  by (erule K_same; auto simp: shape_def limits_ok_def intro: wl_ok_remove)+

lemma mask_node_fst [simp]: "fst (mask_pub_node i n) = fst n" "fst (mask_sub_node i n') = fst n'"
  by (simp_all add: mask_pub_node_def mask_sub_node_def)

lemma K_mask:
  "K S c0 L c \<Longrightarrow> K S c0 L (c\<lparr>list_pub_wait_ack := map (mask_pub_node i) (list_pub_wait_ack c)\<rparr>)"
  "K S c0 L c \<Longrightarrow> K S c0 L (c\<lparr>list_sub_wait_ack := map (mask_sub_node i) (list_sub_wait_ack c)\<rparr>)"
  by (erule K_same; simp add: shape_def limits_ok_def wl_ok_map)+

subsection \<open>Rules for computations\<close>

text \<open>
  \<open>kr P m\<close>: every result of \<open>m\<close>, a value and a state, satisfies \<open>P\<close>; \<open>ks\<close> is the same for
  computations whose result is the state alone.  There is one rule per construct; together they
  walk through a definition, with \<open>K\<close> as what is known at every step.
\<close>

definition kr :: "('r \<Rightarrow> UIoT_Client \<Rightarrow> bool) \<Rightarrow> ('r \<times> UIoT_Client) option \<Rightarrow> bool" where
  "kr P m \<longleftrightarrow> (\<forall>r c. m = Some (r, c) \<longrightarrow> P r c)"

definition ks :: "(UIoT_Client \<Rightarrow> bool) \<Rightarrow> UIoT_Client option \<Rightarrow> bool" where
  "ks P m \<longleftrightarrow> (\<forall>c. m = Some c \<longrightarrow> P c)"

abbreviation kp :: "track set \<Rightarrow> UIoT_Client \<Rightarrow> lock set \<Rightarrow> ('r \<times> UIoT_Client) option \<Rightarrow> bool" where
  "kp S c0 L m \<equiv> kr (\<lambda>_ c. K S c0 L c) m"

abbreviation kq :: "track set \<Rightarrow> UIoT_Client \<Rightarrow> lock set \<Rightarrow> UIoT_Client option \<Rightarrow> bool" where
  "kq S c0 L m \<equiv> ks (\<lambda>c. K S c0 L c) m"

lemma krD: "kr P m \<Longrightarrow> m = Some (r, c) \<Longrightarrow> P r c"
  by (simp add: kr_def)

lemma ksD: "ks P m \<Longrightarrow> m = Some c \<Longrightarrow> P c"
  by (simp add: ks_def)

lemma kp_None: "kr P None"
  by (simp add: kr_def)

lemma kp_Some: "P r c \<Longrightarrow> kr P (Some (r, c))"
  by (simp add: kr_def)

lemma kp_lock:
  assumes "K S c0 L c" "\<And>c'. K S c0 (insert l L) c' \<Longrightarrow> l \<notin> L \<Longrightarrow> kr P (f c')"
  shows "kr P (Option.bind (HAL_MutexLock l c) f)"
  using assms K_lock by (fastforce simp: kr_def bind_eq_Some_conv)

lemma kp_unlock:
  assumes "K S c0 (insert l L) c" "l \<notin> L" "\<And>c'. K S c0 L c' \<Longrightarrow> kr P (f c')"
  shows "kr P (Option.bind (HAL_MutexUnlock l c) f)"
  using assms K_unlock by (fastforce simp: kr_def bind_eq_Some_conv)

lemma kp_bind:
  assumes "kp S c0 L m" "\<And>r c'. K S c0 L c' \<Longrightarrow> kr P (f r c')"
  shows "kr P (Option.bind m (\<lambda>(r, c'). f r c'))"
  using assms by (fastforce simp: kr_def bind_eq_Some_conv)

lemma kp_bind_state:
  assumes "kq S c0 L m" "\<And>c'. K S c0 L c' \<Longrightarrow> kr P (f c')"
  shows "kr P (Option.bind m f)"
  using assms by (fastforce simp: kr_def ks_def bind_eq_Some_conv)

lemma kp_opt: "(\<And>x. m = Some x \<Longrightarrow> kr P (f x)) \<Longrightarrow> kr P (Option.bind m f)"
  by (auto simp: kr_def bind_eq_Some_conv)

lemma kp_if: "(b \<Longrightarrow> kr P x) \<Longrightarrow> (\<not> b \<Longrightarrow> kr P y) \<Longrightarrow> kr P (if b then x else y)"
  by simp

lemma kp_sum:
  "(\<And>e. r = Inl e \<Longrightarrow> kr P (f e)) \<Longrightarrow> (\<And>x. r = Inr x \<Longrightarrow> kr P (g x)) \<Longrightarrow>
   kr P (case r of Inl e \<Rightarrow> f e | Inr x \<Rightarrow> g x)"
  by (simp split: sum.split)

lemma kp_option:
  "(r = None \<Longrightarrow> kr P x) \<Longrightarrow> (\<And>y. r = Some y \<Longrightarrow> kr P (g y)) \<Longrightarrow>
   kr P (case r of None \<Rightarrow> x | Some y \<Rightarrow> g y)"
  by (simp split: option.split)

lemma kp_prod: "(\<And>x y. p = (x, y) \<Longrightarrow> kr P (f x y)) \<Longrightarrow> kr P (case p of (x, y) \<Rightarrow> f x y)"
  by (simp split: prod.split)

lemma kp_let: "kr P (f x) \<Longrightarrow> kr P (let y = x in f y)"
  by simp

lemma kp_tick:
  assumes "K S c0 L c"
    and "\<And>r c'. K S c0 L c' \<Longrightarrow> kr P (f r c')" "\<And>r c'. p = (r, c') \<Longrightarrow> env c c'"
  shows "kr P (let (r, c') = p in f r c')"
  using assms K_env by (cases p) auto

lemma kp_malloc:
  assumes "K S c0 L c" and "\<And>r c'. K S c0 L c' \<Longrightarrow> kr P (f r c')"
  shows "kr P (let (r, c') = HAL_Malloc c in f r c')"
  using assms K_malloc by (cases "HAL_Malloc c") auto

lemma kp_time:
  "K S c0 L c \<Longrightarrow> (\<And>r c'. K S c0 L c' \<Longrightarrow> kr P (f r c')) \<Longrightarrow>
   kr P (let (r, c') = countdown_ms n c in f r c')"
  "K S c0 L c \<Longrightarrow> (\<And>r c'. K S c0 L c' \<Longrightarrow> kr P (f r c')) \<Longrightarrow>
   kr P (let (r, c') = countdown n c in f r c')"
  "K S c0 L c \<Longrightarrow> (\<And>b c'. K S c0 L c' \<Longrightarrow> kr P (g b c')) \<Longrightarrow>
   kr P (let (b, c') = has_expired n c in g b c')"
  "K S c0 L c \<Longrightarrow> (\<And>i c'. K S c0 L c' \<Longrightarrow> kr P (h i c')) \<Longrightarrow>
   kr P (let (i, c') = left_ms n c in h i c')"
  by (rule kp_tick; (assumption | erule env_countdown_ms | erule env_countdown
        | erule env_has_expired [THEN conjunct1] | erule env_left_ms | blast))+

lemmas K_intros = K_upd K_emit K_next_id K_new_addr K_remove K_mask

lemma kp_prod_app:
  "(\<And>x y. p = (x, y) \<Longrightarrow> kr P (f x y c)) \<Longrightarrow> kr P ((case p of (x, y) \<Rightarrow> f x y) c)"
  by (simp split: prod.split)

lemmas kp_rules = kp_time kp_malloc kp_lock kp_unlock kp_Some kp_None kp_if kp_sum kp_option
  kp_prod kp_prod_app kp_let

lemma kq_lock: "K S c0 L c \<Longrightarrow> (\<And>c'. K S c0 (insert l L) c' \<Longrightarrow> l \<notin> L \<Longrightarrow> ks P (f c')) \<Longrightarrow>
   ks P (Option.bind (HAL_MutexLock l c) f)"
  using K_lock by (fastforce simp: ks_def bind_eq_Some_conv)

lemma kq_unlock: "K S c0 (insert l L) c \<Longrightarrow> l \<notin> L \<Longrightarrow> kq S c0 L (HAL_MutexUnlock l c)"
  using K_unlock by (fastforce simp: ks_def)

lemma kq_Some: "P c \<Longrightarrow> ks P (Some c)"
  by (simp add: ks_def)

lemma kq_let: "ks P (f x) \<Longrightarrow> ks P (let y = x in f y)"
  by simp

lemma kq_opt: "(\<And>x. m = Some x \<Longrightarrow> ks P (f x)) \<Longrightarrow> ks P (Option.bind m f)"
  by (auto simp: ks_def bind_eq_Some_conv)

lemma kq_if: "(b \<Longrightarrow> ks P x) \<Longrightarrow> (\<not> b \<Longrightarrow> ks P y) \<Longrightarrow> ks P (if b then x else y)"
  by simp

lemma kq_prod: "(\<And>x y. p = (x, y) \<Longrightarrow> ks P (f x y)) \<Longrightarrow> ks P (case p of (x, y) \<Rightarrow> f x y)"
  by (simp split: prod.split)

lemma kq_tick:
  assumes "K S c0 L c"
    and "\<And>r c'. K S c0 L c' \<Longrightarrow> ks P (f r c')" "\<And>r c'. p = (r, c') \<Longrightarrow> env c c'"
  shows "ks P (let (r, c') = p in f r c')"
  using assms K_env by (cases p) auto

lemma kq_time:
  "K S c0 L c \<Longrightarrow> (\<And>r c'. K S c0 L c' \<Longrightarrow> ks P (f r c')) \<Longrightarrow>
   ks P (let (r, c') = countdown_ms n c in f r c')"
  "K S c0 L c \<Longrightarrow> (\<And>r c'. K S c0 L c' \<Longrightarrow> ks P (f r c')) \<Longrightarrow>
   ks P (let (r, c') = countdown n c in f r c')"
  by (rule kq_tick; (assumption | erule env_countdown_ms | erule env_countdown | blast))+

lemmas kq_rules = kq_time kq_lock kq_unlock kq_Some kq_if kq_prod kq_let

lemma kq_free: "K S c0 L c \<Longrightarrow> kq S c0 L (free_filter p c)"
  using K_free by (auto simp: ks_def)

lemma kp_get_next_packet_id: "K S c0 L c \<Longrightarrow> kp S c0 L (get_next_packet_id c)"
  unfolding get_next_packet_id_def by (rule kp_rules K_intros | assumption)+

lemma kq_set_client_conn_state:
  "K S c0 L c \<Longrightarrow> CONN \<notin> S \<Longrightarrow> SOUND \<notin> S \<Longrightarrow> kq S c0 L (set_client_conn_state b c)"
  unfolding set_client_conn_state_def by (rule kq_rules K_connection | assumption)+

lemma kp_get_client_conn_state: "K S c0 L c \<Longrightarrow> kp S c0 L (get_client_conn_state c)"
  unfolding get_client_conn_state_def by (rule kp_rules K_intros | assumption)+

text \<open>
  The room in a wait list is looked at some steps before the push; in between, the lists stay.
\<close>

lemma malloc_lists:
  "HAL_Malloc c = (ok, c') \<Longrightarrow> list_pub_wait_ack c' = list_pub_wait_ack c"
  "HAL_Malloc c = (ok, c') \<Longrightarrow> list_sub_wait_ack c' = list_sub_wait_ack c"
  by (auto simp: HAL_Malloc_def split: list.splits)

lemma kp_room:
  assumes k: "K S c0 L c" and room: "n \<le> 20 - length (list_pub_wait_ack c)" "m \<le> 10 - length (list_sub_wait_ack c)"
    and f: "\<And>c. K S c0 L c \<Longrightarrow> kr P (f c)"
    and push: "\<And>c t buf. K S c0 L c \<Longrightarrow> n \<le> 20 - length (list_pub_wait_ack c) \<Longrightarrow>
         m \<le> 10 - length (list_sub_wait_ack c) \<Longrightarrow> kr P (push c t buf)"
  shows "kr P (let (ok, c1) = HAL_Malloc c in
      if \<not> ok then f c1
      else let (t, c2) = countdown_ms (g c1) c1 in
        Option.bind (get c2) (\<lambda>buf. let (ok, c3) = HAL_Malloc c2 in
          if \<not> ok then f c3 else push c3 t buf))"
proof -
  obtain ok1 c1 where 1: "HAL_Malloc c = (ok1, c1)" by (metis surj_pair)
  obtain t c2 where 2: "countdown_ms (g c1) c1 = (t, c2)" by (metis surj_pair)
  obtain ok3 c3 where 3: "HAL_Malloc c2 = (ok3, c3)" by (metis surj_pair)
  note e2 = env_countdown_ms [OF 2]
  have k: "K S c0 L c1" "K S c0 L c3"
    using K_malloc [OF _ 1] K_env [OF _ e2] K_malloc [OF _ 3] k by blast+
  have "list_pub_wait_ack c3 = list_pub_wait_ack c" "list_sub_wait_ack c3 = list_sub_wait_ack c"
    using malloc_lists [OF 1] malloc_lists [OF 3] env_client [OF e2] by simp_all
  with k f push room show ?thesis by (simp add: 1 2 3 kp_opt)
qed

lemma kp_mask_push_pubInfo_to: "K S c0 L c \<Longrightarrow> kp S c0 L (mask_push_pubInfo_to n i c)"
  unfolding mask_push_pubInfo_to_def
  by (rule kp_if kp_Some kp_lock kp_unlock kp_room [where n = 1 and m = 0] kp_let K_push_pub
      | assumption | rule kp_opt | (simp; fail) | linarith)+

lemma kp_push_sub_info_to: "K S c0 L c \<Longrightarrow> kp S c0 L (push_sub_info_to n i ty sh c)"
  unfolding push_sub_info_to_def
  by (rule kp_if kp_Some kp_lock kp_unlock kp_room [where n = 0 and m = 1] kp_let K_push_sub
      | assumption | rule kp_opt | (simp; fail) | linarith)+

lemma kp_mask_pubInfo_from: "K S c0 L c \<Longrightarrow> kp S c0 L (mask_pubInfo_from i c)"
  unfolding mask_pubInfo_from_def by (rule kp_rules K_intros | assumption | rule kp_opt)+

lemma kp_mask_sub_info_from: "K S c0 L c \<Longrightarrow> kp S c0 L (mask_sub_info_from i c)"
  unfolding mask_sub_info_from_def by (rule kp_rules K_intros | assumption | rule kp_opt)+

lemma kq_remove_pub_node: "K S c0 L c \<Longrightarrow> kq S c0 L (remove_pub_node a c)"
  unfolding remove_pub_node_def by (rule kq_rules K_intros | assumption | rule kq_opt)+

lemma kq_remove_sub_node: "K S c0 L c \<Longrightarrow> kq S c0 L (remove_sub_node a c)"
  unfolding remove_sub_node_def by (rule kq_rules K_intros | assumption | rule kq_opt)+

lemma K_repeat_buf:
  "K S c0 L c \<Longrightarrow> length buf = length (sg_repeat_packet_id_buf c) \<Longrightarrow> n < MQTT_MAX_REPEAT_BUF_LEN \<Longrightarrow>
   K S c0 L (c\<lparr>sg_repeat_packet_id_buf := buf, current_packet_id_cnt := n\<rparr>)"
  by (erule K_same) (simp_all add: shape_def limits_ok_def)

lemma kq_add_packet_id: "K S c0 L c \<Longrightarrow> kq S c0 L (add_packet_id_to_repeat_buf i c)"
  unfolding add_packet_id_to_repeat_buf_def arr_set_def
  by (rule kq_if kq_Some kq_opt kq_let K_repeat_buf | assumption | (auto split: if_splits; fail))+

lemma kq_handle_pingresp_packet: "K S c0 L c \<Longrightarrow> kq S c0 L (handle_pingresp_packet c)"
  unfolding handle_pingresp_packet_def by (rule kq_rules K_intros | assumption | rule kq_opt)+

subsection \<open>Input and output\<close>

lemma kp_send_loop: "K S c0 L c \<Longrightarrow> kp S c0 L (send_loop timer n sent c)"
proof (induction timer n sent c rule: send_loop.induct)
  case (1 timer n sent c)
  show ?case
  proof (subst send_loop.simps, unfold kr_def, clarify)
    fix r c'
    assume a: "(if sent < n then do {
        let (expired, c1) = has_expired timer c;
        if expired then Some (sent, c1)
        else do {
          let (ms, c2) = left_ms timer c1;
          chunk \<leftarrow> get_bytes (write_buf c2) sent n;
          (send_len, c3) \<leftarrow> utils_net_write chunk (uint32_of_int ms) c2;
          if send_len < 0 then Some (sent, c3)
          else send_loop timer n (sent + nat send_len) c3 } }
      else Some (sent, c)) = Some (r, c')"
    obtain e c1 where e: "has_expired timer c = (e, c1)" by (metis surj_pair)
    obtain ms c2 where m: "left_ms timer c1 = (ms, c2)" by (metis surj_pair)
    have k: "K S c0 L c1" "K S c0 L c2"
      using K_env [OF "1.prems"] K_env env_has_expired [OF e] env_left_ms [OF m] by blast+
    have w: "utils_net_write chunk t c2 = Some (l, c3) \<Longrightarrow> K S c0 L c3" for chunk t l c3
      using K_env [OF k(2) env_net_write] by blast
    show "K S c0 L c'"
      using a e m k w "1.prems" "1.IH" [OF _ e [symmetric] refl _ m [symmetric] refl]
      by (auto simp: bind_eq_Some_conv kr_def split: if_splits)
  qed
qed

lemma kp_send_mqtt_packet: "K S c0 L c \<Longrightarrow> kp S c0 L (send_mqtt_packet n timer c)"
  unfolding send_mqtt_packet_def
  by (rule kp_rules kp_bind kp_send_loop | assumption)+

lemma kp_net_read: "K S c0 L c \<Longrightarrow> kp S c0 L (net_read pos n t c)"
proof -
  assume k: "K S c0 L c"
  have "K S c0 L (c1\<lparr>read_buf := buf\<rparr>)"
    if "utils_net_read n u c = Some (l, bs, c1)" "put_bytes (read_buf c1, pos) bs = Some (buf, i)"
    for u l bs c1 buf i
    using K_read_buf [OF K_env [OF k env_net_read [OF that(1)]]] put_bytes_Some_length [OF that(2)] by simp
  then show ?thesis by (auto simp: net_read_def kr_def bind_eq_Some_conv split: if_splits)
qed

lemma kp_timer_left:
  "K S c0 L c \<Longrightarrow> (\<And>i c'. K S c0 L c' \<Longrightarrow> kr P (h i c')) \<Longrightarrow>
   kr P (let (i, c') = timer_left n c in h i c')"
  by (rule kp_tick) (auto simp: timer_left_def split: prod.splits dest: env_left_ms)

lemma kp_decode_rem_len_net: "K S c0 L c \<Longrightarrow> kp S c0 L (decode_rem_len_net t m n v c)"
proof (induction t m n v c rule: decode_rem_len_net.induct)
  case (1 t m n v c)
  have r: "utils_net_read k u c = Some (l, bs, c') \<Longrightarrow> K S c0 L c'" for k u l bs c'
    using K_env [OF "1.prems" env_net_read] by blast
  show ?case
    apply (subst decode_rem_len_net.simps)
    using "1" r by (auto simp: kr_def bind_eq_Some_conv Let_def split: if_splits)
qed

lemma kp_drop_loop: "K S c0 L c \<Longrightarrow> kp S c0 L (drop_loop t n b got c)"
proof (induction t n b got c rule: drop_loop.induct)
  case (1 t n b got c)
  note unf = drop_loop.simps [of t n b got c]
  show ?case
  proof (cases "net_read 0 b t c")
    case None
    then show ?thesis by (simp add: unf kr_def)
  next
    case (Some p)
    obtain l c1 where p: "p = (l, c1)" by (cases p)
    have k: "K S c0 L c1" using kp_net_read [OF "1.prems", of 0 b t] Some p by (simp add: kr_def)
    show ?thesis
    proof (cases "l > 0 \<and> got + nat l < n")
      case True
      from "1.IH" [OF Some p [symmetric] conjunct1 [OF True] refl refl conjunct2 [OF True] k] True Some p
      show ?thesis by (simp add: unf Let_def)
    next
      case False
      with Some p k show ?thesis by (auto simp: unf Let_def kr_def)
    qed
  qed
qed

lemma kp_write_rem_len:
  assumes "K S c0 L c" "\<And>buf n. K S c0 L (c\<lparr>read_buf := buf\<rparr>) \<Longrightarrow> kr P (f buf n)"
  shows "kr P (Option.bind (mqtt_write_packet_rem_len (read_buf c, i) m) (\<lambda>(buf, n). f buf n))"
  using put_bytes_Some_length [of "(read_buf c, i)" "rem_len_bytes m"] K_read_buf [OF assms(1)] assms(2)
  by (fastforce simp: write_rem_len_put kr_def bind_eq_Some_conv)

lemma kp_read_mqtt_packet: "K S c0 L c \<Longrightarrow> kp S c0 L (read_mqtt_packet timer p c)"
  unfolding read_mqtt_packet_def
  by (rule kp_timer_left kp_write_rem_len kp_rules kp_bind kp_net_read kp_decode_rem_len_net kp_drop_loop
      | assumption | rule kp_opt)+

subsection \<open>The handlers and the dispatcher\<close>

lemma kp_deliver_loop:
  "K S c0 (insert lock_generic L) c \<Longrightarrow> lock_generic \<notin> L \<Longrightarrow>
   deliver_loop i t n m c = Some (b, c') \<Longrightarrow> K S c0 (if b then L else insert lock_generic L) c'"
proof (induction i t n m c rule: deliver_loop.induct)
  case (1 i t n m c)
  note unf = deliver_loop.simps [of i t n m c]
  show ?case
  proof (cases "i < MAX_SUB_TOPICS")
    case False
    with "1.prems" show ?thesis by (simp add: unf)
  next
    case True
    with "1.prems"(3) obtain h where h: "arr_get (sub_handles c) i = Some h"
      by (auto simp: unf bind_eq_Some_conv)
    let ?m = "case topic_filter h of None \<Rightarrow> Some False
        | Some p \<Rightarrow> do { tf \<leftarrow> read_filter p c; name \<leftarrow> cstr_of_array t;
               if is_topic_equals name tf then Some True else is_topic_matched tf t n }"
    from "1.prems"(3) True h obtain mt where mt: "?m = Some mt"
      unfolding unf by (cases ?m) auto
    note step = "1.prems"(3) [unfolded unf, simplified True h mt if_True Option.bind.simps]
    show ?thesis
    proof (cases mt)
      case False
      with step "1.IH"(2) [OF True h mt] "1.prems"(1,2) show ?thesis by simp
    next
      case mt': True
      with step obtain c1 where u: "HAL_MutexUnlock lock_generic c = Some c1"
        by (auto simp: bind_eq_Some_conv)
      with "1.prems"(1,2) have k1: "K S c0 L c1" by (rule_tac K_unlock)
      show ?thesis
      proof (cases "message_handler h")
        case (Some f)
        with step mt' u k1 show ?thesis by (auto simp: K_emit)
      next
        case None
        with step mt' u obtain c2 where l: "HAL_MutexLock lock_generic c1 = Some c2"
          and r: "deliver_loop (i + 1) t n m c2 = Some (b, c')"
          by (auto simp: bind_eq_Some_conv)
        from K_lock [OF k1 l] "1.IH"(1) [OF True h mt mt' u None l _ "1.prems"(2) r] show ?thesis
          by simp
      qed
    qed
  qed
qed

lemma kp_deliver_message: "K S c0 L c \<Longrightarrow> kp S c0 L (deliver_message t n m c)"
proof -
  assume k: "K S c0 L c"
  show ?thesis
  proof (unfold kr_def, clarify)
    fix r c'
    assume d: "deliver_message t n m c = Some (r, c')"
    let ?m = "m\<lparr>msg_topic := t, msg_topic_len := n\<rparr>"
    from d obtain c1 b c2 where l: "HAL_MutexLock lock_generic c = Some c1"
      and p: "deliver_loop 0 t n ?m c1 = Some (b, c2)"
      and rest: "(if b then Some (SUCCESS_RET, c2) else do {
          c \<leftarrow> HAL_MutexUnlock lock_generic c2;
          Some (SUCCESS_RET, call_event_handler (MQTT_EVENT_PUBLISH_RECEIVED ?m) c) }) = Some (r, c')"
      by (auto simp: deliver_message_def bind_eq_Some_conv Let_def)
    note k1 = K_lock [OF k l]
    with kp_deliver_loop [OF _ _ p, of S c0 L] have "K S c0 (if b then L else insert lock_generic L) c2" by blast
    with rest k1 show "K S c0 L c'"
      by (auto simp: bind_eq_Some_conv K_emit split: if_splits dest: K_unlock)
  qed
qed

lemma kp_handle_puback_packet: "K S c0 L c \<Longrightarrow> kp S c0 L (handle_puback_packet c)"
  unfolding handle_puback_packet_def
  by (rule kp_rules kp_bind kp_mask_pubInfo_from K_intros | assumption | rule kp_opt)+

lemma kp_handle_suback_packet: "K S c0 L c \<Longrightarrow> kp S c0 L (handle_suback_packet c)"
  unfolding handle_suback_packet_def
  by (rule kp_rules kp_bind kp_bind_state kp_mask_sub_info_from kq_free K_intros
      | assumption | rule kp_opt)+

lemma kp_handle_unsuback_packet: "K S c0 L c \<Longrightarrow> kp S c0 L (handle_unsuback_packet c)"
  unfolding handle_unsuback_packet_def
  by (rule kp_rules kp_bind kp_bind_state kp_mask_sub_info_from kq_free K_intros
      | assumption | rule kp_opt)+

lemma serialize_keeps_length:
  "serialize_pub_ack_packet buf n t d i = Some (Inr (buf', m)) \<Longrightarrow> length buf' = length buf"
  "serialize_packet_with_zero_payload buf n t = Some (Inr (buf', m)) \<Longrightarrow> length buf' = length buf"
  "serialize_publish_packet buf n d q r i tn pl = Some (Inr (buf', m)) \<Longrightarrow> length buf' = length buf"
  "serialize_connect_packet buf n opts = Some (Inr (buf', m)) \<Longrightarrow> length buf' = length buf"
  by (auto simp: serialize_pub_ack_packet_def serialize_packet_with_zero_payload_def
      serialize_publish_packet_def serialize_connect_packet_def Let_def put_fold bind_eq_Some_conv
      dest!: put_bytes_Some_length split: if_splits sum.splits option.splits)

lemma kp_ser:
  "K S c0 L c \<Longrightarrow> length buf = length (write_buf c) \<Longrightarrow> (\<And>c'. K S c0 L c' \<Longrightarrow> kr P (f c')) \<Longrightarrow>
   kr P (let c' = c\<lparr>write_buf := buf\<rparr> in f c')"
  by (simp add: K_write_buf)

lemma kp_send_ack: "K S c0 L c \<Longrightarrow> kp S c0 L (send_ack t i timer c)"
  unfolding send_ack_def
  by (rule kp_ser kp_rules kp_bind kp_send_mqtt_packet | assumption | rule kp_opt
      | (simp add: serialize_keeps_length; fail))+

lemma kp_handle_publish_packet: "K S c0 L c \<Longrightarrow> kp S c0 L (handle_publish_packet timer c)"
  unfolding handle_publish_packet_def
  by (rule kp_rules kp_deliver_message kp_send_ack kp_bind kp_bind_state kq_if kq_add_packet_id kq_Some
      | assumption | rule kp_opt)+

lemma kp_handle_pubrec_packet: "K S c0 L c \<Longrightarrow> kp S c0 L (handle_pubrec_packet timer c)"
  unfolding handle_pubrec_packet_def
  by (rule kp_rules kp_send_ack | assumption | rule kp_opt)+

lemma kp_apfst: "kp S c0 L m \<Longrightarrow> kp S c0 L (map_option (apfst f) m)"
  by (auto simp: kr_def)

lemma kp_handle_packet: "K S c0 L c \<Longrightarrow> kp S c0 L (handle_packet p timer c)"
  unfolding handle_packet_def
  by (rule kp_rules kp_apfst kp_handle_puback_packet kp_handle_suback_packet kp_handle_unsuback_packet
      kp_handle_publish_packet kp_handle_pubrec_packet | assumption)+

lemma kp_cycle_for_read: "K S c0 L c \<Longrightarrow> kp S c0 L (cycle_for_read timer p c)"
  unfolding cycle_for_read_def
  by (rule kp_rules kp_bind kp_bind_state kp_read_mqtt_packet kp_handle_packet kq_handle_pingresp_packet
      kq_unlock K_intros | assumption)+

end
