(* ===== verification/Mqtt_Session.thy ===== *)
theory Mqtt_Session
  imports Client_Frame
begin

text \<open>
  The operations of the client's interface: publish, subscribe, resubscribe, unsubscribe
  (\<^verbatim>\<open>mqtt_client_publish.c\<close>, \<^verbatim>\<open>mqtt_client_subscribe.c\<close>,
  \<^verbatim>\<open>mqtt_client_unsubscribe.c\<close>), connecting, reconnecting and disconnecting
  (\<^verbatim>\<open>mqtt_client_connect.c\<close>) and the yield loop with keep-alive and the supervision of
  outstanding requests (\<^verbatim>\<open>mqtt_client_yield.c\<close>), all under \<^verbatim>\<open>src/mqtt/src/\<close>.
\<close>

subsection \<open>Waiting for a packet\<close>

text \<open>
  The do-while loop of \<open>wait_for_read\<close>.  It ends because every round looks at the timer and
  \<open>cycle_for_read\<close> does not turn the clock back.
\<close>

lemma wait_step:
  assumes e: "has_expired timer c = (False, c1)" and r: "cycle_for_read timer q c1 = Some (x, c2)"
  shows "timer - clock c2 < timer - clock c"
proof -
  have "clock c < clock c1" "\<not> timer \<le> clock c1" using env_has_expired [OF e] by auto
  moreover have "clock c1 \<le> clock c2"
    using kp_cycle_for_read [OF K_refl [of "{}"], of c1 timer q] r by (simp add: kr_def K_clock)
  ultimately show ?thesis by linarith
qed

function wait_for_read_loop ::
  "byte \<Rightarrow> Timer \<Rightarrow> byte \<Rightarrow> UIoT_Client \<Rightarrow> (int \<times> UIoT_Client) option" where
  "wait_for_read_loop packet_type timer read_packet_type c = do {
     let (expired, c1) = has_expired timer c;
     if expired then Some (ERR_MQTT_REQUEST_TIMEOUT, c1)
     else do {
       (res, c2) \<leftarrow> cycle_for_read timer read_packet_type c1;
       if fst res = SUCCESS_RET \<and> snd res \<noteq> packet_type
       then wait_for_read_loop packet_type timer (snd res) c2
       else Some (fst res, c2) } }"
  by pat_completeness auto
termination
  by (relation "measure (\<lambda>(p, timer, q, c). timer - clock c)") (auto dest!: sym [of _ "has_expired _ _"] intro: wait_step)

declare wait_for_read_loop.simps [simp del]

definition wait_for_read :: "byte \<Rightarrow> Timer \<Rightarrow> UIoT_Client \<Rightarrow> (int \<times> UIoT_Client) option" where
  "wait_for_read packet_type timer c = wait_for_read_loop packet_type timer 0 c"

lemma kp_wait_for_read_loop: "K S c0 L c \<Longrightarrow> kp S c0 L (wait_for_read_loop p timer q c)"
proof (induction p timer q c rule: wait_for_read_loop.induct)
  case (1 p timer q c)
  obtain e c1 where e: "has_expired timer c = (e, c1)" by (metis surj_pair)
  have k1: "K S c0 L c1" using K_env [OF "1.prems"] env_has_expired [OF e] by blast
  note k2 = kp_cycle_for_read [OF k1, of timer q]
  note unf = wait_for_read_loop.simps [of p timer q c]
  show ?case
  proof (cases "e \<or> cycle_for_read timer q c1 = None")
    case True
    then show ?thesis using e k1 by (auto simp: unf kr_def)
  next
    case False
    then obtain r q' c2 where r: "cycle_for_read timer q c1 = Some ((r, q'), c2)" by auto
    with k2 have "K S c0 L c2" by (simp add: kr_def)
    with "1.IH" [OF e [symmetric] refl] False r e show ?thesis by (auto simp: unf kr_def)
  qed
qed

lemma kp_wait_for_read: "K S c0 L c \<Longrightarrow> kp S c0 L (wait_for_read p timer c)"
  unfolding wait_for_read_def by (rule kp_wait_for_read_loop)

subsection \<open>Publish\<close>

record PublishParams =
  pp_qos :: QoS
  pp_retained :: byte
  pp_id :: "16 word"
  pp_payload :: "bytes option"

text \<open>The result is the C return value with \<open>*pParams\<close>, whose \<open>id\<close> is set for QoS 1.\<close>

definition uiot_mqtt_publish ::
  "bytes \<Rightarrow> PublishParams \<Rightarrow> UIoT_Client \<Rightarrow> ((int \<times> PublishParams) \<times> UIoT_Client) option" where
  "uiot_mqtt_publish topicName pParams c =
     (if topicName = [] then Some ((ERR_PARAM_INVALID, pParams), c)
      else if length topicName > MAX_SIZE_OF_CLOUD_TOPIC then Some ((ERR_MAX_TOPIC_LENGTH, pParams), c)
      else if pp_qos pParams = QOS2 then Some ((ERR_MQTT_QOS_NOT_SUPPORT, pParams), c)
      else do {
        (connected, c) \<leftarrow> get_client_conn_state c;
        if \<not> connected then Some ((ERR_MQTT_NO_CONN, pParams), c)
        else do {
          let (timer, c) = countdown_ms (command_timeout_ms c) c;
          c \<leftarrow> HAL_MutexLock lock_write_buf c;
          (id, c) \<leftarrow> (if pp_qos pParams = QOS1 then get_next_packet_id c else Some (pp_id pParams, c));
          let pParams = pParams\<lparr>pp_id := id\<rparr>;
          r \<leftarrow> serialize_publish_packet (write_buf c) (write_buf_size c) 0 (pp_qos pParams)
                 (pp_retained pParams) id topicName (pp_payload pParams);
          case r of
            Inl ret \<Rightarrow> do { c \<leftarrow> HAL_MutexUnlock lock_write_buf c; Some ((ret, pParams), c) }
          | Inr (buf, n) \<Rightarrow> do {
              let c = c\<lparr>write_buf := buf\<rparr>;
              ((ret, node), c) \<leftarrow>
                (if pp_qos pParams > QOS0 then mask_push_pubInfo_to n id c else Some ((SUCCESS_RET, None), c));
              if ret \<noteq> SUCCESS_RET then do {
                c \<leftarrow> HAL_MutexUnlock lock_write_buf c; Some ((ret, pParams), c) }
              else do {
                (ret, c) \<leftarrow> send_mqtt_packet n timer c;
                if ret \<noteq> SUCCESS_RET then do {
                  c \<leftarrow> (if pp_qos pParams > QOS0 then do { a \<leftarrow> node; remove_pub_node a c } else Some c);
                  c \<leftarrow> HAL_MutexUnlock lock_write_buf c;
                  Some ((ret, pParams), c) }
                else do {
                  c \<leftarrow> HAL_MutexUnlock lock_write_buf c;
                  Some ((int (unat id), pParams), c) } } } } })"

subsection \<open>Subscribe\<close>

record SubscribeParams =
  sp_qos :: QoS
  sp_handler :: "nat option"
  sp_user_data :: nat

definition uiot_mqtt_subscribe ::
  "bytes \<Rightarrow> SubscribeParams \<Rightarrow> UIoT_Client \<Rightarrow> (int \<times> UIoT_Client) option" where
  "uiot_mqtt_subscribe topicFilter pParams c =
     (if topicFilter = [] then Some (ERR_PARAM_INVALID, c)
      else if length topicFilter > MAX_SIZE_OF_CLOUD_TOPIC then Some (ERR_MAX_TOPIC_LENGTH, c)
      else if sp_qos pParams = QOS2 then Some (ERR_MQTT_QOS_NOT_SUPPORT, c)
      else do {
        (connected, c) \<leftarrow> get_client_conn_state c;
        if \<not> connected then Some (ERR_MQTT_NO_CONN, c)
        else do {
          let (stored, c) = store_filter topicFilter c;
          if stored = None then Some (FAILURE_RET, c)
          else do {
            let (timer, c) = countdown_ms (command_timeout_ms c) c;
            c \<leftarrow> HAL_MutexLock lock_write_buf c;
            (packet_id, c) \<leftarrow> get_next_packet_id c;
            r \<leftarrow> serialize_subscribe_packet (write_buf c) (write_buf_size c) 0 packet_id 1
                   [topicFilter] [sp_qos pParams];
            case r of
              Inl ret \<Rightarrow> do {
                c \<leftarrow> HAL_MutexUnlock lock_write_buf c; c \<leftarrow> free_filter stored c; Some (ret, c) }
            | Inr (buf, n) \<Rightarrow> do {
                let c = c\<lparr>write_buf := buf\<rparr>;
                let sub_handle = \<lparr>topic_filter = stored, message_handler = sp_handler pParams,
                      message_handler_data = sp_user_data pParams, sub_qos = sp_qos pParams\<rparr>;
                ((ret, node), c) \<leftarrow> push_sub_info_to n packet_id SUBSCRIBE sub_handle c;
                if ret \<noteq> SUCCESS_RET then do {
                  c \<leftarrow> HAL_MutexUnlock lock_write_buf c; c \<leftarrow> free_filter stored c; Some (ret, c) }
                else do {
                  (ret, c) \<leftarrow> send_mqtt_packet n timer c;
                  if ret \<noteq> SUCCESS_RET then do {
                    a \<leftarrow> node; c \<leftarrow> remove_sub_node a c;
                    c \<leftarrow> HAL_MutexUnlock lock_write_buf c;
                    c \<leftarrow> free_filter stored c;
                    Some (ret, c) }
                  else do {
                    c \<leftarrow> HAL_MutexUnlock lock_write_buf c;
                    Some (int (unat packet_id), c) } } } } } })"

text \<open>The loop of \<open>uiot_mqtt_resubscribe\<close> over the handles from \<open>itr\<close> on.\<close>

function resubscribe_loop :: "nat \<Rightarrow> UIoT_Client \<Rightarrow> (int \<times> UIoT_Client) option" where
  "resubscribe_loop itr c =
     (if itr < MAX_SUB_TOPICS then do {
        h \<leftarrow> arr_get (sub_handles c) itr;
        case topic_filter h of
          None \<Rightarrow> resubscribe_loop (itr + 1) c
        | Some p \<Rightarrow> do {
            topic \<leftarrow> read_filter p c;
            (ret, c) \<leftarrow> uiot_mqtt_subscribe topic \<lparr>sp_qos = sub_qos h, sp_handler = message_handler h,
                          sp_user_data = message_handler_data h\<rparr> c;
            if ret < 0 then Some (ret, c) else resubscribe_loop (itr + 1) c } }
      else Some (SUCCESS_RET, c))"
  by pat_completeness auto
termination by (relation "measure (\<lambda>(itr, _). 10 - itr)") auto

declare resubscribe_loop.simps [simp del]

definition uiot_mqtt_resubscribe :: "UIoT_Client \<Rightarrow> (int \<times> UIoT_Client) option" where
  "uiot_mqtt_resubscribe c = do {
     (connected, c) \<leftarrow> get_client_conn_state c;
     if \<not> connected then Some (ERR_MQTT_NO_CONN, c) else resubscribe_loop 0 c }"

subsection \<open>Unsubscribe\<close>

text \<open>\<open>strstr(s, "xy") != NULL\<close> for a two-character needle.\<close>

fun strstr2 :: "byte \<Rightarrow> byte \<Rightarrow> bytes \<Rightarrow> bool" where
  "strstr2 x y [] = False"
| "strstr2 x y [c] = False"
| "strstr2 x y (c # d # s) = ((c = x \<and> d = y) \<or> strstr2 x y (d # s))"

text \<open>The first loop of \<open>uiot_mqtt_unsubscribe\<close>; the result is \<open>suber_exists\<close>.\<close>

function unsubscribe_loop :: "bytes \<Rightarrow> nat \<Rightarrow> bool \<Rightarrow> UIoT_Client \<Rightarrow> (bool \<times> UIoT_Client) option" where
  "unsubscribe_loop topicFilter i suber_exists c =
     (if i < MAX_SUB_TOPICS then do {
        h \<leftarrow> arr_get (sub_handles c) i;
        same \<leftarrow> (case topic_filter h of None \<Rightarrow> Some False
                | Some p \<Rightarrow> do { f \<leftarrow> read_filter p c; Some (f = topicFilter) });
        if same \<or> strstr2 SLASH HASH topicFilter \<or> strstr2 SLASH PLUS topicFilter then do {
          c \<leftarrow> free_filter (topic_filter h) c;
          let c = c\<lparr>sub_handles := (sub_handles c)[i := h\<lparr>topic_filter := None\<rparr>]\<rparr>;
          unsubscribe_loop topicFilter (i + 1) True c }
        else unsubscribe_loop topicFilter (i + 1) suber_exists c }
      else Some (suber_exists, c))"
  by pat_completeness auto
termination by (relation "measure (\<lambda>(_, i, _). 10 - i)") auto

declare unsubscribe_loop.simps [simp del]

definition uiot_mqtt_unsubscribe :: "bytes \<Rightarrow> UIoT_Client \<Rightarrow> (int \<times> UIoT_Client) option" where
  "uiot_mqtt_unsubscribe topicFilter c =
     (if topicFilter = [] then Some (ERR_PARAM_INVALID, c)
      else if length topicFilter > MAX_SIZE_OF_CLOUD_TOPIC then Some (ERR_MAX_TOPIC_LENGTH, c)
      else do {
        c \<leftarrow> HAL_MutexLock lock_generic c;
        (suber_exists, c) \<leftarrow> unsubscribe_loop topicFilter 0 False c;
        c \<leftarrow> HAL_MutexUnlock lock_generic c;
        if \<not> suber_exists then Some (ERR_MQTT_UNSUB_FAILED, c)
        else do {
          (connected, c) \<leftarrow> get_client_conn_state c;
          if \<not> connected then Some (ERR_MQTT_NO_CONN, c)
          else do {
            let (stored, c) = store_filter topicFilter c;
            if stored = None then Some (FAILURE_RET, c)
            else do {
              let (timer, c) = countdown_ms (command_timeout_ms c) c;
              c \<leftarrow> HAL_MutexLock lock_write_buf c;
              (packet_id, c) \<leftarrow> get_next_packet_id c;
              r \<leftarrow> serialize_unsubscribe_packet (write_buf c) (write_buf_size c) 0 packet_id 1 [topicFilter];
              case r of
                Inl ret \<Rightarrow> do {
                  c \<leftarrow> HAL_MutexUnlock lock_write_buf c; c \<leftarrow> free_filter stored c; Some (ret, c) }
              | Inr (buf, n) \<Rightarrow> do {
                  let c = c\<lparr>write_buf := buf\<rparr>;
                  let sub_handle = no_handle\<lparr>topic_filter := stored\<rparr>;
                  ((ret, node), c) \<leftarrow> push_sub_info_to n packet_id UNSUBSCRIBE sub_handle c;
                  if ret \<noteq> SUCCESS_RET then do {
                    c \<leftarrow> HAL_MutexUnlock lock_write_buf c; c \<leftarrow> free_filter stored c; Some (ret, c) }
                  else do {
                    (ret, c) \<leftarrow> send_mqtt_packet n timer c;
                    if ret \<noteq> SUCCESS_RET then do {
                      a \<leftarrow> node; c \<leftarrow> remove_sub_node a c;
                      c \<leftarrow> HAL_MutexUnlock lock_write_buf c;
                      c \<leftarrow> free_filter stored c;
                      Some (ret, c) }
                    else do {
                      c \<leftarrow> HAL_MutexUnlock lock_write_buf c;
                      Some (int (unat packet_id), c) } } } } } } })"

subsection \<open>Connect, reconnect, disconnect\<close>

text \<open>The last steps of \<open>_mqtt_connect\<close>, after an accepting CONNACK.\<close>

definition mark_connected :: "UIoT_Client \<Rightarrow> (int \<times> UIoT_Client) option" where
  "mark_connected c = do {
     c \<leftarrow> set_client_conn_state True c;
     c \<leftarrow> HAL_MutexLock lock_generic c;
     let c = c\<lparr>was_manually_disconnected := False, is_ping_outstanding := 0\<rparr>;
     let (t, c) = countdown (unat (keep_alive_interval (options c))) c;
     let c = c\<lparr>ping_timer := t\<rparr>;
     c \<leftarrow> HAL_MutexUnlock lock_generic c;
     Some (SUCCESS_RET, c) }"

text \<open>\<open>_mqtt_connect\<close> from the point on where the network connection is up.\<close>

definition connect_handshake :: "Timer \<Rightarrow> UIoT_Client \<Rightarrow> (int \<times> UIoT_Client) option" where
  "connect_handshake connect_timer c = do {
     c \<leftarrow> HAL_MutexLock lock_write_buf c;
     r \<leftarrow> serialize_connect_packet (write_buf c) (write_buf_size c) (options c);
     case r of
       Inl ret \<Rightarrow> do { c \<leftarrow> HAL_MutexUnlock lock_write_buf c; Some (ret, c) }
     | Inr (buf, n) \<Rightarrow> do {
         let c = c\<lparr>write_buf := buf\<rparr>;
         if n = 0 then do { c \<leftarrow> HAL_MutexUnlock lock_write_buf c; Some (SUCCESS_RET, c) }
         else do {
           (ret, c) \<leftarrow> send_mqtt_packet n connect_timer c;
           c \<leftarrow> HAL_MutexUnlock lock_write_buf c;
           if ret \<noteq> SUCCESS_RET then Some (ret, c)
           else do {
             (ret, c) \<leftarrow> wait_for_read (msg_code CONNACK) connect_timer c;
             if ret \<noteq> SUCCESS_RET then Some (ret, c)
             else do {
               r \<leftarrow> deserialize_connack_packet (read_buf c) (read_buf_size c);
               case r of
                 Inl ret \<Rightarrow> Some (ret, c)
               | Inr (sessionPresent, connack_rc) \<Rightarrow>
                   if connack_rc \<noteq> MQTT_CONNECTION_ACCEPTED then Some (connack_rc, c)
                   else mark_connected c } } } } }"

definition mqtt_connect :: "MQTTConnectParams \<Rightarrow> UIoT_Client \<Rightarrow> (int \<times> UIoT_Client) option" where
  "mqtt_connect opts c = do {
     let (connect_timer, c) = countdown_ms (command_timeout_ms c) c;
     let c = c\<lparr>options := copy_connect_params (options c) opts\<rparr>;
     let (ret, c) = utils_net_connect c;
     if ret \<noteq> SUCCESS_RET then Some (ret, c) else connect_handshake connect_timer c }"

definition net_disconnect :: "UIoT_Client \<Rightarrow> UIoT_Client" where
  "net_disconnect c = snd (utils_net_disconnect c)"

definition uiot_mqtt_connect :: "MQTTConnectParams \<Rightarrow> UIoT_Client \<Rightarrow> (int \<times> UIoT_Client) option" where
  "uiot_mqtt_connect pParams c = do {
     (connected, c) \<leftarrow> get_client_conn_state c;
     if connected then Some (MQTT_ALREADY_CONNECTED, c)
     else do {
       (ret, c) \<leftarrow> mqtt_connect pParams c;
       Some (ret, if ret \<noteq> SUCCESS_RET then net_disconnect c else c) } }"

definition uiot_mqtt_attempt_reconnect :: "UIoT_Client \<Rightarrow> (int \<times> UIoT_Client) option" where
  "uiot_mqtt_attempt_reconnect c = do {
     (connected, c) \<leftarrow> get_client_conn_state c;
     if connected then Some (MQTT_ALREADY_CONNECTED, c)
     else do {
       (ret, c) \<leftarrow> uiot_mqtt_connect (options c) c;
       (connected, c) \<leftarrow> get_client_conn_state c;
       if \<not> connected then Some (ret, c)
       else do {
         (ret, c) \<leftarrow> uiot_mqtt_resubscribe c;
         Some (if ret \<noteq> SUCCESS_RET then ret else MQTT_RECONNECTED, c) } } }"

text \<open>
  The steps of \<open>uiot_mqtt_disconnect\<close> up to the label \<open>end\<close>, under \<open>lock_write_buf\<close>: errors go
  to the label too, so there is no result but the state.
\<close>

definition send_disconnect :: "UIoT_Client \<Rightarrow> UIoT_Client option" where
  "send_disconnect c = do {
     r \<leftarrow> serialize_packet_with_zero_payload (write_buf c) (write_buf_size c) DISCONNECT;
     case r of
       Inl ret \<Rightarrow> Some c
     | Inr (buf, n) \<Rightarrow> do {
         let c = c\<lparr>write_buf := buf\<rparr>;
         let (timer, c) = countdown_ms (command_timeout_ms c) c;
         if n > 0 then do { (ret, c) \<leftarrow> send_mqtt_packet n timer c; Some c } else Some c } }"

definition uiot_mqtt_disconnect :: "UIoT_Client \<Rightarrow> (int \<times> UIoT_Client) option" where
  "uiot_mqtt_disconnect c = do {
     (connected, c) \<leftarrow> get_client_conn_state c;
     if \<not> connected then Some (ERR_MQTT_NO_CONN, c)
     else do {
       c \<leftarrow> HAL_MutexLock lock_write_buf c;
       c \<leftarrow> send_disconnect c;
       c \<leftarrow> HAL_MutexUnlock lock_write_buf c;
       let c = net_disconnect c;
       c \<leftarrow> set_client_conn_state False c;
       Some (SUCCESS_RET, c\<lparr>was_manually_disconnected := True\<rparr>) } }"

subsection \<open>Keep-alive and reconnection\<close>

definition handle_disconnect :: "UIoT_Client \<Rightarrow> (int \<times> UIoT_Client) option" where
  "handle_disconnect c = do {
     (connected, c) \<leftarrow> get_client_conn_state c;
     if \<not> connected then Some (ERR_MQTT_NO_CONN, c)
     else do {
       (ret, c) \<leftarrow> uiot_mqtt_disconnect c;
       c \<leftarrow> (if ret \<noteq> SUCCESS_RET then set_client_conn_state False (net_disconnect c) else Some c);
       let c = call_event_handler MQTT_EVENT_DISCONNECT c;
       Some (ERR_MQTT_NO_CONN, c\<lparr>was_manually_disconnected := False\<rparr>) } }"

definition handle_reconnect :: "UIoT_Client \<Rightarrow> (int \<times> UIoT_Client) option" where
  "handle_reconnect c = do {
     let (expired, c) = has_expired (reconnect_delay_timer c) c;
     if \<not> expired then Some (ERR_MQTT_ATTEMPTING_RECONNECT, c)
     else do {
       (ret, c) \<leftarrow> uiot_mqtt_attempt_reconnect c;
       if ret = MQTT_RECONNECTED then Some (ret, call_event_handler MQTT_EVENT_RECONNECT c)
       else do {
         let interval = (current_reconnect_wait_interval c * 2) mod 2 ^ 32;
         let interval = (if MAX_RECONNECT_WAIT_INTERVAL < interval then MAX_RECONNECT_WAIT_INTERVAL else interval);
         let c = c\<lparr>current_reconnect_wait_interval := interval\<rparr>;
         let (t, c) = countdown_ms interval c;
         let c = c\<lparr>reconnect_delay_timer := t\<rparr>;
         Some (ERR_MQTT_ATTEMPTING_RECONNECT, c) } } }"

text \<open>
  The do-while loop that sends the PINGREQ; \<open>tries\<close> counts how often it may still be repeated
  (\<open>i++ < 3\<close>).
\<close>

fun ping_loop :: "nat \<Rightarrow> nat \<Rightarrow> UIoT_Client \<Rightarrow> (int \<times> UIoT_Client) option" where
  "ping_loop n 0 c = do {
     let (timer, c) = countdown_ms (command_timeout_ms c) c;
     send_mqtt_packet n timer c }"
| "ping_loop n (Suc tries) c = do {
     let (timer, c) = countdown_ms (command_timeout_ms c) c;
     (ret, c) \<leftarrow> send_mqtt_packet n timer c;
     if ret \<noteq> SUCCESS_RET then ping_loop n tries c else Some (ret, c) }"

definition mqtt_keep_alive :: "UIoT_Client \<Rightarrow> (int \<times> UIoT_Client) option" where
  "mqtt_keep_alive c =
     (if keep_alive_interval (options c) = 0 then Some (SUCCESS_RET, c)
      else do {
        let (expired, c) = has_expired (ping_timer c) c;
        if \<not> expired then Some (SUCCESS_RET, c)
        else if is_ping_outstanding c \<ge> MQTT_PING_RETRY_TIMES then handle_disconnect c
        else do {
          c \<leftarrow> HAL_MutexLock lock_write_buf c;
          r \<leftarrow> serialize_packet_with_zero_payload (write_buf c) (write_buf_size c) PINGREQ;
          case r of
            Inl ret \<Rightarrow> do { c \<leftarrow> HAL_MutexUnlock lock_write_buf c; Some (ret, c) }
          | Inr (buf, n) \<Rightarrow> do {
              let c = c\<lparr>write_buf := buf\<rparr>;
              (ret, c) \<leftarrow> ping_loop n 3 c;
              if ret \<noteq> SUCCESS_RET then do {
                c \<leftarrow> HAL_MutexUnlock lock_write_buf c;
                handle_disconnect c }
              else do {
                c \<leftarrow> HAL_MutexUnlock lock_write_buf c;
                c \<leftarrow> HAL_MutexLock lock_generic c;
                let c = c\<lparr>is_ping_outstanding := (is_ping_outstanding c + 1) mod 256\<rparr>;
                let (t, c) = countdown (min 5 (unat (keep_alive_interval (options c)) div 2)) c;
                let c = c\<lparr>ping_timer := t\<rparr>;
                c \<leftarrow> HAL_MutexUnlock lock_generic c;
                Some (SUCCESS_RET, c) } } } })"

subsection \<open>The interface keeps what it should\<close>

lemma write_length:
  "mqtt_write_utf8_string p s = Some p' \<Longrightarrow> length (fst p') = length (fst p)"
  "mqtt_write_char p x = Some p' \<Longrightarrow> length (fst p') = length (fst p)"
  by (auto simp: put_simps dest: put_bytes_Some_length)

lemma subscribe_write_loop_length:
  "subscribe_write_loop p tf q k i = Some p' \<Longrightarrow> length (fst p') = length (fst p)"
proof (induction k arbitrary: p i)
  case (Suc k)
  then obtain t p1 r p2 where "mqtt_write_utf8_string p t = Some p1" "mqtt_write_char p1 r = Some p2"
    "subscribe_write_loop p2 tf q k (Suc i) = Some p'"
    by (auto simp: bind_eq_Some_conv)
  with Suc.IH [of p2 "Suc i"] write_length show ?case by simp
qed simp

lemma unsubscribe_write_loop_length:
  "unsubscribe_write_loop p tf k i = Some p' \<Longrightarrow> length (fst p') = length (fst p)"
proof (induction k arbitrary: p i)
  case (Suc k)
  then obtain t p1 where "mqtt_write_utf8_string p t = Some p1"
    "unsubscribe_write_loop p1 tf k (Suc i) = Some p'"
    by (auto simp: bind_eq_Some_conv)
  with Suc.IH [of p1 "Suc i"] write_length show ?case by simp
qed simp

lemma serialize_sub_keeps_length:
  "serialize_subscribe_packet buf n d i k tf q = Some (Inr (buf', m)) \<Longrightarrow> length buf' = length buf"
  "serialize_unsubscribe_packet buf n d i k tf = Some (Inr (buf', m)) \<Longrightarrow> length buf' = length buf"
  by (auto simp: serialize_subscribe_packet_def serialize_unsubscribe_packet_def put_fold bind_eq_Some_conv
      dest!: subscribe_write_loop_length unsubscribe_write_loop_length put_bytes_Some_length
      split: if_splits sum.splits)

lemma kp_store_filter:
  assumes k: "K S c0 L c" and f: "\<And>s c'. K S c0 L c' \<Longrightarrow> kr P (f s c')"
  shows "kr P (let (s, c') = store_filter x c in f s c')"
proof -
  obtain ok c1 where m: "HAL_Malloc c = (ok, c1)" by (metis surj_pair)
  have k1: "K S c0 L c1" by (rule K_malloc [OF k m])
  then have "K S c0 L (c1\<lparr>live := insert (next_addr c1) (live c1), next_addr := Suc (next_addr c1)\<rparr>)"
    by (rule K_same) (auto simp: shape_def limits_ok_def less_SucI intro: wl_ok_mono)
  with k1 f m show ?thesis by (simp add: store_filter_def)
qed

lemma kp_uiot_mqtt_publish: "K S c0 L c \<Longrightarrow> kp S c0 L (uiot_mqtt_publish t p c)"
  unfolding uiot_mqtt_publish_def
  by (rule kp_ser kp_rules kp_send_mqtt_packet kp_get_next_packet_id kp_get_client_conn_state
      kp_mask_push_pubInfo_to kp_bind kp_bind_state kq_if kq_remove_pub_node kq_Some K_intros
      | assumption | rule kp_opt kq_opt | (simp add: serialize_keeps_length; fail))+

lemma kp_uiot_mqtt_subscribe: "K S c0 L c \<Longrightarrow> kp S c0 L (uiot_mqtt_subscribe t p c)"
  unfolding uiot_mqtt_subscribe_def
  by (rule kp_ser kp_store_filter kp_rules kp_send_mqtt_packet kp_get_next_packet_id kp_get_client_conn_state
      kp_push_sub_info_to kp_bind kp_bind_state kq_remove_sub_node kq_free kq_Some K_intros
      | assumption | rule kp_opt kq_opt | (simp add: serialize_sub_keeps_length; fail))+

lemma kp_resubscribe_loop: "K S c0 L c \<Longrightarrow> kp S c0 L (resubscribe_loop i c)"
proof (induction i c rule: resubscribe_loop.induct)
  case (1 i c)
  note unf = resubscribe_loop.simps [of i c]
  consider "\<not> i < MAX_SUB_TOPICS \<or> arr_get (sub_handles c) i = None"
    | h where "i < MAX_SUB_TOPICS" "arr_get (sub_handles c) i = Some h" by blast
  then show ?case
  proof cases
    case 1
    then show ?thesis using "1.prems" by (auto simp: unf kp_Some kp_None)
  next
    case h: (2 h)
    show ?thesis
    proof (cases "topic_filter h")
      case None
      with "1.IH"(1) [OF h None "1.prems"] h show ?thesis by (simp add: unf)
    next
      case (Some p)
      let ?sp = "\<lparr>sp_qos = sub_qos h, sp_handler = message_handler h, sp_user_data = message_handler_data h\<rparr>"
      have "kp S c0 L (do { (ret, c) \<leftarrow> uiot_mqtt_subscribe topic ?sp c;
          if ret < 0 then Some (ret, c) else resubscribe_loop (i + 1) c })"
        if t: "read_filter p c = Some topic" for topic
      proof (cases "uiot_mqtt_subscribe topic ?sp c")
        case (Some x)
        obtain r c1 where x: "x = (r, c1)" by (cases x)
        have "K S c0 L c1"
          using kp_uiot_mqtt_subscribe [OF "1.prems", of topic ?sp] Some x by (simp add: kr_def)
        with "1.IH"(2) [OF h \<open>topic_filter h = Some p\<close> t Some x [symmetric]] Some x show ?thesis
          by (auto simp: kp_Some)
      qed (simp add: kp_None)
      with h Some show ?thesis by (cases "read_filter p c") (auto simp: unf kp_None)
    qed
  qed
qed

lemma kp_uiot_mqtt_resubscribe: "K S c0 L c \<Longrightarrow> kp S c0 L (uiot_mqtt_resubscribe c)"
  unfolding uiot_mqtt_resubscribe_def
  by (rule kp_rules kp_bind kp_get_client_conn_state kp_resubscribe_loop | assumption)+

lemma kp_unsubscribe_loop: "K S c0 L c \<Longrightarrow> kp S c0 L (unsubscribe_loop t i s c)"
proof (induction t i s c rule: unsubscribe_loop.induct)
  case (1 t i s c)
  note unf = unsubscribe_loop.simps [of t i s c]
  consider "\<not> i < MAX_SUB_TOPICS \<or> arr_get (sub_handles c) i = None"
    | h where "i < MAX_SUB_TOPICS" "arr_get (sub_handles c) i = Some h" by blast
  then show ?case
  proof cases
    case 1
    then show ?thesis using "1.prems" by (auto simp: unf kp_Some kp_None)
  next
    case h: (2 h)
    let ?same = "case topic_filter h of None \<Rightarrow> Some False
                | Some p \<Rightarrow> do { f \<leftarrow> read_filter p c; Some (f = t) }"
    show ?thesis
    proof (cases ?same)
      case None
      with h show ?thesis by (simp add: unf kp_None)
    next
      case (Some b)
      show ?thesis
      proof (cases "b \<or> strstr2 SLASH HASH t \<or> strstr2 SLASH PLUS t")
        case False
        with "1.IH"(2) [OF h Some False "1.prems"] h Some show ?thesis by (simp add: unf)
      next
        case True
        show ?thesis
        proof (cases "free_filter (topic_filter h) c")
          case None
          with h Some True show ?thesis by (simp add: unf kp_None)
        next
          case f: (Some c1)
          have "K S c0 L (c1\<lparr>sub_handles := (sub_handles c1)[i := h\<lparr>topic_filter := None\<rparr>]\<rparr>)"
            using K_upd(8) [OF K_free [OF "1.prems" f]] .
          from "1.IH"(1) [OF h Some True f refl this] h Some True f show ?thesis
            by (simp add: unf Let_def)
        qed
      qed
    qed
  qed
qed

lemma kp_uiot_mqtt_unsubscribe: "K S c0 L c \<Longrightarrow> kp S c0 L (uiot_mqtt_unsubscribe t c)"
  unfolding uiot_mqtt_unsubscribe_def
  by (rule kp_ser kp_store_filter kp_rules kp_send_mqtt_packet kp_get_next_packet_id kp_get_client_conn_state
      kp_push_sub_info_to kp_unsubscribe_loop kp_bind kp_bind_state kq_remove_sub_node kq_free kq_Some K_intros
      | assumption | rule kp_opt kq_opt | (simp add: serialize_sub_keeps_length; fail))+

subsection \<open>Connections\<close>

lemma K_net_connect:
  assumes "K S c0 L c" "HANDLE \<notin> S" "CONN \<notin> S" "SOUND \<notin> S" "utils_net_connect c = (r, c')"
  shows "K S c0 L c' \<and> (r = SUCCESS_RET \<longrightarrow> handle c' \<noteq> 0)"
  using assms
  by (auto simp: utils_net_connect_def HAL_TLS_Connect_def Let_def split: list.splits if_splits
      intro!: K_connection K_upd)

lemma net_disconnect_eq: "net_disconnect c = c\<lparr>handle := 0\<rparr>"
  by (simp add: net_disconnect_def utils_net_disconnect_def HAL_TLS_Disconnect_def Let_def)

lemma set_conn_state_eq: "set_client_conn_state b c =
    (if lock_generic \<in> held c then None else Some (c\<lparr>is_connected := b\<rparr>))"
  by (cases c) (auto simp: set_client_conn_state_def HAL_MutexLock_def HAL_MutexUnlock_def)

text \<open>Closing the connection before the flag is cleared is sound for the two steps together.\<close>

lemma kq_drop: "K S c0 L c \<Longrightarrow> HANDLE \<notin> S \<Longrightarrow> CONN \<notin> S \<Longrightarrow>
    kq S c0 L (set_client_conn_state False (net_disconnect c))"
  by (auto simp: ks_def net_disconnect_eq set_conn_state_eq conn_ok_def K_def shape_def limits_ok_def
      split: if_splits)

lemma get_conn_state_eq: "get_client_conn_state c =
    (if lock_generic \<in> held c then None else Some (is_connected c, c))"
  by (cases c) (auto simp: get_client_conn_state_def HAL_MutexLock_def HAL_MutexUnlock_def)

lemma kp_mark_connected:
  "K S c0 L c \<Longrightarrow> CONN \<notin> S \<Longrightarrow> SOUND \<notin> S \<Longrightarrow> kp S c0 L (mark_connected c)"
  "kr (\<lambda>r c'. r = SUCCESS_RET \<and> is_connected c') (mark_connected c)"
proof -
  show "K S c0 L c \<Longrightarrow> CONN \<notin> S \<Longrightarrow> SOUND \<notin> S \<Longrightarrow> kp S c0 L (mark_connected c)"
    unfolding mark_connected_def
    by (rule kp_rules kp_bind_state kq_set_client_conn_state K_intros | assumption)+
  have "kr (\<lambda>r c'. r = SUCCESS_RET \<and> is_connected c')
     (do { c \<leftarrow> HAL_MutexLock lock_generic c1;
       let c = c\<lparr>was_manually_disconnected := False, is_ping_outstanding := 0\<rparr>;
       let (t, c) = countdown (unat (keep_alive_interval (options c))) c;
       let c = c\<lparr>ping_timer := t\<rparr>;
       c \<leftarrow> HAL_MutexUnlock lock_generic c;
       Some (SUCCESS_RET, c) })" if c: "is_connected c1" for c1
  proof -
    have "kr (\<lambda>r c'. r = SUCCESS_RET \<and> K {CONN} c1 (held c1) c')
     (do { c \<leftarrow> HAL_MutexLock lock_generic c1;
       let c = c\<lparr>was_manually_disconnected := False, is_ping_outstanding := 0\<rparr>;
       let (t, c) = countdown (unat (keep_alive_interval (options c))) c;
       let c = c\<lparr>ping_timer := t\<rparr>;
       c \<leftarrow> HAL_MutexUnlock lock_generic c;
       Some (SUCCESS_RET, c) })"
      by (insert K_refl [of "{CONN}" c1], (rule kp_rules K_intros conjI refl | assumption)+)
    with c show ?thesis by (simp add: kr_def K_def)
  qed
  then show "kr (\<lambda>r c'. r = SUCCESS_RET \<and> is_connected c') (mark_connected c)"
    unfolding mark_connected_def set_conn_state_eq by (simp add: kp_None)
qed

lemma kp_connect_handshake:
  assumes "K S c0 L c" "CONN \<notin> S" "SOUND \<notin> S" shows "kp S c0 L (connect_handshake t c)"
  unfolding connect_handshake_def
  by (insert assms, (rule kp_ser kp_rules kp_send_mqtt_packet kp_wait_for_read kp_bind kp_bind_state
      kp_mark_connected(1) K_intros
      | assumption | rule kp_opt | (simp add: serialize_keeps_length; fail))+)

text \<open>The flag is only set together with the result that says so.\<close>

lemma connect_handshake_conn:
  "kr (\<lambda>r c'. r \<noteq> SUCCESS_RET \<longrightarrow> K {CONN} c (held c) c') (connect_handshake t c)"
proof -
  have mark: "kr (\<lambda>r c'. r \<noteq> SUCCESS_RET \<longrightarrow> K {CONN} c (held c) c') (mark_connected c1)" for c1
    using kp_mark_connected(2) [of c1] by (simp add: kr_def)
  show ?thesis unfolding connect_handshake_def
    by (insert K_refl [of "{CONN}" c],
        (rule mark impI kp_ser kp_rules kp_send_mqtt_packet kp_wait_for_read kp_bind kp_bind_state K_intros
      | assumption | rule kp_opt | (simp add: serialize_keeps_length; fail))+)
qed

lemma K_minus: "K S c0 L c \<Longrightarrow> K (S - {SOUND}) c0 L c"
  by (simp add: K_def)

lemma net_connect_conn: "utils_net_connect c = (r, c') \<Longrightarrow> is_connected c' = is_connected c"
  by (auto simp: utils_net_connect_def HAL_TLS_Connect_def Let_def split: list.splits)

text \<open>
  Connecting: from a client that is not connected, success leaves a handle to read from, and
  failure leaves the flag clear.
\<close>

lemma mqtt_connect_result:
  assumes k: "K S c0 L c" and S: "HANDLE \<notin> S" "CONN \<notin> S"
    and d: "\<not> is_connected c" and m: "mqtt_connect opts c = Some (r, c')"
  shows "K (S - {SOUND}) c0 L c' \<and> (r = SUCCESS_RET \<longrightarrow> handle c' \<noteq> 0) \<and> (r \<noteq> SUCCESS_RET \<longrightarrow> \<not> is_connected c')"
proof -
  obtain t c1 where t: "countdown_ms (command_timeout_ms c) c = (t, c1)" by (metis surj_pair)
  let ?c2 = "c1\<lparr>options := copy_connect_params (options c1) opts\<rparr>"
  obtain u c3 where u: "utils_net_connect ?c2 = (u, c3)" by (metis surj_pair)
  have "K (S - {SOUND}) c0 L ?c2" by (intro K_upd K_env [OF K_minus [OF k] env_countdown_ms [OF t]])
  then have k3: "K (S - {SOUND}) c0 L c3 \<and> (u = SUCCESS_RET \<longrightarrow> handle c3 \<noteq> 0)"
    by (rule K_net_connect) (use S u in auto)
  have d3: "\<not> is_connected c3"
    using net_connect_conn [OF u] env_client(1) [OF env_countdown_ms [OF t]] d by simp
  show ?thesis
  proof (cases "u = SUCCESS_RET")
    case False
    with m t u k3 d3 show ?thesis by (auto simp: mqtt_connect_def)
  next
    case True
    with m t u have h: "connect_handshake t c3 = Some (r, c')" by (simp add: mqtt_connect_def)
    have "K (S - {SOUND}) c0 L c'"
      using kp_connect_handshake [of "S - {SOUND}" c0 L c3 t] k3 S h by (simp add: kr_def)
    moreover have "handle c' = handle c3"
      using kp_connect_handshake [OF K_refl [of "{HANDLE}" c3], of t] h by (simp add: kr_def K_def)
    moreover have "r \<noteq> SUCCESS_RET \<longrightarrow> \<not> is_connected c'"
      using connect_handshake_conn [of c3 t] h d3 by (simp add: kr_def K_def)
    ultimately show ?thesis using k3 True by simp
  qed
qed

lemma kp_uiot_mqtt_connect:
  assumes k: "K S c0 L c" and S: "HANDLE \<notin> S" "CONN \<notin> S" shows "kp S c0 L (uiot_mqtt_connect opts c)"
proof (unfold kr_def, intro allI impI)
  fix r c'
  assume r: "uiot_mqtt_connect opts c = Some (r, c')"
  show "K S c0 L c'"
  proof (cases "is_connected c")
    case True
    with r k show ?thesis by (auto simp: uiot_mqtt_connect_def get_conn_state_eq split: if_splits)
  next
    case False
    with r obtain c4 where m: "mqtt_connect opts c = Some (r, c4)"
      and c': "c' = (if r \<noteq> SUCCESS_RET then net_disconnect c4 else c4)"
      by (auto simp: uiot_mqtt_connect_def get_conn_state_eq bind_eq_Some_conv split: if_splits)
    from mqtt_connect_result [OF k S False m] c' S show ?thesis
      by (auto simp: K_def net_disconnect_eq conn_ok_def shape_def limits_ok_def)
  qed
qed

lemma kp_uiot_mqtt_attempt_reconnect:
  "K S c0 L c \<Longrightarrow> HANDLE \<notin> S \<Longrightarrow> CONN \<notin> S \<Longrightarrow> kp S c0 L (uiot_mqtt_attempt_reconnect c)"
  unfolding uiot_mqtt_attempt_reconnect_def
  by (rule kp_rules kp_get_client_conn_state kp_uiot_mqtt_connect kp_uiot_mqtt_resubscribe kp_bind
      | assumption)+

end
