(* ===== verification/Mqtt_Yield.thy ===== *)
theory Mqtt_Yield
  imports Mqtt_Session
begin

text \<open>
  The yield loop of \<^verbatim>\<open>src/mqtt/src/mqtt_client_yield.c\<close>: receiving, keep-alive, reconnection
  and the supervision of the requests that wait for an acknowledgement.
\<close>

subsection \<open>Disconnecting, keep-alive and reconnecting keep what they should\<close>

lemma kq_ser:
  "K S c0 L c \<Longrightarrow> length buf = length (write_buf c) \<Longrightarrow> (\<And>c'. K S c0 L c' \<Longrightarrow> ks P (f c')) \<Longrightarrow>
   ks P (let c' = c\<lparr>write_buf := buf\<rparr> in f c')"
  by (simp add: K_write_buf)

lemma kq_bind: "kp S c0 L m \<Longrightarrow> (\<And>r c'. K S c0 L c' \<Longrightarrow> ks P (f r c')) \<Longrightarrow>
   ks P (Option.bind m (\<lambda>(r, c'). f r c'))"
  by (fastforce simp: kr_def ks_def bind_eq_Some_conv)

lemma kq_sum:
  "(\<And>e. r = Inl e \<Longrightarrow> ks P (f e)) \<Longrightarrow> (\<And>x. r = Inr x \<Longrightarrow> ks P (g x)) \<Longrightarrow>
   ks P (case r of Inl e \<Rightarrow> f e | Inr x \<Rightarrow> g x)"
  by (simp split: sum.split)

lemma kq_send_disconnect: "K S c0 L c \<Longrightarrow> kq S c0 L (send_disconnect c)"
  unfolding send_disconnect_def
  by (rule kq_ser kq_sum kq_rules kq_bind kp_send_mqtt_packet | assumption | rule kq_opt
      | (simp add: serialize_keeps_length; fail))+

lemma kp_drop:
  assumes "K {SOUND} c0 L c" "\<And>c'. K {SOUND} c0 L c' \<Longrightarrow> kr P (f c')"
  shows "kr P (let c' = net_disconnect c in Option.bind (set_client_conn_state False c') f)"
  using assms by (simp add: kp_bind_state [OF kq_drop])

lemma kp_uiot_mqtt_disconnect: "K {SOUND} c0 L c \<Longrightarrow> kp {SOUND} c0 L (uiot_mqtt_disconnect c)"
  unfolding uiot_mqtt_disconnect_def
  by (rule kp_drop kp_rules kp_get_client_conn_state kp_bind kp_bind_state [OF kq_send_disconnect] K_intros
      | assumption)+

lemma kp_handle_disconnect: "K {SOUND} c0 L c \<Longrightarrow> kp {SOUND} c0 L (handle_disconnect c)"
  unfolding handle_disconnect_def
  by (rule kp_rules kp_get_client_conn_state kp_uiot_mqtt_disconnect kp_bind kp_bind_state kq_if kq_Some
      kq_drop K_intros | assumption | (simp; fail))+

lemma kp_handle_reconnect: "K {SOUND} c0 L c \<Longrightarrow> kp {SOUND} c0 L (handle_reconnect c)"
  unfolding handle_reconnect_def
  by (rule kp_rules kp_uiot_mqtt_attempt_reconnect kp_bind K_intros K_interval | assumption | (simp; fail))+

lemma kp_ping_loop: "K S c0 L c \<Longrightarrow> kp S c0 L (ping_loop n k c)"
proof (induction k arbitrary: c)
  case 0
  show ?case unfolding ping_loop.simps
    by (insert "0.prems", (rule kp_time kp_send_mqtt_packet | assumption)+)
next
  case (Suc k)
  show ?case unfolding ping_loop.simps
    by (insert Suc.prems, (rule kp_rules kp_send_mqtt_packet kp_bind Suc.IH | assumption)+)
qed

lemma kp_mqtt_keep_alive: "K {SOUND} c0 L c \<Longrightarrow> kp {SOUND} c0 L (mqtt_keep_alive c)"
  unfolding mqtt_keep_alive_def
  by (rule kp_ser kp_rules kp_ping_loop kp_handle_disconnect kp_bind K_intros
      | assumption | rule kp_opt | (simp add: serialize_keeps_length; fail))+

subsection \<open>Requests that wait for an acknowledgement\<close>

text \<open>
  The loop of \<open>uiot_mqtt_pub_info_proc\<close> over the nodes from the tail.  The code unlinks a node
  after it has stepped to the next one; the model unlinks it at the end of its own round, which
  is the same, because nothing lies between.
\<close>

fun pub_info_loop :: "(nat \<times> UIoTPubInfo) list \<Rightarrow> UIoT_Client \<Rightarrow> UIoT_Client option" where
  "pub_info_loop [] c = Some c"
| "pub_info_loop ((a, repubInfo) # ns) c =
     (if pub_node_state repubInfo = MQTT_NODE_STATE_INVALID then do {
        l \<leftarrow> wl_remove (list_pub_wait_ack c) a;
        pub_info_loop ns (c\<lparr>list_pub_wait_ack := l\<rparr>) }
      else if \<not> is_connected c then pub_info_loop ns c
      else do {
        let (ms, c) = left_ms (pub_start_time repubInfo) c;
        if ms > 0 then pub_info_loop ns c
        else do {
          c \<leftarrow> HAL_MutexUnlock lock_list_pub c;
          let (t, c) = countdown_ms (command_timeout_ms c) c;
          c \<leftarrow> HAL_MutexLock lock_list_pub c;
          let c = call_event_handler (MQTT_EVENT_PUBLISH_TIMEOUT (pub_msg_id repubInfo)) c;
          l \<leftarrow> wl_remove (list_pub_wait_ack c) a;
          pub_info_loop ns (c\<lparr>list_pub_wait_ack := l\<rparr>) } })"

definition uiot_mqtt_pub_info_proc :: "UIoT_Client \<Rightarrow> UIoT_Client option" where
  "uiot_mqtt_pub_info_proc c = do {
     c \<leftarrow> HAL_MutexLock lock_list_pub c;
     if length (list_pub_wait_ack c) = 0 then HAL_MutexUnlock lock_list_pub c
     else do {
       let (ok, c) = HAL_Malloc c;
       if \<not> ok then HAL_MutexUnlock lock_list_pub c
       else do {
         c \<leftarrow> pub_info_loop (rev (list_pub_wait_ack c)) c;
         HAL_MutexUnlock lock_list_pub c } } }"

fun sub_info_loop :: "(nat \<times> UIoTSubInfo) list \<Rightarrow> UIoT_Client \<Rightarrow> UIoT_Client option" where
  "sub_info_loop [] c = Some c"
| "sub_info_loop ((a, sub_info) # ns) c =
     (if sub_node_state sub_info = MQTT_NODE_STATE_INVALID then do {
        l \<leftarrow> wl_remove (list_sub_wait_ack c) a;
        sub_info_loop ns (c\<lparr>list_sub_wait_ack := l\<rparr>) }
      else if \<not> is_connected c then sub_info_loop ns c
      else do {
        let (ms, c) = left_ms (sub_start_time sub_info) c;
        if ms > 0 then sub_info_loop ns c
        else do {
          let packet_id = sub_msg_id sub_info;
          let c = call_event_handler
            (if sub_type sub_info = SUBSCRIBE then MQTT_EVENT_SUBSCRIBE_TIMEOUT packet_id
             else MQTT_EVENT_UNSUBSCRIBE_TIMEOUT packet_id) c;
          c \<leftarrow> free_filter (topic_filter (sub_handler sub_info)) c;
          l \<leftarrow> wl_remove (list_sub_wait_ack c) a;
          sub_info_loop ns (c\<lparr>list_sub_wait_ack := l\<rparr>) } })"

definition uiot_mqtt_sub_info_proc :: "UIoT_Client \<Rightarrow> UIoT_Client option" where
  "uiot_mqtt_sub_info_proc c = do {
     c \<leftarrow> HAL_MutexLock lock_list_sub c;
     if length (list_sub_wait_ack c) = 0 then HAL_MutexUnlock lock_list_sub c
     else do {
       let (ok, c) = HAL_Malloc c;
       if \<not> ok then HAL_MutexUnlock lock_list_sub c
       else do {
         c \<leftarrow> sub_info_loop (rev (list_sub_wait_ack c)) c;
         HAL_MutexUnlock lock_list_sub c } } }"

lemma kq_bind_state:
  "kq S c0 L m \<Longrightarrow> (\<And>c'. K S c0 L c' \<Longrightarrow> ks P (f c')) \<Longrightarrow> ks P (Option.bind m f)"
  by (fastforce simp: ks_def bind_eq_Some_conv)

lemma kq_malloc:
  "K S c0 L c \<Longrightarrow> (\<And>r c'. K S c0 L c' \<Longrightarrow> ks P (f r c')) \<Longrightarrow>
   ks P (let (r, c') = HAL_Malloc c in f r c')"
  using K_malloc by (cases "HAL_Malloc c") auto

lemma kq_left_ms:
  "K S c0 L c \<Longrightarrow> (\<And>r c'. K S c0 L c' \<Longrightarrow> ks P (f r c')) \<Longrightarrow>
   ks P (let (r, c') = left_ms t c in f r c')"
  by (rule kq_tick; (assumption | erule env_left_ms | blast))

lemma kq_unlock_bind: "K S c0 (insert l L) c \<Longrightarrow> l \<notin> L \<Longrightarrow> (\<And>c'. K S c0 L c' \<Longrightarrow> ks P (f c')) \<Longrightarrow>
   ks P (Option.bind (HAL_MutexUnlock l c) f)"
  using K_unlock by (fastforce simp: ks_def bind_eq_Some_conv)

lemma kq_pub_info_loop:
  "K S c0 (insert lock_list_pub L) c \<Longrightarrow> lock_list_pub \<notin> L \<Longrightarrow>
   kq S c0 (insert lock_list_pub L) (pub_info_loop ns c)"
proof (induction ns arbitrary: c)
  case (Cons n ns)
  obtain a i where n: "n = (a, i)" by (cases n)
  show ?case unfolding n pub_info_loop.simps
    by (insert Cons.prems, (rule Cons.IH kq_left_ms kq_time kq_lock kq_unlock_bind kq_if kq_let K_intros
        | assumption | rule kq_opt)+)
qed (simp add: kq_Some)

lemma kq_uiot_mqtt_pub_info_proc: "K S c0 L c \<Longrightarrow> kq S c0 L (uiot_mqtt_pub_info_proc c)"
  unfolding uiot_mqtt_pub_info_proc_def
  by (rule kq_bind_state [OF kq_pub_info_loop] kq_lock kq_malloc kq_unlock kq_if | assumption)+

lemma kq_sub_info_loop:
  "K S c0 L c \<Longrightarrow> kq S c0 L (sub_info_loop ns c)"
proof (induction ns arbitrary: c)
  case (Cons n ns)
  obtain a i where n: "n = (a, i)" by (cases n)
  show ?case unfolding n sub_info_loop.simps
    by (insert Cons.prems, (rule Cons.IH kq_left_ms kq_if kq_let kq_bind_state [OF kq_free] K_intros
        | assumption | rule kq_opt)+)
qed (simp add: kq_Some)

lemma kq_uiot_mqtt_sub_info_proc: "K S c0 L c \<Longrightarrow> kq S c0 L (uiot_mqtt_sub_info_proc c)"
  unfolding uiot_mqtt_sub_info_proc_def
  by (rule kq_bind_state [OF kq_sub_info_loop] kq_lock kq_malloc kq_unlock kq_if | assumption)+

subsection \<open>The yield loop\<close>

text \<open>
  One round of the loop: whether it is left with \<open>break\<close>, the value of \<open>ret\<close>, and the state.
  The local \<open>packet_type\<close> is only written.
\<close>

definition yield_connected :: "Timer \<Rightarrow> UIoT_Client \<Rightarrow> (int \<times> UIoT_Client) option" where
  "yield_connected timer c = do {
     let c = HAL_SleepMs 10 c;
     ((ret, _), c) \<leftarrow> cycle_for_read timer 0 c;
     if ret = SUCCESS_RET then do {
       c \<leftarrow> uiot_mqtt_pub_info_proc c;
       c \<leftarrow> uiot_mqtt_sub_info_proc c;
       mqtt_keep_alive c }
     else if ret = ERR_SSL_READ_TIMEOUT \<or> ret = ERR_SSL_READ_FAILED
          \<or> ret = ERR_TCP_PEER_SHUTDOWN \<or> ret = ERR_TCP_READ_FAILED then handle_disconnect c
     else Some (if ret = FAILURE_RET then SUCCESS_RET else ret, c) }"

definition yield_round :: "Timer \<Rightarrow> UIoT_Client \<Rightarrow> ((bool \<times> int) \<times> UIoT_Client) option" where
  "yield_round timer c = do {
     (connected, c) \<leftarrow> get_client_conn_state c;
     if \<not> connected then
       if current_reconnect_wait_interval c > MAX_RECONNECT_WAIT_INTERVAL
       then Some ((True, ERR_MQTT_RECONNECT_TIMEOUT), c)
       else do { (ret, c) \<leftarrow> handle_reconnect c; Some ((False, ret), c) }
     else do {
       (ret, c) \<leftarrow> yield_connected timer c;
       if ret = ERR_MQTT_NO_CONN then do {
         let c = c\<lparr>counter_network_disconnected := (counter_network_disconnected c + 1) mod 2 ^ 32\<rparr>;
         if auto_connect_enable (options c) = 1 then do {
           let c = c\<lparr>current_reconnect_wait_interval := MIN_RECONNECT_WAIT_INTERVAL\<rparr>;
           let (t, c) = countdown_ms (current_reconnect_wait_interval c) c;
           let c = c\<lparr>reconnect_delay_timer := t\<rparr>;
           Some ((False, ERR_MQTT_ATTEMPTING_RECONNECT), c) }
         else Some ((True, ret), c) }
       else Some ((ret \<noteq> SUCCESS_RET, ret), c) } }"

lemma K_sleep: "K S c0 L c \<Longrightarrow> K S c0 L (HAL_SleepMs n c)"
  by (rule K_env [OF _ env_SleepMs])

lemma kp_yield_connected: "K {SOUND} c0 L c \<Longrightarrow> kp {SOUND} c0 L (yield_connected timer c)"
  unfolding yield_connected_def
  by (rule kp_let kp_if kp_Some kp_bind kp_bind_state kp_prod kp_prod_app kp_cycle_for_read kp_mqtt_keep_alive kp_handle_disconnect
      kq_uiot_mqtt_pub_info_proc kq_uiot_mqtt_sub_info_proc K_sleep | assumption)+

lemma kp_yield_round: "K {SOUND} c0 L c \<Longrightarrow> kp {SOUND} c0 L (yield_round timer c)"
  unfolding yield_round_def
  by (rule kp_rules kp_bind kp_get_client_conn_state kp_handle_reconnect kp_yield_connected K_intros K_interval
      | assumption | (simp; fail))+

function yield_loop :: "Timer \<Rightarrow> int \<Rightarrow> UIoT_Client \<Rightarrow> (int \<times> UIoT_Client) option" where
  "yield_loop timer ret c =
     (let (expired, c1) = has_expired timer c
      in if expired then Some (ret, c1)
         else do {
           (res, c2) \<leftarrow> yield_round timer c1;
           if fst res then Some (snd res, c2) else yield_loop timer (snd res) c2 })"
  by pat_completeness auto
termination
proof (relation "measure (\<lambda>(timer, ret, c). timer - clock c)", simp, clarsimp)
  fix timer :: Timer and r and c c1 c2 :: UIoT_Client
  assume e: "(False, c1) = has_expired timer c" and y: "yield_round timer c1 = Some ((False, r), c2)"
  have "clock c < clock c1" "\<not> timer \<le> clock c1" using env_has_expired [OF e [symmetric]] by auto
  moreover have "clock c1 \<le> clock c2"
    using kp_yield_round [OF K_refl, of c1 timer] y by (auto simp: kr_def dest: K_clock)
  ultimately show "timer - clock c2 < timer - clock c" by linarith
qed

declare yield_loop.simps [simp del]

definition uiot_mqtt_yield :: "nat \<Rightarrow> UIoT_Client \<Rightarrow> (int \<times> UIoT_Client) option" where
  "uiot_mqtt_yield timeout_ms c =
     (if timeout_ms = 0 then Some (ERR_PARAM_INVALID, c)
      else do {
        (connected, c) \<leftarrow> get_client_conn_state c;
        if \<not> connected \<and> was_manually_disconnected c then Some (MQTT_MANUALLY_DISCONNECTED, c)
        else do {
          (connected, c) \<leftarrow> get_client_conn_state c;
          if \<not> connected \<and> auto_connect_enable (options c) = 0 then Some (ERR_MQTT_NO_CONN, c)
          else do {
            let (timer, c) = countdown_ms timeout_ms c;
            yield_loop timer SUCCESS_RET c } } })"

lemma kp_yield_loop: "K {SOUND} c0 L c \<Longrightarrow> kp {SOUND} c0 L (yield_loop timer ret c)"
proof (induction timer ret c rule: yield_loop.induct)
  case (1 timer ret c)
  obtain e c1 where e: "has_expired timer c = (e, c1)" by (metis surj_pair)
  have k: "K {SOUND} c0 L c1" using K_env [OF "1.prems"] env_has_expired [OF e] by blast
  show ?case
  proof (cases "yield_round timer c1")
    case (Some x)
    obtain res c2 where x: "x = (res, c2)" by (cases x)
    have "K {SOUND} c0 L c2" using kp_yield_round [OF k, of timer] Some x by (simp add: kr_def)
    with "1.IH" [OF e [symmetric] refl _ Some x [symmetric]] Some k show ?thesis
      by (simp add: yield_loop.simps [of timer ret c] e x kp_Some)
  qed (use k in \<open>simp add: yield_loop.simps [of timer ret c] e kp_Some kp_None\<close>)
qed

lemma kp_uiot_mqtt_yield: "K {SOUND} c0 L c \<Longrightarrow> kp {SOUND} c0 L (uiot_mqtt_yield t c)"
  unfolding uiot_mqtt_yield_def
  by (rule kp_rules kp_bind kp_get_client_conn_state kp_yield_loop K_intros | assumption)+

end
