(* ===== verification/Mqtt_Api.thy ===== *)
theory Mqtt_Api
  imports Mqtt_Yield
begin

text \<open>
  The life of a client and the exported functions, \<^verbatim>\<open>src/mqtt/src/mqtt_client.c\<close>:
  \<open>uiot_mqtt_init\<close>, \<open>IOT_MQTT_Construct\<close>, \<open>IOT_MQTT_Destroy\<close>, the thin wrappers of the
  operations, the reconnect switch and counter, and \<open>IOT_MQTT_Dynamic_Register\<close>.
\<close>

abbreviation (input) UIOT_MQTT_TX_BUF_LEN :: nat where "UIOT_MQTT_TX_BUF_LEN \<equiv> 2048"
abbreviation (input) UIOT_MQTT_RX_BUF_LEN :: nat where "UIOT_MQTT_RX_BUF_LEN \<equiv> 2048"
abbreviation (input) STATIC_AUTH :: nat where "STATIC_AUTH \<equiv> 1"
abbreviation (input) DYNAMIC_AUTH :: nat where "DYNAMIC_AUTH \<equiv> 2"

definition str :: "string \<Rightarrow> bytes" where "str = map of_char"

record MQTTInitParams =
  product_sn :: "bytes option"
  device_sn :: "bytes option"
  product_secret :: "bytes option"
  device_secret :: "bytes option"
  command_timeout :: nat
  init_keep_alive_interval :: nat
  init_clean_session :: bool
  init_auto_connect_enable :: nat
  init_event_handler :: bool

text \<open>
  The static variables of \<^verbatim>\<open>mqtt_client_common.c\<close>, which outlive a client, and whether the
  build defines \<open>MQTT_CHECK_REPEAT_MSG\<close>.
\<close>

record Statics =
  st_check_repeat :: bool
  st_repeat_buf :: "16 word list"
  st_repeat_cnt :: nat

subsection \<open>Initialisation\<close>

text \<open>The client after \<open>memset(pClient, 0, sizeof(UIoT_Client))\<close>.\<close>

definition zero_client :: "Statics \<Rightarrow> world \<Rightarrow> UIoT_Client" where
  "zero_client st w =
     \<lparr>clock = clock w, ticks = ticks w, ssl_rx = ssl_rx w, ssl_tx = ssl_tx w, tls_up = tls_up w,
      mallocs = mallocs w, held = {}, handle = 0, wire = wire w,
      is_connected = False, was_manually_disconnected = False, is_ping_outstanding = 0,
      next_packet_id = 0, command_timeout_ms = 0, current_reconnect_wait_interval = 0,
      counter_network_disconnected = 0, write_buf_size = 0, read_buf_size = 0,
      write_buf = replicate UIOT_MQTT_TX_BUF_LEN 0, read_buf = replicate UIOT_MQTT_RX_BUF_LEN 0,
      list_pub_wait_ack = [], list_sub_wait_ack = [], event_handler = False,
      options = \<lparr>client_id = None, username = None, password = None, mqtt_version = 0,
                 keep_alive_interval = 0, clean_session = False, auto_connect_enable = 0\<rparr>,
      ping_timer = 0, reconnect_delay_timer = 0, sub_handles = replicate MAX_SUB_TOPICS no_handle,
      check_repeat_msg = st_check_repeat st, sg_repeat_packet_id_buf = st_repeat_buf st,
      current_packet_id_cnt = st_repeat_cnt st, live = {}, next_addr = 1, events = []\<rparr>"

text \<open>\<open>HAL_MutexCreate\<close> and \<open>list_new\<close> fail when the allocation does.\<close>

definition HAL_MutexCreate :: "UIoT_Client \<Rightarrow> bool \<times> UIoT_Client" where
  "HAL_MutexCreate = HAL_Malloc"

text \<open>The clamping also changes the caller's \<open>MQTTInitParams\<close>, to the value used here.\<close>

definition clamp_timeout :: "nat \<Rightarrow> nat" where
  "clamp_timeout t =
     (let t = (if t < MIN_COMMAND_TIMEOUT then MIN_COMMAND_TIMEOUT else t)
      in if t > MAX_COMMAND_TIMEOUT then MAX_COMMAND_TIMEOUT else t)"

definition uiot_mqtt_init :: "Statics \<Rightarrow> MQTTInitParams \<Rightarrow> world \<Rightarrow> (int \<times> UIoT_Client) option" where
  "uiot_mqtt_init st pParams w = do {
     let c = (zero_client st w)\<lparr>command_timeout_ms := clamp_timeout (command_timeout pParams),
               next_packet_id := 1, write_buf_size := UIOT_MQTT_TX_BUF_LEN,
               read_buf_size := UIOT_MQTT_RX_BUF_LEN, event_handler := init_event_handler pParams\<rparr>;
     let (ok, c) = HAL_MutexCreate c;
     if \<not> ok then Some (FAILURE_RET, c)
     else do {
       c \<leftarrow> set_client_conn_state False c;
       let (ok, c) = HAL_MutexCreate c;
       if \<not> ok then Some (FAILURE_RET, c)
       else do {
         let (ok, c) = HAL_MutexCreate c;
         if \<not> ok then Some (FAILURE_RET, c)
         else do {
           let (ok, c) = HAL_MutexCreate c;
           if \<not> ok then Some (FAILURE_RET, c)
           else do {
             let (ok, c) = HAL_Malloc c;
             if \<not> ok then Some (FAILURE_RET, c)
             else do {
               let c = c\<lparr>list_pub_wait_ack := []\<rparr>;
               let (ok, c) = HAL_Malloc c;
               if \<not> ok then Some (FAILURE_RET, c)
               else do {
                 let c = c\<lparr>list_sub_wait_ack := []\<rparr>;
                 let c = c\<lparr>handle := 0\<rparr>;
                 Some (SUCCESS_RET, c\<lparr>ping_timer := init_timer, reconnect_delay_timer := init_timer\<rparr>)
               } } } } } } }"

subsection \<open>Construction and destruction\<close>

text \<open>\<open>STRING_PTR_VALID_CHECK\<close>\<close>

definition string_valid :: "bytes option \<Rightarrow> bool" where
  "string_valid s = (case s of None \<Rightarrow> False | Some x \<Rightarrow> x \<noteq> [])"

definition digit :: "nat \<Rightarrow> byte" where "digit n = 48 + of_nat n"

text \<open>
  The password and the authentication mode; the outer option is the failure of its allocation.
\<close>

definition choose_password ::
  "MQTTInitParams \<Rightarrow> UIoT_Client \<Rightarrow> (bytes option \<times> nat) option \<times> UIoT_Client" where
  "choose_password pParams c =
     (case device_secret pParams of
        None \<Rightarrow>
          (case product_secret pParams of
             None \<Rightarrow> (Some (None, 0), c)
           | Some s \<Rightarrow> (let (ok, c) = HAL_Malloc c
                        in (if ok then Some (Some s, DYNAMIC_AUTH) else None, c)))
      | Some s \<Rightarrow> (let (ok, c) = HAL_Malloc c
                   in (if ok then Some (Some s, STATIC_AUTH) else None, c)))"

definition connect_params_of ::
  "bytes \<Rightarrow> bytes \<Rightarrow> MQTTInitParams \<Rightarrow> bytes option \<Rightarrow> nat \<Rightarrow> MQTTConnectParams" where
  "connect_params_of psn dsn pParams secret auth_mode = DEFAULT_MQTT_CONNECT_PARAMS\<lparr>
     client_id := Some (psn @ str ''.'' @ dsn),
     username := Some (psn @ str ''|'' @ dsn @ str ''|'' @ [digit auth_mode]),
     password := secret,
     keep_alive_interval := of_nat (init_keep_alive_interval pParams),
     clean_session := init_clean_session pParams,
     auto_connect_enable := init_auto_connect_enable pParams\<rparr>"

text \<open>
  The steps of \<open>IOT_MQTT_Construct\<close> after \<open>uiot_mqtt_init\<close>; the result says whether they all
  succeeded.
\<close>

definition connect_new ::
  "bytes \<Rightarrow> bytes \<Rightarrow> MQTTInitParams \<Rightarrow> UIoT_Client \<Rightarrow> (bool \<times> UIoT_Client) option" where
  "connect_new psn dsn pParams c = do {
     let (ok, c) = HAL_Malloc c;
     if \<not> ok then Some (False, c)
     else do {
       let (ok, c) = HAL_Malloc c;
       if \<not> ok then Some (False, c)
       else do {
         let (pw, c) = choose_password pParams c;
         case pw of
           None \<Rightarrow> Some (False, c)
         | Some (secret, auth_mode) \<Rightarrow> do {
             (ret, c) \<leftarrow> uiot_mqtt_connect (connect_params_of psn dsn pParams secret auth_mode) c;
             Some (ret = SUCCESS_RET, c) } } } }"

text \<open>The result is the client, or \<open>None\<close> for NULL, and the platform.\<close>

definition IOT_MQTT_Construct ::
  "Statics \<Rightarrow> MQTTInitParams \<Rightarrow> world \<Rightarrow> (UIoT_Client option \<times> world) option" where
  "IOT_MQTT_Construct st pParams w =
     (if \<not> string_valid (product_sn pParams) \<or> \<not> string_valid (device_sn pParams) then Some (None, w)
      else do {
        psn \<leftarrow> product_sn pParams;
        dsn \<leftarrow> device_sn pParams;
        let (ok, w) = HAL_Malloc w;
        if \<not> ok then Some (None, w)
        else do {
          (ret, c) \<leftarrow> uiot_mqtt_init st pParams w;
          if ret \<noteq> SUCCESS_RET then Some (None, world.truncate c)
          else do {
            (ok, c) \<leftarrow> connect_new psn dsn pParams c;
            Some (if ok then Some c else None, world.truncate c) } } })"

text \<open>
  \<open>IOT_MQTT_Destroy\<close>: the value returned and the client as it is when its memory is freed.
  Freeing a topic filter that is already free has no result.
\<close>

fun free_handles :: "SubTopicHandle list \<Rightarrow> UIoT_Client \<Rightarrow> UIoT_Client option" where
  "free_handles [] c = Some c"
| "free_handles (h # hs) c = do { c \<leftarrow> free_filter (topic_filter h) c; free_handles hs c }"

definition IOT_MQTT_Destroy :: "UIoT_Client \<Rightarrow> (int \<times> UIoT_Client) option" where
  "IOT_MQTT_Destroy c = do {
     (ret, c) \<leftarrow> uiot_mqtt_disconnect c;
     let c = (if check_repeat_msg c then reset_repeat_packet_id_buffer c else c);
     let c = c\<lparr>list_pub_wait_ack := [], list_sub_wait_ack := []\<rparr>;
     c \<leftarrow> free_handles (sub_handles c) c;
     Some (ret, c) }"

subsection \<open>Wrappers\<close>

definition IOT_MQTT_Yield :: "UIoT_Client option \<Rightarrow> nat \<Rightarrow> (int \<times> UIoT_Client option) option" where
  "IOT_MQTT_Yield pClient timeout_ms =
     (case pClient of
        None \<Rightarrow> Some (ERR_PARAM_INVALID, None)
      | Some c \<Rightarrow> map_option (apsnd Some) (uiot_mqtt_yield timeout_ms c))"

definition IOT_MQTT_Publish ::
  "UIoT_Client option \<Rightarrow> bytes \<Rightarrow> PublishParams \<Rightarrow> ((int \<times> PublishParams) \<times> UIoT_Client option) option"
  where
  "IOT_MQTT_Publish pClient topicName pParams =
     (case pClient of
        None \<Rightarrow> Some ((ERR_PARAM_INVALID, pParams), None)
      | Some c \<Rightarrow> map_option (apsnd Some) (uiot_mqtt_publish topicName pParams c))"

definition IOT_MQTT_Subscribe ::
  "UIoT_Client option \<Rightarrow> bytes \<Rightarrow> SubscribeParams \<Rightarrow> (int \<times> UIoT_Client option) option" where
  "IOT_MQTT_Subscribe pClient topicFilter pParams =
     (case pClient of
        None \<Rightarrow> Some (ERR_PARAM_INVALID, None)
      | Some c \<Rightarrow> map_option (apsnd Some) (uiot_mqtt_subscribe topicFilter pParams c))"

definition IOT_MQTT_Unsubscribe ::
  "UIoT_Client option \<Rightarrow> bytes \<Rightarrow> (int \<times> UIoT_Client option) option" where
  "IOT_MQTT_Unsubscribe pClient topicFilter =
     (case pClient of
        None \<Rightarrow> Some (ERR_PARAM_INVALID, None)
      | Some c \<Rightarrow> map_option (apsnd Some) (uiot_mqtt_unsubscribe topicFilter c))"

text \<open>
  The check of a NULL client returns an \<open>int\<close> error code from a function of type \<open>bool\<close>: true.
\<close>

definition IOT_MQTT_IsConnected :: "UIoT_Client option \<Rightarrow> (bool \<times> UIoT_Client option) option" where
  "IOT_MQTT_IsConnected pClient =
     (case pClient of
        None \<Rightarrow> Some (ERR_PARAM_INVALID \<noteq> 0, None)
      | Some c \<Rightarrow> map_option (apsnd Some) (get_client_conn_state c))"

definition uiot_mqtt_set_autoreconnect :: "bool \<Rightarrow> UIoT_Client \<Rightarrow> int \<times> UIoT_Client" where
  "uiot_mqtt_set_autoreconnect b c =
     (SUCCESS_RET, c\<lparr>options := (options c)\<lparr>auto_connect_enable := (if b then 1 else 0)\<rparr>\<rparr>)"

definition uiot_mqtt_is_autoreconnect_enabled :: "UIoT_Client option \<Rightarrow> bool" where
  "uiot_mqtt_is_autoreconnect_enabled pClient =
     (case pClient of
        None \<Rightarrow> ERR_PARAM_INVALID \<noteq> 0
      | Some c \<Rightarrow> auto_connect_enable (options c) = 1)"

text \<open>The counter is a \<open>uint32_t\<close> returned as an \<open>int\<close>.\<close>

definition uiot_mqtt_get_network_disconnected_count :: "UIoT_Client \<Rightarrow> int" where
  "uiot_mqtt_get_network_disconnected_count c = int_of_uint32 (counter_network_disconnected c)"

definition uiot_mqtt_reset_network_disconnected_count :: "UIoT_Client \<Rightarrow> int \<times> UIoT_Client" where
  "uiot_mqtt_reset_network_disconnected_count c =
     (SUCCESS_RET, c\<lparr>counter_network_disconnected := 0\<rparr>)"

subsection \<open>Dynamic registration\<close>

text \<open>
  \<open>HAL_Snprintf\<close> into a topic buffer of \<open>MAX_SIZE_OF_CLOUD_TOPIC\<close> bytes keeps at most 127
  characters.  The callback \<open>on_message_callback_get_device_secret\<close> is one of the message
  handlers; \<open>get_secret\<close> is its address.
\<close>

definition snprintf_topic :: "bytes \<Rightarrow> bytes" where
  "snprintf_topic s = take (MAX_SIZE_OF_CLOUD_TOPIC - 1) s"

definition register_topic :: "string \<Rightarrow> bytes \<Rightarrow> bytes \<Rightarrow> bytes" where
  "register_topic suffix psn dsn =
     snprintf_topic (str ''/$system/'' @ psn @ str ''/'' @ dsn @ str suffix)"

definition auth_msg :: bytes where
  "auth_msg = str ''{'' @ [34] @ str ''RequestID'' @ [34] @ str '':'' @ [34] @ str ''1'' @ [34] @ str ''}''"

text \<open>From the subscription on, up to the label \<open>end\<close>.\<close>

definition request_secret ::
  "nat \<Rightarrow> bytes \<Rightarrow> bytes \<Rightarrow> UIoT_Client \<Rightarrow> (int \<times> UIoT_Client) option" where
  "request_secret get_secret pub_name sub_name c = do {
     (ret, c) \<leftarrow> uiot_mqtt_subscribe sub_name
        \<lparr>sp_qos = QOS1, sp_handler = Some get_secret, sp_user_data = 0\<rparr> c;
     if ret \<le> 0 then Some (ret, c)
     else do {
       (_, c) \<leftarrow> uiot_mqtt_yield 200 c;
       (_, c) \<leftarrow> uiot_mqtt_publish pub_name
          \<lparr>pp_qos = QOS1, pp_retained = 0, pp_id = 0, pp_payload = Some auth_msg\<rparr> c;
       (ret, c) \<leftarrow> uiot_mqtt_yield 5000 c;
       if ret \<noteq> SUCCESS_RET then Some (ret, c)
       else do {
         (_, c) \<leftarrow> uiot_mqtt_unsubscribe sub_name c;
         uiot_mqtt_yield 200 c } } }"

definition IOT_MQTT_Dynamic_Register ::
  "nat \<Rightarrow> Statics \<Rightarrow> MQTTInitParams \<Rightarrow> world \<Rightarrow> (int \<times> world) option" where
  "IOT_MQTT_Dynamic_Register get_secret st pParams w = do {
     (client, w) \<leftarrow> IOT_MQTT_Construct st pParams w;
     case client of
       None \<Rightarrow> Some (FAILURE_RET, w)
     | Some c \<Rightarrow> do {
         psn \<leftarrow> product_sn pParams;
         dsn \<leftarrow> device_sn pParams;
         let (ok, c) = HAL_Malloc c;
         if \<not> ok then do { (_, c) \<leftarrow> IOT_MQTT_Destroy c; Some (FAILURE_RET, world.truncate c) }
         else do {
           let (ok, c) = HAL_Malloc c;
           if \<not> ok then do { (_, c) \<leftarrow> IOT_MQTT_Destroy c; Some (FAILURE_RET, world.truncate c) }
           else do {
             (ret, c) \<leftarrow> request_secret get_secret (register_topic ''/password'' psn dsn)
                          (register_topic ''/password_reply'' psn dsn) c;
             (_, c) \<leftarrow> IOT_MQTT_Destroy c;
             Some (ret, world.truncate c) } } } }"

end
