(* ===== verification/Client_Reach.thy ===== *)
theory Client_Reach
  imports Mqtt_Api
begin

text \<open>
  The states a client can be in: constructed by \<open>IOT_MQTT_Construct\<close>, then changed by calls of
  the interface in any order, while the platform (clock, network, allocator) moves freely.  The
  invariant of these states.
\<close>

definition statics_ok :: "Statics \<Rightarrow> bool" where
  "statics_ok st \<longleftrightarrow> length (st_repeat_buf st) = MQTT_MAX_REPEAT_BUF_LEN \<and> st_repeat_cnt st < MQTT_MAX_REPEAT_BUF_LEN"

inductive client_step :: "UIoT_Client \<Rightarrow> UIoT_Client \<Rightarrow> bool" where
  publish: "uiot_mqtt_publish topic pp c = Some (r, c') \<Longrightarrow> client_step c c'"
| subscribe: "uiot_mqtt_subscribe topic sp c = Some (ret, c') \<Longrightarrow> client_step c c'"
| unsubscribe: "uiot_mqtt_unsubscribe topic c = Some (ret, c') \<Longrightarrow> client_step c c'"
| resubscribe: "uiot_mqtt_resubscribe c = Some (ret, c') \<Longrightarrow> client_step c c'"
| connect: "uiot_mqtt_connect opts c = Some (ret, c') \<Longrightarrow> client_step c c'"
| reconnect: "uiot_mqtt_attempt_reconnect c = Some (ret, c') \<Longrightarrow> client_step c c'"
| disconnect: "uiot_mqtt_disconnect c = Some (ret, c') \<Longrightarrow> client_step c c'"
| yield: "uiot_mqtt_yield timeout_ms c = Some (ret, c') \<Longrightarrow> client_step c c'"
| autoreconnect: "client_step c (snd (uiot_mqtt_set_autoreconnect b c))"
| reset_count: "client_step c (snd (uiot_mqtt_reset_network_disconnected_count c))"
| platform: "clock c \<le> t \<Longrightarrow>
    client_step c (c\<lparr>clock := t, ticks := ts, ssl_rx := rx, ssl_tx := tx, tls_up := up, mallocs := ms\<rparr>)"

inductive reachable :: "UIoT_Client \<Rightarrow> bool" where
  constructed: "statics_ok st \<Longrightarrow> IOT_MQTT_Construct st pParams w = Some (Some c, w') \<Longrightarrow> reachable c"
| step: "reachable c \<Longrightarrow> client_step c c' \<Longrightarrow> reachable c'"

definition client_inv :: "UIoT_Client \<Rightarrow> bool" where
  "client_inv c \<longleftrightarrow> held c = {} \<and> limits_ok c \<and> conn_ok c \<and>
     length (write_buf c) = UIOT_MQTT_TX_BUF_LEN \<and> write_buf_size c = UIOT_MQTT_TX_BUF_LEN \<and>
     length (read_buf c) = UIOT_MQTT_RX_BUF_LEN \<and> read_buf_size c = UIOT_MQTT_RX_BUF_LEN \<and>
     length (sub_handles c) = MAX_SUB_TOPICS \<and>
     length (sg_repeat_packet_id_buf c) = MQTT_MAX_REPEAT_BUF_LEN \<and>
     MIN_COMMAND_TIMEOUT \<le> command_timeout_ms c \<and> command_timeout_ms c \<le> MAX_COMMAND_TIMEOUT"

lemma client_inv_K: "client_inv c0 \<Longrightarrow> K {SOUND} c0 {} c \<Longrightarrow> client_inv c"
  by (simp add: client_inv_def K_def shape_def)

lemma client_inv_refl: "client_inv c \<Longrightarrow> K S c {} c"
  using K_refl [of S c] by (simp add: client_inv_def)

lemma kp_client_inv: "client_inv c \<Longrightarrow> kp {SOUND} c {} m \<Longrightarrow> m = Some (r, c') \<Longrightarrow> client_inv c'"
  using client_inv_K by (simp add: kr_def)

lemma kp_plain_ops:
  assumes "K {SOUND} c0 L c"
  shows "client_step c c' \<Longrightarrow> K {SOUND} c0 L c'"
proof (induction rule: client_step.cases)
  case publish
  with krD [OF kp_uiot_mqtt_publish [OF assms]] show ?thesis by blast
next
  case subscribe
  with krD [OF kp_uiot_mqtt_subscribe [OF assms]] show ?thesis by blast
next
  case unsubscribe
  with krD [OF kp_uiot_mqtt_unsubscribe [OF assms]] show ?thesis by blast
next
  case resubscribe
  with krD [OF kp_uiot_mqtt_resubscribe [OF assms]] show ?thesis by blast
next
  case connect
  with krD [OF kp_uiot_mqtt_connect [OF assms, simplified]] show ?thesis by blast
next
  case reconnect
  with krD [OF kp_uiot_mqtt_attempt_reconnect [OF assms, simplified]] show ?thesis by blast
next
  case disconnect
  with krD [OF kp_uiot_mqtt_disconnect [OF assms]] show ?thesis by blast
next
  case yield
  with krD [OF kp_uiot_mqtt_yield [OF assms]] show ?thesis by blast
next
  case autoreconnect
  with assms show ?thesis by (simp add: uiot_mqtt_set_autoreconnect_def K_upd)
next
  case reset_count
  with assms show ?thesis by (simp add: uiot_mqtt_reset_network_disconnected_count_def K_upd)
next
  case (platform c1 t)
  have "K {SOUND} c0 (held c) c'"
    by (rule K_cong [of "{SOUND}" c0 L c]) (use platform assms in \<open>simp_all add: shape_def limits_ok_def\<close>)
  with assms show ?thesis by (simp add: K_def)
qed

lemma client_step_inv: "client_inv c \<Longrightarrow> client_step c c' \<Longrightarrow> client_inv c'"
  using client_inv_K kp_plain_ops [OF client_inv_refl] by blast

subsection \<open>A new client\<close>

definition fresh_client :: "Statics \<Rightarrow> MQTTInitParams \<Rightarrow> world \<Rightarrow> UIoT_Client" where
  "fresh_client st pParams w =
     (zero_client st w)\<lparr>command_timeout_ms := clamp_timeout (command_timeout pParams),
        next_packet_id := 1, write_buf_size := UIOT_MQTT_TX_BUF_LEN,
        read_buf_size := UIOT_MQTT_RX_BUF_LEN, event_handler := init_event_handler pParams\<rparr>"

lemma fresh_client_inv: "statics_ok st \<Longrightarrow> client_inv (fresh_client st p w)"
  by (simp add: fresh_client_def client_inv_def zero_client_def limits_ok_def wl_ok_def conn_ok_def
      statics_ok_def clamp_timeout_def Let_def)

lemma fresh_client_off: "\<not> is_connected (fresh_client st p w)"
  by (simp add: fresh_client_def zero_client_def)

text \<open>While the flag is clear, clearing it again or dropping the handle changes nothing.\<close>

lemma K_off:
  assumes "K {CONN, SOUND} c0 L c" "\<not> is_connected c0"
  shows "kq {CONN, SOUND} c0 L (set_client_conn_state False c)" "K {CONN, SOUND} c0 L (c\<lparr>handle := 0\<rparr>)"
  using assms
  by (auto simp: ks_def set_conn_state_eq K_def conn_ok_def shape_def limits_ok_def)

lemma K_empty_lists:
  "K S c0 L c \<Longrightarrow> K S c0 L (c\<lparr>list_pub_wait_ack := []\<rparr>)"
  "K S c0 L c \<Longrightarrow> K S c0 L (c\<lparr>list_sub_wait_ack := []\<rparr>)"
  by (erule K_same; simp add: shape_def limits_ok_def wl_ok_def)+

lemma kp_uiot_mqtt_init:
  "kp {CONN, SOUND} (fresh_client st p w) (held (fresh_client st p w)) (uiot_mqtt_init st p w)"
  unfolding uiot_mqtt_init_def HAL_MutexCreate_def fresh_client_def [symmetric]
  by (insert K_refl [of "{CONN, SOUND}" "fresh_client st p w"] fresh_client_off [of st p w],
      (rule kp_malloc kp_if kp_Some kp_bind_state kp_let K_off K_empty_lists K_upd | assumption)+)

lemma choose_password_K: "K S c0 L c \<Longrightarrow> choose_password p c = (x, c') \<Longrightarrow> K S c0 L c'"
  using K_malloc [of S c0 L c]
  by (auto simp: choose_password_def split: option.splits prod.splits)

lemma kp_choose_password:
  "K S c0 L c \<Longrightarrow> (\<And>r c'. K S c0 L c' \<Longrightarrow> kr P (f r c')) \<Longrightarrow>
   kr P (let (r, c') = choose_password p c in f r c')"
  using choose_password_K [of S c0 L c p] by (cases "choose_password p c") auto

lemma kp_connect_new: "K {SOUND} c0 L c \<Longrightarrow> kp {SOUND} c0 L (connect_new psn dsn p c)"
  unfolding connect_new_def
  by (rule kp_choose_password kp_malloc kp_if kp_Some kp_option kp_prod kp_let kp_bind
      kp_uiot_mqtt_connect | assumption | (simp; fail))+

lemma IOT_MQTT_Construct_inv:
  assumes st: "statics_ok st" and r: "IOT_MQTT_Construct st p w = Some (Some c, w')"
  shows "client_inv c"
proof -
  obtain ok w1 where m: "HAL_Malloc w = (ok, w1)" by (metis surj_pair)
  from r m obtain ret c1 psn dsn where
    i: "uiot_mqtt_init st p w1 = Some (ret, c1)" and n: "connect_new psn dsn p c1 = Some (True, c)"
    by (auto simp: IOT_MQTT_Construct_def bind_eq_Some_conv split: if_splits)
  let ?f = "fresh_client st p w1"
  have f: "client_inv ?f" by (rule fresh_client_inv [OF st])
  with krD [OF kp_uiot_mqtt_init i] have "K {SOUND} ?f {} c1" by (simp add: K_def client_inv_def)
  then have "client_inv c1" by (rule client_inv_K [OF f])
  with krD [OF kp_connect_new [OF client_inv_refl] n] show ?thesis by (blast intro: client_inv_K)
qed

lemma reachable_inv: "reachable c \<Longrightarrow> client_inv c"
  by (induction rule: reachable.induct) (blast intro: IOT_MQTT_Construct_inv client_step_inv)+

end
