(* ===== verification/Calm_IO.thy ===== *)
theory Calm_IO
  imports Client_Frame
begin

text \<open>
  Input and output on a calm platform, in which every clock reading takes one microsecond, every
  write and allocation succeeds and whole packets arrive: what the operations then do exactly.
\<close>

definition later :: "nat \<Rightarrow> 'a world_scheme \<Rightarrow> 'a world_scheme" where
  "later k w = w\<lparr>clock := clock w + k\<rparr>"

lemma later_simps [simp]:
  "clock (later k w) = clock w + k" "ticks (later k w) = ticks w" "ssl_rx (later k w) = ssl_rx w"
  "ssl_tx (later k w) = ssl_tx w" "tls_up (later k w) = tls_up w" "mallocs (later k w) = mallocs w"
  "held (later k w) = held w" "handle (later k w) = handle w" "wire (later k w) = wire w"
  "later j (later k w) = later (k + j) w"
  "ssl_rx_update f (later k w) = later k (ssl_rx_update f w)"
  "wire_update g (later k w) = later k (wire_update g w)"
  by (simp_all add: later_def)

lemma later_client [simp]:
  "is_connected (later k c) = is_connected c"
  "was_manually_disconnected (later k c) = was_manually_disconnected c"
  "is_ping_outstanding (later k c) = is_ping_outstanding c"
  "next_packet_id (later k c) = next_packet_id c"
  "command_timeout_ms (later k c) = command_timeout_ms c"
  "current_reconnect_wait_interval (later k c) = current_reconnect_wait_interval c"
  "counter_network_disconnected (later k c) = counter_network_disconnected c"
  "write_buf_size (later k c) = write_buf_size c"
  "read_buf_size (later k c) = read_buf_size c"
  "write_buf (later k c) = write_buf c"
  "read_buf (later k c) = read_buf c"
  "list_pub_wait_ack (later k c) = list_pub_wait_ack c"
  "list_sub_wait_ack (later k c) = list_sub_wait_ack c"
  "event_handler (later k c) = event_handler c"
  "options (later k c) = options c"
  "ping_timer (later k c) = ping_timer c"
  "reconnect_delay_timer (later k c) = reconnect_delay_timer c"
  "sub_handles (later k c) = sub_handles c"
  "check_repeat_msg (later k c) = check_repeat_msg c"
  "sg_repeat_packet_id_buf (later k c) = sg_repeat_packet_id_buf c"
  "current_packet_id_cnt (later k c) = current_packet_id_cnt c"
  "live (later k c) = live c"
  "next_addr (later k c) = next_addr c"
  "events (later k c) = events c"
  by (simp_all add: later_def)

lemma later_update [simp]:
  "is_connected_update f0 (later k c) = later k (is_connected_update f0 (c :: UIoT_Client))"
  "was_manually_disconnected_update f1 (later k c) = later k (was_manually_disconnected_update f1 (c :: UIoT_Client))"
  "is_ping_outstanding_update f2 (later k c) = later k (is_ping_outstanding_update f2 (c :: UIoT_Client))"
  "next_packet_id_update f3 (later k c) = later k (next_packet_id_update f3 (c :: UIoT_Client))"
  "command_timeout_ms_update f4 (later k c) = later k (command_timeout_ms_update f4 (c :: UIoT_Client))"
  "current_reconnect_wait_interval_update f5 (later k c) = later k (current_reconnect_wait_interval_update f5 (c :: UIoT_Client))"
  "counter_network_disconnected_update f6 (later k c) = later k (counter_network_disconnected_update f6 (c :: UIoT_Client))"
  "write_buf_size_update f7 (later k c) = later k (write_buf_size_update f7 (c :: UIoT_Client))"
  "read_buf_size_update f8 (later k c) = later k (read_buf_size_update f8 (c :: UIoT_Client))"
  "write_buf_update f9 (later k c) = later k (write_buf_update f9 (c :: UIoT_Client))"
  "read_buf_update f10 (later k c) = later k (read_buf_update f10 (c :: UIoT_Client))"
  "list_pub_wait_ack_update f11 (later k c) = later k (list_pub_wait_ack_update f11 (c :: UIoT_Client))"
  "list_sub_wait_ack_update f12 (later k c) = later k (list_sub_wait_ack_update f12 (c :: UIoT_Client))"
  "event_handler_update f13 (later k c) = later k (event_handler_update f13 (c :: UIoT_Client))"
  "options_update f14 (later k c) = later k (options_update f14 (c :: UIoT_Client))"
  "ping_timer_update f15 (later k c) = later k (ping_timer_update f15 (c :: UIoT_Client))"
  "reconnect_delay_timer_update f16 (later k c) = later k (reconnect_delay_timer_update f16 (c :: UIoT_Client))"
  "sub_handles_update f17 (later k c) = later k (sub_handles_update f17 (c :: UIoT_Client))"
  "check_repeat_msg_update f18 (later k c) = later k (check_repeat_msg_update f18 (c :: UIoT_Client))"
  "sg_repeat_packet_id_buf_update f19 (later k c) = later k (sg_repeat_packet_id_buf_update f19 (c :: UIoT_Client))"
  "current_packet_id_cnt_update f20 (later k c) = later k (current_packet_id_cnt_update f20 (c :: UIoT_Client))"
  "live_update f21 (later k c) = later k (live_update f21 (c :: UIoT_Client))"
  "next_addr_update f22 (later k c) = later k (next_addr_update f22 (c :: UIoT_Client))"
  "events_update f23 (later k c) = later k (events_update f23 (c :: UIoT_Client))"
  "held_update f24 (later k c) = later k (held_update f24 (c :: UIoT_Client))"
  "handle_update f25 (later k c) = later k (handle_update f25 (c :: UIoT_Client))"
  "ticks_update f26 (later k c) = later k (ticks_update f26 (c :: UIoT_Client))"
  "mallocs_update f27 (later k c) = later k (mallocs_update f27 (c :: UIoT_Client))"
  "tls_up_update f28 (later k c) = later k (tls_up_update f28 (c :: UIoT_Client))"
  "ssl_tx_update f29 (later k c) = later k (ssl_tx_update f29 (c :: UIoT_Client))"
  by (simp_all add: later_def)

subsection \<open>Timers\<close>

lemma gettimeofday_calm: "ticks w = [] \<Longrightarrow> gettimeofday w = (clock w + 1, later 1 w)"
  by (cases w) (simp add: gettimeofday_def later_def)

lemma timed_out_calm: "ticks w = [] \<Longrightarrow> timed_out t w \<longleftrightarrow> t \<le> clock w + 1"
  by (simp add: timed_out_def HAL_Timer_Expired_def gettimeofday_calm)

lemma clock_read_calm: "ticks w = [] \<Longrightarrow> clock_read w = later 1 w"
  by (simp add: clock_read_def gettimeofday_calm)

lemma has_expired_calm: "ticks w = [] \<Longrightarrow> has_expired t w = (t \<le> clock w + 1, later 1 w)"
  by (simp add: has_expired_def HAL_Timer_Expired_def gettimeofday_calm)

lemma countdown_ms_calm: "ticks w = [] \<Longrightarrow> countdown_ms ms w = (clock w + 1 + ms * 1000, later 1 w)"
proof -
  have "ms div 1000 * 1000000 + ms mod 1000 * 1000 = ms * 1000"
    using div_mult_mod_eq [of ms 1000] by linarith
  then show "ticks w = [] \<Longrightarrow> ?thesis"
    by (simp add: countdown_ms_def HAL_Timer_Countdown_ms_def gettimeofday_calm)
qed

lemma left_ms_calm:
  assumes "ticks w = []" "clock w + 1001 \<le> t" "t \<le> clock w + 1000000000"
  shows "left_ms t w = (int ((t - clock w - 1) div 1000), later 1 w)" "1 \<le> (t - clock w - 1) div 1000"
    "(t - clock w - 1) div 1000 < 2 ^ 31"
proof -
  show a: "1 \<le> (t - clock w - 1) div 1000" using assms(2) by linarith
  show b: "(t - clock w - 1) div 1000 < 2 ^ 31" using assms(3) by simp
  have "((t - clock w - 1) div 1000) mod 2 ^ 32 = (t - clock w - 1) div 1000" using b by simp
  then show "left_ms t w = (int ((t - clock w - 1) div 1000), later 1 w)"
    using assms b by (simp add: left_ms_def HAL_Timer_Remain_ms_def gettimeofday_calm int_of_uint32_def)
qed

lemma timer_left_calm:
  assumes "ticks c = []"
  shows "\<exists>ms. timer_left t c = (ms, later 1 c) \<and> 1 \<le> ms \<and> ms < 2 ^ 31"
proof -
  have "\<exists>i. left_ms t c = (i, later 1 c) \<and> i < 2 ^ 31"
    using assms
    by (auto simp: left_ms_def HAL_Timer_Remain_ms_def gettimeofday_calm int_of_uint32_def)
  then show ?thesis by (auto simp: timer_left_def)
qed

subsection \<open>Reading\<close>

text \<open>What is left of the incoming data when the front of the first chunk has been taken.\<close>

definition feed :: "bytes \<Rightarrow> ssl_result list \<Rightarrow> ssl_result list" where
  "feed bs es = (if bs = [] then es else SslData bs # es)"

lemma tls_read_calm:
  assumes "ticks w = []" "ssl_rx w = feed (bs @ rest) es" "bs \<noteq> []" "0 < timeout_ms"
  shows "HAL_TLS_Read (length bs) timeout_ms w =
    (int (length bs), bs, (later 2 w)\<lparr>ssl_rx := feed rest es\<rparr>)"
proof -
  let ?n = "length bs"
  let ?w1 = "later (Suc 0) w"
  let ?t = "Suc (clock w + timeout_ms * 1000)"
  have r: "mbedtls_ssl_read ?n ?w1 = (int ?n, bs, ?w1\<lparr>ssl_rx := feed rest es\<rparr>)"
    using assms(2,3) by (simp add: mbedtls_ssl_read_def feed_def min_def)
  have "\<not> timed_out ?t (later (Suc 0) (w\<lparr>ssl_rx := feed rest es\<rparr>))"
    using assms(1,4) by (simp add: timed_out_calm)
  moreover have "tls_read_loop ?t ?n bs w' = (int ?n, bs, w')" for w'
    by (simp add: tls_read_loop.simps)
  ultimately have "tls_read_loop ?t ?n [] ?w1 = (int ?n, bs, (later 2 w)\<lparr>ssl_rx := feed rest es\<rparr>)"
    using assms(1,3) by (simp add: tls_read_loop.simps [of ?t ?n "[]"] r clock_read_calm numeral_2_eq_2)
  then show ?thesis
    using countdown_ms_calm [OF assms(1), of timeout_ms]
    by (simp add: HAL_TLS_Read_def countdown_ms_def)
qed

lemma net_read_calm:
  assumes "ticks c = []" "handle c \<noteq> 0" "ssl_rx c = feed (bs @ rest) es" "bs \<noteq> []" "0 < t" "t < 2 ^ 32"
    and "pos + length bs \<le> length (read_buf c)"
  shows "net_read pos (length bs) t c =
    Some (int (length bs), (later 2 c)\<lparr>ssl_rx := feed rest es,
      read_buf := take pos (read_buf c) @ bs @ drop (pos + length bs) (read_buf c)\<rparr>)"
proof -
  have "0 < uint32_of_int t" using assms(5,6) by (simp add: uint32_of_int_def)
  from tls_read_calm [OF assms(1,3,4) this] assms(2,7) show ?thesis
    by (simp add: net_read_def utils_net_read_def put_bytes_def)
qed

lemma decode_rem_len_net_calm:
  assumes "ticks c = []" "handle c \<noteq> 0" "ssl_rx c = feed (rem_len_bytes m @ rest) es" "0 < t" "t < 2 ^ 32"
    and "n + length (rem_len_bytes m) \<le> 4"
  shows "decode_rem_len_net t mult n v c =
    Some ((SUCCESS_RET, v + m * mult), (later (2 * length (rem_len_bytes m)) c)\<lparr>ssl_rx := feed rest es\<rparr>)"
  using assms
proof (induction m arbitrary: c mult n v rule: rem_len_bytes.induct)
  case (1 m)
  note unf = rem_len_bytes.simps [of m]
  have pos: "0 < uint32_of_int t" using "1.prems"(4,5) by (simp add: uint32_of_int_def)
  show ?case
  proof (cases "m div 128 > 0")
    case True
    define b where "b = (word_of_nat (m mod 128) :: byte) OR 0x80"
    let ?bs = "rem_len_bytes (m div 128)"
    have b: "b AND 128 \<noteq> 0" "unat (b AND 127) = m mod 128"
      unfolding b_def by (rule or_128_and_128, rule digit_value_more) simp
    have u: "rem_len_bytes m = b # ?bs" using True by (simp add: unf b_def)
    let ?c1 = "later 2 (c\<lparr>ssl_rx := feed (?bs @ rest) es\<rparr>)"
    have r: "utils_net_read (Suc 0) (uint32_of_int t) c = Some (1, [b], ?c1)"
      using tls_read_calm [OF "1.prems"(1), of "[b]" "?bs @ rest" es, OF _ _ pos] "1.prems"(2,3) u
      by (simp add: utils_net_read_def)
    have ih: "decode_rem_len_net t (mult * 128) (Suc n) (v + m mod 128 * mult) ?c1 =
      Some ((SUCCESS_RET, v + m mod 128 * mult + m div 128 * (mult * 128)),
        (later (2 * length ?bs) ?c1)\<lparr>ssl_rx := feed rest es\<rparr>)"
      by (rule "1.IH" [OF True]) (use "1.prems" u in simp_all)
    have e: "v + m mod 128 * mult + m div 128 * (mult * 128) = v + m * mult"
    proof -
      have "m mod 128 * mult + m div 128 * (mult * 128) = (m div 128 * 128 + m mod 128) * mult"
        by (simp only: add_mult_distrib add_mult_distrib2 ac_simps)
      then show ?thesis by (simp only: div_mult_mod_eq add.assoc)
    qed
    from ih e show ?thesis
      using "1.prems"(6) u
      by (simp add: decode_rem_len_net.simps [of t mult n v c] r arr_get_def b)
  next
    case False
    then have m: "m < 128" "rem_len_bytes m = [word_of_nat m]" by (auto simp: unf)
    define b where "b = (word_of_nat m :: byte)"
    have b: "b AND 128 = 0" "unat (b AND 127) = m" "rem_len_bytes m = [b]"
      using m digit_and_128 digit_value by (auto simp: b_def)
    have r: "utils_net_read (Suc 0) (uint32_of_int t) c = Some (1, [b], (later 2 c)\<lparr>ssl_rx := feed rest es\<rparr>)"
      using tls_read_calm [OF "1.prems"(1), of "[b]" rest es, OF _ _ pos] "1.prems"(2,3) b
      by (simp add: utils_net_read_def)
    show ?thesis
      using "1.prems"(6) b
      by (simp add: decode_rem_len_net.simps [of t mult n v c] r arr_get_def)
  qed
qed

text \<open>Receiving one whole packet.\<close>

lemma read_mqtt_packet_calm:
  assumes c: "ticks c = []" "handle c \<noteq> 0" "ssl_rx c = SslData (frame h body @ rest) # es"
    and b: "length (read_buf c) = read_buf_size c" "length body < 268435456"
      "length (frame h body) \<le> read_buf_size c"
  shows "\<exists>k\<le>20. read_mqtt_packet timer p c = Some ((SUCCESS_RET, header_type h),
    (later k c)\<lparr>ssl_rx := feed rest es,
       read_buf := frame h body @ drop (length (frame h body)) (read_buf c)\<rparr>)"
proof -
  let ?rl = "rem_len_bytes (length body)"
  have "?rl \<noteq> []" by (subst rem_len_bytes.simps) simp
  then have rl: "?rl \<noteq> []" "length ?rl \<le> 4" "length (frame h body) = 1 + length ?rl + length body"
    using b(2) by (auto simp: length_rem_len_bytes frame_def)
  obtain t1 where t1: "timer_left timer c = (t1, later 1 c)" "0 < t1" "t1 < 2 ^ 32"
    using timer_left_calm [OF c(1)] by force
  define c2 where "c2 = (later 3 c)\<lparr>ssl_rx := feed (?rl @ body @ rest) es, read_buf := h # drop 1 (read_buf c)\<rparr>"
  have r2: "net_read 0 1 t1 (later 1 c) = Some (1, c2)"
    using net_read_calm [of "later 1 c" "[h]" "?rl @ body @ rest" es t1 0] c b t1 rl
    by (simp add: c2_def feed_def frame_def numeral_3_eq_3)
  have c2: "ticks c2 = []" "handle c2 \<noteq> 0" "read_buf_size c2 = read_buf_size c"
    "length (read_buf c2) = read_buf_size c"
    using c b rl by (auto simp: c2_def)
  obtain t2 where t2: "timer_left timer c2 = (t2, later 1 c2)" "1 \<le> t2" "t2 < 2 ^ 31"
    using timer_left_calm [OF c2(1)] by blast
  define c3 where "c3 = (later (1 + 2 * length ?rl) c2)\<lparr>ssl_rx := feed (body @ rest) es\<rparr>"
  have r3: "decode_rem_len_net (t2 + UIOT_MQTT_MAX_REMAIN_WAIT_MS) 1 0 0 (later 1 c2) =
      Some ((SUCCESS_RET, length body), c3)"
    using decode_rem_len_net_calm [of "later 1 c2" "length body" "body @ rest" es
        "t2 + UIOT_MQTT_MAX_REMAIN_WAIT_MS" 0 1 0] c2 t2 rl
    by (simp add: c3_def c2_def)
  define c4 where "c4 = c3\<lparr>read_buf := h # ?rl @ drop (1 + length ?rl) (read_buf c)\<rparr>"
  have r4: "mqtt_write_packet_rem_len (read_buf c3, 1) (length body) =
      Some (h # ?rl @ drop (1 + length ?rl) (read_buf c), 1 + length ?rl)"
    using b rl c2 by (simp add: write_rem_len_put put_bytes_def c3_def c2_def)
  have c4: "ticks c4 = []" "handle c4 \<noteq> 0" "read_buf_size c4 = read_buf_size c"
    "length (read_buf c4) = read_buf_size c"
    using c2 b rl by (auto simp: c4_def c3_def)
  have small: "\<not> read_buf_size c3 \<le> length body" "\<not> read_buf_size c3 < 1 + length ?rl + length body"
    using b rl c4 by (auto simp: c4_def)
  obtain t3 where t3: "timer_left timer c4 = (t3, later 1 c4)" "1 \<le> t3" "t3 < 2 ^ 31"
    using timer_left_calm [OF c4(1)] by blast
  show ?thesis
  proof (cases "body = []")
    case True
    have "read_mqtt_packet timer p c = Some ((SUCCESS_RET, header_type h), c4)"
    proof -
      define m where "m = length body"
      have z: "(0 < m) = False" using True by (simp add: m_def)
      have g: "arr_get (h # xs) 0 = Some h" for xs by (simp add: arr_get_def)
      show ?thesis
        using small(1) [folded m_def]
        by (simp add: read_mqtt_packet_def t1(1) r2 t2(1) r3 [folded m_def] r4 [folded m_def]
            c4_def [folded m_def, symmetric] g z del: One_nat_def)
    qed
    moreover have "c4 = (later (4 + 2 * length ?rl) c)\<lparr>ssl_rx := feed rest es,
        read_buf := frame h body @ drop (length (frame h body)) (read_buf c)\<rparr>"
      using True by (simp add: c4_def c3_def c2_def frame_def later_def)
    ultimately show ?thesis using rl(2) by (intro exI [of _ "4 + 2 * length ?rl"]) simp
  next
    case False
    define c5 where "c5 = (later 3 c4)\<lparr>ssl_rx := feed rest es, read_buf := h # ?rl @ body @ drop (1 + length ?rl + length body) (read_buf c)\<rparr>"
    have r5: "net_read (1 + length ?rl) (length body) (t3 + UIOT_MQTT_MAX_REMAIN_WAIT_MS) (later 1 c4) =
        Some (int (length body), c5)"
      using net_read_calm [of "later 1 c4" body rest es "t3 + UIOT_MQTT_MAX_REMAIN_WAIT_MS" "1 + length ?rl"]
        c4 b rl t3 False
      by (simp add: c5_def c4_def c3_def numeral_3_eq_3 add.commute)
    have "read_mqtt_packet timer p c = Some ((SUCCESS_RET, header_type h), c5)"
    proof -
      define m where "m = length body"
      have z: "(0 < m) = True" using False by (simp add: m_def)
      have g: "arr_get (read_buf c5) 0 = Some h" by (simp add: arr_get_def c5_def)
      show ?thesis
        using small [folded m_def] z
        by (simp add: read_mqtt_packet_def t1(1) r2 t2(1) r3 [folded m_def] r4 [folded m_def]
            c4_def [folded m_def, symmetric] t3(1) r5 [folded m_def] g z del: One_nat_def)
    qed
    moreover have "c5 = (later (7 + 2 * length ?rl) c)\<lparr>ssl_rx := feed rest es,
        read_buf := frame h body @ drop (length (frame h body)) (read_buf c)\<rparr>"
      by (simp add: c5_def c4_def c3_def c2_def frame_def later_def add.commute)
    ultimately show ?thesis using rl(2) by (intro exI [of _ "7 + 2 * length ?rl"]) simp
  qed
qed

subsection \<open>Sending\<close>

lemma tls_write_calm:
  assumes "ticks w = []" "ssl_tx w = []" "0 < timeout_ms" "bs \<noteq> []"
  shows "HAL_TLS_Write bs timeout_ms w = (int (length bs), (later 3 w)\<lparr>wire := wire w @ bs\<rparr>)"
proof -
  let ?t = "Suc (clock w + timeout_ms * 1000)"
  have t: "\<not> timed_out ?t (later (Suc 0) w)" "\<not> timed_out ?t (later (Suc (Suc 0)) w)"
    using assms(1,3) by (simp_all add: timed_out_calm)
  have wr: "mbedtls_ssl_write bs (later 3 w) = (int (length bs), (later 3 w)\<lparr>wire := wire w @ bs\<rparr>)"
    using assms(2) by (simp add: mbedtls_ssl_write_def)
  have "tls_write_try ?t bs 0 (later (Suc (Suc 0)) w) = (Some (int (length bs)), (later 3 w)\<lparr>wire := wire w @ bs\<rparr>)"
    using assms(1,4) wr
    by (simp add: tls_write_try.simps [of ?t bs 0] t clock_read_calm numeral_3_eq_3)
  moreover have "tls_write_loop ?t bs (int (length bs)) rc w' = (int (length bs), w')" for rc w'
    by (simp add: tls_write_loop.simps)
  ultimately have "tls_write_loop ?t bs 0 0 (later (Suc 0) w) =
      (int (length bs), (later 3 w)\<lparr>wire := wire w @ bs\<rparr>)"
    using assms(1,4) by (simp add: tls_write_loop.simps [of ?t bs 0 0] t clock_read_calm)
  then show ?thesis
    using countdown_ms_calm [OF assms(1), of timeout_ms]
    by (simp add: HAL_TLS_Write_def countdown_ms_def)
qed

text \<open>
  A timer that has between a millisecond and a quarter of an hour left.
\<close>

definition running :: "Timer \<Rightarrow> 'a world_scheme \<Rightarrow> bool" where
  "running timer w \<longleftrightarrow> clock w + 2000 \<le> timer \<and> timer \<le> clock w + 1000000000"

lemma send_mqtt_packet_calm:
  assumes c: "ticks c = []" "ssl_tx c = []" "handle c \<noteq> 0" and t: "running timer c"
    and n: "n < write_buf_size c" "n \<le> length (write_buf c)" "0 < n"
  shows "send_mqtt_packet n timer c =
    Some (SUCCESS_RET, (later 5 c)\<lparr>wire := wire c @ take n (write_buf c)\<rparr>)"
proof -
  let ?ms = "(timer - clock c - 1 - 1) div 1000"
  have e: "has_expired timer c = (False, later (Suc 0) c)"
    using has_expired_calm [OF c(1), of timer] t by (simp add: running_def)
  have l: "left_ms timer (later (Suc 0) c) = (int ?ms, later (Suc (Suc 0)) c)" "1 \<le> ?ms" "?ms < 2 ^ 31"
    using left_ms_calm [of "later (Suc 0) c" timer] c(1) t by (simp_all add: running_def)
  have u: "uint32_of_int (int ?ms) = ?ms"
    using l(3) by (simp add: uint32_of_int_def nat_mod_as_int del: of_nat_div)
  have "take n (write_buf c) \<noteq> []" using n by auto
  then have w: "utils_net_write (take n (write_buf c)) ?ms (later (Suc (Suc 0)) c) =
      Some (int n, (later 5 c)\<lparr>wire := wire c @ take n (write_buf c)\<rparr>)"
    using tls_write_calm [of "later (Suc (Suc 0)) c" ?ms "take n (write_buf c)"] c l(2) n
    by (simp add: utils_net_write_def min_def)
  have "send_loop timer n 0 c = Some (n, (later 5 c)\<lparr>wire := wire c @ take n (write_buf c)\<rparr>)"
    using n(2,3)
    by (simp add: send_loop.simps [of timer n 0 c] e l(1) u [simplified] w [simplified] get_bytes_def
        send_loop.simps [of timer n n])
  with n(1) show ?thesis by (simp add: send_mqtt_packet_def)
qed

end
