(* ===== verification/Connect_Props.thy ===== *)
theory Connect_Props
  imports Client_Reach Calm_IO Hal_Props
begin

text \<open>
  The life of a connection: the invariant of all reachable clients, connecting, constructing a
  client, keep-alive and reconnection.
\<close>

subsection \<open>Connecting\<close>

lemma connect_length_pos:
  assumes "serialize_connect_packet buf n opts = Some (Inr (buf', k))" shows "0 < k"
proof -
  have w: "mqtt_write_packet_rem_len (b, j) m = Some (b', i) \<Longrightarrow> j < i" for b j m b' i
  proof -
    have "rem_len_bytes m \<noteq> []" by (subst rem_len_bytes.simps) simp
    then show "mqtt_write_packet_rem_len (b, j) m = Some (b', i) \<Longrightarrow> j < i"
      using put_bytes_Some_length [of "(b, j)" "rem_len_bytes m" "(b', i)"] by (simp add: write_rem_len_put)
  qed
  from assms show ?thesis
    by (auto simp: serialize_connect_packet_def put_fold bind_eq_Some_conv Let_def
        dest!: put_bytes_Some_length split: if_splits sum.splits option.splits)
qed

lemma mark_connected_ok:
  assumes "mark_connected c = Some (r, c')" shows "r = SUCCESS_RET \<and> is_connected c'"
  using krD [OF kp_mark_connected(2) assms] .

lemma decode_error: "decode_rem_len_loop buf i m n v = Some (Inl e) \<Longrightarrow> e = ERR_MQTT_PACKET_READ_ERROR"
proof (induction buf i m n v rule: decode_rem_len_loop.induct)
  case (1 buf i m n v)
  show ?case
  proof (cases "bufchar buf i 0 1")
    case (Some x)
    obtain b j where x: "x = (b, j)" by (cases x)
    show ?thesis
    proof (cases "n + 1 > 4 \<or> b AND 128 = 0")
      case True
      with "1.prems" Some x show ?thesis
        by (auto simp: decode_rem_len_loop.simps [of buf i] split: if_splits)
    next
      case False
      with "1.prems" Some x "1.IH" [OF refl _ Some x [symmetric] refl] show ?thesis
        by (simp add: decode_rem_len_loop.simps [of buf i] Let_def)
    qed
  qed (use "1.prems" in \<open>auto simp: decode_rem_len_loop.simps [of buf i] Let_def split: if_splits\<close>)
qed

lemma error_codes:
  "serialize_connect_packet buf n opts = Some (Inl e) \<Longrightarrow> e \<noteq> SUCCESS_RET"
  "deserialize_connack_packet buf n = Some (Inl e) \<Longrightarrow> e \<noteq> SUCCESS_RET"
  "deserialize_connack_packet buf n = Some (Inr (p, e)) \<Longrightarrow> e \<noteq> SUCCESS_RET"
proof -
  have h: "mqtt_init_packet_header t q d r = Inl e \<Longrightarrow> e \<noteq> SUCCESS_RET" for t q d r
    by (auto simp: mqtt_init_packet_header_def split: if_splits)
  have l: "mqtt_read_packet_rem_len_form_buf buf i = Some (Inl e) \<Longrightarrow> e \<noteq> SUCCESS_RET" for i
    by (auto simp: mqtt_read_packet_rem_len_form_buf_def dest: decode_error)
  show "serialize_connect_packet buf n opts = Some (Inl e) \<Longrightarrow> e \<noteq> SUCCESS_RET"
    using h by (auto simp: serialize_connect_packet_def bind_eq_Some_conv Let_def split: if_split_asm sum.split_asm option.split_asm)
  show "deserialize_connack_packet buf n = Some (Inl e) \<Longrightarrow> e \<noteq> SUCCESS_RET"
    using l
    by (auto simp: deserialize_connack_packet_def bind_eq_Some_conv Let_def split: if_split_asm)
       (auto simp: bind_eq_Some_conv split: sum.split_asm if_split_asm)
  show "deserialize_connack_packet buf n = Some (Inr (p, e)) \<Longrightarrow> e \<noteq> SUCCESS_RET"
    by (auto simp: deserialize_connack_packet_def bind_eq_Some_conv Let_def split: if_split_asm)
       (auto simp: connack_code_def bind_eq_Some_conv split: sum.split_asm if_split_asm)
qed

lemma connect_handshake_success:
  "kr (\<lambda>r c'. r = SUCCESS_RET \<longrightarrow> is_connected c') (connect_handshake t c)"
proof -
  have mark: "kr (\<lambda>r c'. r = SUCCESS_RET \<longrightarrow> is_connected c') (mark_connected c1)" for c1
    using kp_mark_connected(2) [of c1] by (simp add: kr_def)
  show ?thesis
    unfolding connect_handshake_def
    by (rule mark kp_let kp_if kp_prod kp_sum kp_Some kp_opt
        | (auto dest: error_codes connect_length_pos; fail))+
qed

text \<open>
  C3: A client that is not connected and is told by \<open>uiot_mqtt_connect\<close> that it is: the flag is set
  and there is a connection to read from.  Every other result leaves the flag clear and the
  connection closed.
\<close>

theorem connect_result:
  assumes "\<not> is_connected c" "uiot_mqtt_connect opts c = Some (r, c')"
  shows "if r = SUCCESS_RET then is_connected c' \<and> handle c' \<noteq> 0
    else \<not> is_connected c' \<and> handle c' = 0"
proof -
  from assms obtain c4 where m: "mqtt_connect opts c = Some (r, c4)"
    and c': "c' = (if r \<noteq> SUCCESS_RET then net_disconnect c4 else c4)"
    by (auto simp: uiot_mqtt_connect_def get_conn_state_eq bind_eq_Some_conv split: if_splits)
  note res = mqtt_connect_result [OF K_refl [of "{}" c] _ _ assms(1) m, simplified]
  have "r = SUCCESS_RET \<longrightarrow> is_connected c4"
    using m connect_handshake_success
    by (auto simp: mqtt_connect_def kr_def split: prod.splits if_splits)
  with res c' show ?thesis by (auto simp: net_disconnect_eq)
qed

text \<open>A client that has nothing to wait for: calm platform, free locks, room in its buffers.\<close>

definition calm :: "UIoT_Client \<Rightarrow> bool" where
  "calm c \<longleftrightarrow> ticks c = [] \<and> ssl_tx c = [] \<and> mallocs c = [] \<and> held c = {} \<and>
     length (write_buf c) = write_buf_size c \<and> length (read_buf c) = read_buf_size c \<and>
     32 \<le> write_buf_size c \<and> 32 \<le> read_buf_size c \<and>
     MIN_COMMAND_TIMEOUT \<le> command_timeout_ms c \<and> command_timeout_ms c \<le> MAX_COMMAND_TIMEOUT"

lemma copy_connect_params_fields:
  "connect_body (copy_connect_params o1 o2) cid = connect_body o2 cid"
  "client_id (copy_connect_params o1 o2) = client_id o2"
  "username (copy_connect_params o1 o2) = username o2" "password (copy_connect_params o1 o2) = password o2"
  "mqtt_version (copy_connect_params o1 o2) = mqtt_version o2"
  "keep_alive_interval (copy_connect_params o1 o2) = keep_alive_interval o2"
  by (simp_all add: copy_connect_params_def connect_body_bytes connect_flags_def)

lemma header_codes:
  "header_type 0x20 = msg_code CONNACK" "header_type 0x10 = msg_code CONNECT"
  by code_simp+

lemma connack_accepted: "4 \<le> n \<Longrightarrow>
    deserialize_connack_packet (frame 0x20 [sp, 0] @ rest) n = Some (Inr (sp AND 1, MQTT_CONNECTION_ACCEPTED))"
  using frame_header [of "0x20" "[sp, 0]" rest] frame_rem_len [of "[sp, 0]" "0x20" rest]
  by (simp add: deserialize_connack_packet_def header_codes Let_def connack_code_def
      read_char_at frame_def rem_len_bytes.simps)

lemma countdown_calm: "ticks w = [] \<Longrightarrow> countdown n w = (clock w + 1 + n * 1000000, later 1 w)"
  by (simp add: countdown_def HAL_Timer_Countdown_def gettimeofday_calm)

lemma mark_connected_calm:
  assumes "ticks c = []" "held c = {}"
  shows "\<exists>t. mark_connected c = Some (SUCCESS_RET, (later 1 c)\<lparr>is_connected := True,
    was_manually_disconnected := False, is_ping_outstanding := 0, ping_timer := t\<rparr>)"
  using assms
  by (cases c) (auto simp: mark_connected_def set_conn_state_eq HAL_MutexLock_def HAL_MutexUnlock_def
      countdown_calm later_def)

lemma wait_connack_calm:
  assumes c: "ticks c = []" "handle c \<noteq> 0" "ssl_rx c = SslData (frame 0x20 [sp, 0] @ rest) # es"
    and b: "length (read_buf c) = read_buf_size c" "32 \<le> read_buf_size c" and t: "clock c + 1 < timer"
  shows "\<exists>k. wait_for_read (msg_code CONNACK) timer c = Some (SUCCESS_RET,
    (later k c)\<lparr>ssl_rx := feed rest es, read_buf := frame 0x20 [sp, 0] @ drop 4 (read_buf c)\<rparr>)"
proof -
  have l: "length (frame 0x20 [sp, 0]) = 4" by (simp add: frame_def rem_len_bytes.simps)
  obtain k where r: "read_mqtt_packet timer 0 (later 1 c) = Some ((SUCCESS_RET, msg_code CONNACK),
      (later k (later 1 c))\<lparr>ssl_rx := feed rest es, read_buf := frame 0x20 [sp, 0] @ drop 4 (read_buf c)\<rparr>)"
    using read_mqtt_packet_calm [of "later 1 c" "0x20" "[sp, 0]" rest es timer 0] c b l
    by (auto simp: header_codes)
  have "has_expired timer c = (False, later 1 c)" using has_expired_calm [OF c(1)] t by simp
  then have "wait_for_read (msg_code CONNACK) timer c = Some (SUCCESS_RET,
      (later k (later 1 c))\<lparr>ssl_rx := feed rest es, read_buf := frame 0x20 [sp, 0] @ drop 4 (read_buf c)\<rparr>)"
    using r
    by (simp add: wait_for_read_def wait_for_read_loop.simps [of _ timer 0 c] cycle_for_read_def handle_packet_def)
  then show ?thesis by (metis later_simps(10))
qed

definition same_records :: "UIoT_Client \<Rightarrow> UIoT_Client \<Rightarrow> bool" where
  "same_records c c' \<longleftrightarrow> list_pub_wait_ack c' = list_pub_wait_ack c \<and>
     list_sub_wait_ack c' = list_sub_wait_ack c \<and> sub_handles c' = sub_handles c \<and> live c' = live c \<and>
     next_packet_id c' = next_packet_id c"

lemma connect_calm:
  assumes c: "calm c" "\<not> is_connected c" "tls_up c = []"
    and peer: "ssl_rx c = SslData (frame 0x20 [sp, 0] @ rest) # es"
    and o: "client_id opts = Some cid" "cid \<noteq> []" "mqtt_version opts \<in> {3, 4}"
    and len: "length (frame 0x10 (connect_body opts cid)) + 3 < write_buf_size c" "write_buf_size c < 268435400"
  shows "\<exists>c'. uiot_mqtt_connect opts c = Some (SUCCESS_RET, c') \<and> is_connected c' \<and>
    wire c' = wire c @ frame 0x10 (connect_body opts cid) \<and> ssl_rx c' = feed rest es \<and> same_records c c'"
proof -
  let ?f = "frame 0x10 (connect_body opts cid)"
  let ?o = "copy_connect_params (options c) opts"
  let ?t = "Suc (clock c + command_timeout_ms c * 1000)"
  note c' = c(1) [unfolded calm_def]
  have small: "length cid + opt_len (username ?o) + opt_len (password ?o) < 268435400"
    using len by (auto simp: frame_def connect_body_bytes opt_len_def copy_connect_params_fields split: option.splits)
  have blen: "length (connect_body opts cid) < 268435456"
    "get_mqtt_packet_len (length (connect_body opts cid)) \<le> write_buf_size c"
    using len get_mqtt_packet_len_bounds(2) [of "length (connect_body opts cid)"] by (auto simp: frame_def)
  have hdr: "mqtt_init_packet_header CONNECT QOS0 0 0 = Inr 0x10" by code_simp
  let ?wb = "?f @ drop (length ?f) (write_buf c)"
  define c2 where "c2 = (later 1 c)\<lparr>options := ?o, handle := 1\<rparr>"
  define c3 where "c3 = c2\<lparr>held := {lock_write_buf}\<rparr>"
  have ser: "serialize_connect_packet (write_buf c3) (write_buf_size c3) (options c3) =
      Some (Inr (?wb, length ?f))"
    using serialize_connect_layout [of ?o cid "write_buf c" "write_buf_size c"] o small blen c'
      framed_eq [of "connect_body opts cid" "write_buf_size c" "write_buf c"]
    by (simp add: c3_def c2_def copy_connect_params_fields hdr placed_def)
  define c5 where "c5 = (later 5 (c3\<lparr>write_buf := ?wb\<rparr>))\<lparr>wire := wire c @ ?f, held := {}\<rparr>"
  have send: "send_mqtt_packet (length ?f) ?t (c3\<lparr>write_buf := ?wb\<rparr>) =
      Some (SUCCESS_RET, (later 5 (c3\<lparr>write_buf := ?wb\<rparr>))\<lparr>wire := wire c @ ?f\<rparr>)"
    using send_mqtt_packet_calm [of "c3\<lparr>write_buf := ?wb\<rparr>" ?t "length ?f"] c' len
    by (simp add: c3_def c2_def running_def frame_def)
  have c5: "ticks c5 = []" "handle c5 \<noteq> 0" "ssl_rx c5 = SslData (frame 0x20 [sp, 0] @ rest) # es"
    "length (read_buf c5) = read_buf_size c5" "32 \<le> read_buf_size c5" "clock c5 + 1 < ?t" "held c5 = {}"
    using c' peer by (simp_all add: c5_def c3_def c2_def)
  obtain k where w: "wait_for_read (msg_code CONNACK) ?t c5 = Some (SUCCESS_RET,
      (later k c5)\<lparr>ssl_rx := feed rest es, read_buf := frame 0x20 [sp, 0] @ drop 4 (read_buf c5)\<rparr>)"
    using wait_connack_calm [OF c5(1-6)] by blast
  define c6 where "c6 = (later k c5)\<lparr>ssl_rx := feed rest es, read_buf := frame 0x20 [sp, 0] @ drop 4 (read_buf c5)\<rparr>"
  have ack: "deserialize_connack_packet (read_buf c6) (read_buf_size c6) = Some (Inr (sp AND 1, MQTT_CONNECTION_ACCEPTED))"
    using connack_accepted c5(5) by (simp add: c6_def)
  have "ticks c6 = []" "held c6 = {}" using c5 by (simp_all add: c6_def)
  from mark_connected_calm [OF this] obtain t' where m: "mark_connected c6 = Some (SUCCESS_RET, (later 1 c6)\<lparr>is_connected := True,
      was_manually_disconnected := False, is_ping_outstanding := 0, ping_timer := t'\<rparr>)" by blast
  have lock: "HAL_MutexLock lock_write_buf c2 = Some c3"
    "HAL_MutexUnlock lock_write_buf (later 5 (c3\<lparr>write_buf := ?wb, wire := wire c @ ?f\<rparr>)) = Some c5"
    using c' by (simp_all add: c2_def c3_def c5_def HAL_MutexLock_def HAL_MutexUnlock_def)
  have "length ?f \<noteq> 0" by (simp add: frame_def)
  then have "connect_handshake ?t c2 = mark_connected c6"
    by (simp add: connect_handshake_def lock(1) ser send lock(2) w [folded c6_def, unfolded msg_code.simps] ack)
  moreover have "uiot_mqtt_connect opts c = Option.bind (connect_handshake ?t c2)
      (\<lambda>(ret, c). Some (ret, if ret \<noteq> SUCCESS_RET then net_disconnect c else c))"
    using c' c(2,3) countdown_ms_calm [of c "command_timeout_ms c"]
    by (simp add: uiot_mqtt_connect_def get_conn_state_eq mqtt_connect_def utils_net_connect_def
        HAL_TLS_Connect_def c2_def)
  ultimately have "uiot_mqtt_connect opts c = Option.bind (mark_connected c6)
      (\<lambda>(ret, c). Some (ret, if ret \<noteq> SUCCESS_RET then net_disconnect c else c))"
    by (simp only:)
  then show ?thesis by (simp only: m Option.bind.simps prod.case)
    (simp add: c6_def c5_def c3_def c2_def same_records_def)
qed

text \<open>
  C4: Connecting works: on a calm platform where the peer answers with an accepting CONNACK, the
  client sends exactly the CONNECT packet of its options, reports success and is connected.  With a
  password the packet is the one of the protocol.
\<close>

theorem connect_succeeds:
  assumes "calm c" "\<not> is_connected c" "tls_up c = []"
    and "ssl_rx c = SslData (frame 0x20 [sp, 0] @ rest) # es"
    and "client_id opts = Some cid" "cid \<noteq> []" "mqtt_version opts \<in> {3, 4}"
    and "length (frame 0x10 (connect_body opts cid)) + 3 < write_buf_size c" "write_buf_size c < 268435400"
  shows "\<exists>c'. uiot_mqtt_connect opts c = Some (SUCCESS_RET, c') \<and> is_connected c' \<and>
    wire c' = wire c @ frame 0x10 (connect_body opts cid) \<and> ssl_rx c' = feed rest es \<and>
    (password opts \<noteq> None \<longrightarrow> wire c' = wire c @ frame 0x10 (protocol_connect_body opts cid))"
  using connect_calm [OF assms] connect_body_with_password [of opts] by auto

definition credentials :: "MQTTInitParams \<Rightarrow> bytes option \<times> nat" where
  "credentials p = (case device_secret p of Some s \<Rightarrow> (Some s, STATIC_AUTH)
     | None \<Rightarrow> (case product_secret p of Some s \<Rightarrow> (Some s, DYNAMIC_AUTH) | None \<Rightarrow> (None, 0)))"

lemma malloc_calm: "mallocs w = [] \<Longrightarrow> HAL_Malloc w = (True, w)"
  by (simp add: HAL_Malloc_def)

lemma choose_password_calm: "mallocs c = [] \<Longrightarrow> choose_password p c = (Some (credentials p), c)"
  by (simp add: choose_password_def credentials_def malloc_calm split: option.split)

definition construct_packet :: "MQTTInitParams \<Rightarrow> bytes \<Rightarrow> bytes \<Rightarrow> bytes" where
  "construct_packet p psn dsn =
     frame 0x10 (connect_body (case credentials p of (s, m) \<Rightarrow> connect_params_of psn dsn p s m)
       (psn @ str ''.'' @ dsn))"

lemma construct_calm:
  assumes w: "ticks w = []" "ssl_tx w = []" "mallocs w = []" "tls_up w = []"
    and peer: "ssl_rx w = SslData (frame 0x20 [sp, 0] @ rest) # es"
    and sn: "product_sn p = Some psn" "psn \<noteq> []" "device_sn p = Some dsn" "dsn \<noteq> []"
    and len: "length (construct_packet p psn dsn) < 2045"
  shows "\<exists>c w'. IOT_MQTT_Construct st p w = Some (Some c, w') \<and> is_connected c \<and>
    wire w' = wire w @ construct_packet p psn dsn \<and> same_records (fresh_client st p w) c"
proof -
  obtain s m where cr: "credentials p = (s, m)" by (metis surj_pair)
  let ?o = "connect_params_of psn dsn p s m"
  define c where "c = (fresh_client st p w)\<lparr>list_pub_wait_ack := [], list_sub_wait_ack := [], handle := 0,
    ping_timer := init_timer, reconnect_delay_timer := init_timer, is_connected := False\<rparr>"
  have i: "uiot_mqtt_init st p w = Some (SUCCESS_RET, c)"
    using w
    by (simp add: uiot_mqtt_init_def fresh_client_def HAL_MutexCreate_def c_def zero_client_def
        malloc_calm set_conn_state_eq)
  have c: "calm c" "\<not> is_connected c" "tls_up c = []" "wire c = wire w" "write_buf_size c = 2048"
    "ssl_rx c = SslData (frame 0x20 [sp, 0] @ rest) # es" "mallocs c = []"
    using w peer
    by (simp_all add: calm_def c_def fresh_client_def zero_client_def clamp_timeout_def Let_def)
  have o: "client_id ?o = Some (psn @ str ''.'' @ dsn)" "psn @ str ''.'' @ dsn \<noteq> []" "mqtt_version ?o \<in> {3, 4}"
    using sn by (simp_all add: connect_params_of_def DEFAULT_MQTT_CONNECT_PARAMS_def)
  from connect_calm [OF c(1-3,6) o] len c(4,5) obtain c' where
    "uiot_mqtt_connect ?o c = Some (SUCCESS_RET, c')" "is_connected c'"
    "wire c' = wire w @ construct_packet p psn dsn" "same_records c c'"
    by (auto simp: construct_packet_def cr)
  moreover have "same_records (fresh_client st p w) c" by (simp add: c_def same_records_def fresh_client_def zero_client_def)
  then have "same_records c c' \<Longrightarrow> same_records (fresh_client st p w) c'" by (simp add: same_records_def)
  ultimately show ?thesis
    using w sn c(7)
    by (auto simp: IOT_MQTT_Construct_def string_valid_def malloc_calm i connect_new_def
        choose_password_calm cr world.truncate_def)
qed

text \<open>
  C5: Constructing a client works: with serial numbers and a peer that accepts, \<open>IOT_MQTT_Construct\<close>
  returns a connected client, and exactly one CONNECT packet went out.
\<close>

theorem construct_succeeds:
  assumes "ticks w = []" "ssl_tx w = []" "mallocs w = []" "tls_up w = []"
    and "ssl_rx w = SslData (frame 0x20 [sp, 0] @ rest) # es"
    and "product_sn p = Some psn" "psn \<noteq> []" "device_sn p = Some dsn" "dsn \<noteq> []"
    and "length (construct_packet p psn dsn) < 2045"
  shows "\<exists>c w'. IOT_MQTT_Construct st p w = Some (Some c, w') \<and> is_connected c \<and>
    wire w' = wire w @ construct_packet p psn dsn"
  using construct_calm [OF assms] by blast

definition example_params :: MQTTInitParams where
  "example_params = \<lparr>product_sn = Some (str ''p''), device_sn = Some (str ''d''), product_secret = None,
     device_secret = Some (str ''s''), command_timeout = 2000, init_keep_alive_interval = 240,
     init_clean_session = True, init_auto_connect_enable = 1, init_event_handler = True\<rparr>"

definition example_world :: world where
  "example_world = quiet_world\<lparr>ssl_rx := [SslData (frame 0x20 [0, 0] @ [])]\<rparr>"

definition example_statics :: Statics where
  "example_statics = \<lparr>st_check_repeat = False, st_repeat_buf = replicate 50 0, st_repeat_cnt = 0\<rparr>"

lemma example_facts:
  "ticks example_world = []" "ssl_tx example_world = []" "mallocs example_world = []"
  "tls_up example_world = []" "ssl_rx example_world = SslData (frame 0x20 [0, 0] @ []) # []"
  "product_sn example_params = Some (str ''p'')" "str ''p'' \<noteq> []"
  "device_sn example_params = Some (str ''d'')" "str ''d'' \<noteq> []"
  "length (construct_packet example_params (str ''p'') (str ''d'')) < 2045"
  by (simp_all add: example_world_def example_params_def quiet_world_def str_def) code_simp

theorem construct_succeeds_witness:
  "\<exists>c w'. IOT_MQTT_Construct example_statics example_params example_world = Some (Some c, w') \<and> is_connected c"
  using construct_succeeds [OF example_facts, of example_statics] by blast

definition example_client :: UIoT_Client where
  "example_client = fresh_client example_statics example_params example_world"

definition example_options :: MQTTConnectParams where
  "example_options = connect_params_of (str ''p'') (str ''d'') example_params (Some (str ''s'')) STATIC_AUTH"

lemma example_client_facts:
  "calm example_client" "\<not> is_connected example_client" "tls_up example_client = []"
  "ssl_rx example_client = SslData (frame 0x20 [0, 0] @ []) # []"
  "client_id example_options = Some (str ''p.d'')" "str ''p.d'' \<noteq> []" "mqtt_version example_options \<in> {3, 4}"
  "length (frame 0x10 (connect_body example_options (str ''p.d''))) + 3 < write_buf_size example_client"
  "write_buf_size example_client < 268435400"
proof -
  have "length (frame 0x10 (connect_body example_options (str ''p.d''))) + 3 < 2048" by code_simp
  moreover have "write_buf_size example_client = 2048"
    by (simp add: example_client_def fresh_client_def)
  ultimately show "length (frame 0x10 (connect_body example_options (str ''p.d''))) + 3 < write_buf_size example_client"
    "write_buf_size example_client < 268435400" by simp_all
  show "calm example_client" "\<not> is_connected example_client" "tls_up example_client = []"
    "ssl_rx example_client = SslData (frame 0x20 [0, 0] @ []) # []"
    using example_facts(1-5)
    by (simp_all add: example_client_def fresh_client_def zero_client_def calm_def clamp_timeout_def Let_def
        example_params_def)
  show "client_id example_options = Some (str ''p.d'')" "mqtt_version example_options \<in> {3, 4}"
    "str ''p.d'' \<noteq> []"
    by (simp_all add: example_options_def connect_params_of_def DEFAULT_MQTT_CONNECT_PARAMS_def str_def)
qed

theorem connect_succeeds_witness:
  "\<exists>c'. uiot_mqtt_connect example_options example_client = Some (SUCCESS_RET, c') \<and> is_connected c'"
  using connect_succeeds [OF example_client_facts] by blast

theorem connect_result_witness:
  "\<exists>c'. uiot_mqtt_connect example_options example_client = Some (SUCCESS_RET, c') \<and> handle c' \<noteq> 0"
proof -
  obtain c' where "uiot_mqtt_connect example_options example_client = Some (SUCCESS_RET, c')"
    using connect_calm [OF example_client_facts] by blast
  with connect_result [OF example_client_facts(2) this] show ?thesis by simp
qed

text \<open>A reachable client that is connected, on a calm platform, with nothing outstanding.\<close>

lemma example_session:
  "\<exists>c. reachable c \<and> is_connected c \<and> calm c \<and> list_pub_wait_ack c = [] \<and> list_sub_wait_ack c = [] \<and>
    live c = {} \<and> sub_handles c = replicate 10 no_handle \<and> next_packet_id c = 1"
proof -
  have "statics_ok example_statics" by (simp add: statics_ok_def example_statics_def)
  then obtain c where c: "reachable c" "is_connected c"
    "same_records (fresh_client example_statics example_params example_world) c"
    using construct_calm [OF example_facts, of example_statics] reachable.constructed by blast
  let ?c = "c\<lparr>clock := clock c, ticks := [], ssl_rx := [], ssl_tx := [], tls_up := [], mallocs := []\<rparr>"
  have "reachable ?c" by (rule reachable.step [OF c(1) client_step.platform]) simp
  moreover have "calm ?c" "is_connected ?c"
    using reachable_inv [OF c(1)] c(2) by (simp_all add: client_inv_def calm_def)
  moreover have "list_pub_wait_ack ?c = [] \<and> list_sub_wait_ack ?c = [] \<and>
    live ?c = {} \<and> sub_handles ?c = replicate 10 no_handle \<and> next_packet_id ?c = 1"
    using c(3) by (simp add: same_records_def fresh_client_def zero_client_def)
  ultimately show ?thesis by blast
qed

lemma example_reachable: "\<exists>c. reachable c \<and> is_connected c"
  using example_session by blast

text \<open>
  C1: The invariant of every client that \<open>IOT_MQTT_Construct\<close> returns, after any sequence of calls of
  the interface and whatever the platform and the peer do: no mutex stays locked, the buffers and
  tables keep their sizes, at most 20 publishes and 10 (un)subscribes wait for an acknowledgement
  in nodes of their own, the next packet identifier is not 0, the reconnect delay never exceeds
  60 seconds, and a client that is connected has a connection to read from.
\<close>

theorem client_invariant:
  assumes "reachable c"
  shows "held c = {} \<and> (is_connected c \<longrightarrow> handle c \<noteq> 0) \<and>
    length (write_buf c) = 2048 \<and> length (read_buf c) = 2048 \<and> length (sub_handles c) = 10 \<and>
    length (list_pub_wait_ack c) \<le> 20 \<and> distinct (map fst (list_pub_wait_ack c)) \<and>
    length (list_sub_wait_ack c) \<le> 10 \<and> distinct (map fst (list_sub_wait_ack c)) \<and>
    next_packet_id c \<noteq> 0 \<and> current_packet_id_cnt c < 50 \<and>
    current_reconnect_wait_interval c \<le> 60000 \<and> 500 \<le> command_timeout_ms c \<and> command_timeout_ms c \<le> 5000"
  using reachable_inv [OF assms] by (auto simp: client_inv_def conn_ok_def limits_ok_def wl_ok_def)

theorem client_invariant_witness: "\<exists>c :: UIoT_Client. is_connected c \<and> handle c \<noteq> 0 \<and> held c = {}"
  using example_reachable client_invariant by blast

subsection \<open>Reconnecting\<close>

lemma countdown_ms_later: "countdown_ms n w = (t, w') \<Longrightarrow> clock w + n * 1000 < t"
proof -
  have "n div 1000 * 1000000 + n mod 1000 * 1000 = n * 1000"
    using div_mult_mod_eq [of n 1000] by linarith
  then show "countdown_ms n w = (t, w') \<Longrightarrow> ?thesis"
    by (auto simp: countdown_ms_def HAL_Timer_Countdown_ms_def gettimeofday_def Let_def)
qed

lemma expired_due: "t \<le> clock w \<Longrightarrow> has_expired t w = (b, w') \<Longrightarrow> b"
  using env_has_expired [of t w b w'] by (auto simp: env_def)

text \<open>
  C14: Exponential backoff: when the delay is over and the attempt to reconnect fails, the delay
  doubles up to one minute and the next attempt is that far in the future; a successful attempt
  is reported and leaves the delay alone.
\<close>

theorem reconnect_backoff:
  assumes "reconnect_delay_timer c \<le> clock c" "current_reconnect_wait_interval c \<le> 60000"
    and r: "handle_reconnect c = Some (r, c')"
  shows "r = MQTT_RECONNECTED \<and> current_reconnect_wait_interval c' = current_reconnect_wait_interval c \<or>
    r = ERR_MQTT_ATTEMPTING_RECONNECT \<and>
    current_reconnect_wait_interval c' = min 60000 (2 * current_reconnect_wait_interval c) \<and>
    clock c + current_reconnect_wait_interval c' * 1000 < reconnect_delay_timer c'"
proof -
  obtain b c1 where e: "has_expired (reconnect_delay_timer c) c = (b, c1)" by (metis surj_pair)
  with expired_due [OF assms(1)] have b: "b" by blast
  note e1 = conjunct1 [OF env_has_expired [OF e]]
  have k1: "K {BACKOFF} c (held c) c1" by (rule K_env [OF K_refl e1])
  from r b e obtain ret c2 where a: "uiot_mqtt_attempt_reconnect c1 = Some (ret, c2)"
    by (auto simp: handle_reconnect_def bind_eq_Some_conv)
  have k2: "K {BACKOFF} c (held c) c2"
    using krD [OF kp_uiot_mqtt_attempt_reconnect [OF k1] a] by simp
  then have i: "current_reconnect_wait_interval c2 = current_reconnect_wait_interval c" "clock c \<le> clock c2"
    by (simp_all add: K_def)
  let ?i = "min 60000 (2 * current_reconnect_wait_interval c)"
  have m: "(let i = (current_reconnect_wait_interval c2 * 2) mod 2 ^ 32
      in if MAX_RECONNECT_WAIT_INTERVAL < i then MAX_RECONNECT_WAIT_INTERVAL else i) = ?i"
    using assms(2) i by (simp add: min_def)
  show ?thesis
  proof (cases "ret = MQTT_RECONNECTED")
    case True
    with r b e a i show ?thesis by (auto simp: handle_reconnect_def call_event_handler_def emit_def)
  next
    case False
    obtain t c3 where t: "countdown_ms ?i (c2\<lparr>current_reconnect_wait_interval := ?i\<rparr>) = (t, c3)"
      by (metis surj_pair)
    with r b e a False m have "r = ERR_MQTT_ATTEMPTING_RECONNECT" "c' = c3\<lparr>reconnect_delay_timer := t\<rparr>"
      by (auto simp: handle_reconnect_def Let_def)
    moreover have "current_reconnect_wait_interval c3 = ?i"
      using env_client [OF env_countdown_ms [OF t]] by simp
    moreover have "clock c2 + ?i * 1000 < t" using countdown_ms_later [OF t] by simp
    ultimately show ?thesis using i(2) by simp
  qed
qed

subsection \<open>Keep-alive\<close>

lemma disconnect_result:
  assumes "is_connected c" and d: "uiot_mqtt_disconnect c = Some (ret, c2)"
  shows "ret = SUCCESS_RET \<and> \<not> is_connected c2 \<and> handle c2 = 0 \<and> held c2 = held c \<and>
    event_handler c2 = event_handler c"
proof -
  have "K {SOUND} c (held c) c2" using krD [OF kp_uiot_mqtt_disconnect [OF K_refl] d] .
  then have "held c2 = held c" "event_handler c2 = event_handler c" by (simp_all add: K_def shape_def)
  with assms show ?thesis
    by (auto simp: uiot_mqtt_disconnect_def get_conn_state_eq bind_eq_Some_conv set_conn_state_eq
        net_disconnect_eq split: if_split_asm)
qed

text \<open>
  C15: Two PINGREQs without an answer: when the ping timer runs out again, a connected client gives the
  connection up, tells the application, and stays eligible for automatic reconnection.
\<close>

theorem ping_timeout_disconnects:
  assumes "is_connected c" "keep_alive_interval (options c) \<noteq> 0" "ping_timer c \<le> clock c"
    and "2 \<le> is_ping_outstanding c" and r: "mqtt_keep_alive c = Some (r, c')"
  shows "r = ERR_MQTT_NO_CONN \<and> \<not> is_connected c' \<and> handle c' = 0 \<and> \<not> was_manually_disconnected c' \<and>
    (event_handler c \<longrightarrow> (\<exists>evs. events c' = evs @ [(MQTT_EVENT_DISCONNECT, held c)]))"
proof -
  obtain b c1 where e: "has_expired (ping_timer c) c = (b, c1)" by (metis surj_pair)
  with expired_due [OF assms(3)] have b: "b" by blast
  note e1 = env_client [OF conjunct1 [OF env_has_expired [OF e]]]
  from r b e assms e1 have h: "handle_disconnect c1 = Some (r, c')"
    by (auto simp: mqtt_keep_alive_def)
  have c1: "is_connected c1" "held c1 = held c" "event_handler c1 = event_handler c"
    using e1 assms(1) env_has_expired [OF e] by (simp_all add: env_def)
  have "lock_generic \<notin> held c1"
    using h by (auto simp: handle_disconnect_def get_conn_state_eq split: if_splits)
  with h c1 obtain ret c2 where d: "uiot_mqtt_disconnect c1 = Some (ret, c2)"
    by (cases "uiot_mqtt_disconnect c1") (auto simp: handle_disconnect_def get_conn_state_eq)
  note d2 = disconnect_result [OF c1(1) d]
  have "handle_disconnect c1 = Some (ERR_MQTT_NO_CONN,
      (call_event_handler MQTT_EVENT_DISCONNECT c2)\<lparr>was_manually_disconnected := False\<rparr>)"
    using d2 c1 d \<open>lock_generic \<notin> held c1\<close> by (simp add: handle_disconnect_def get_conn_state_eq)
  with h d2 c1 show ?thesis by (auto simp: call_event_handler_def emit_def)
qed

definition example_lost :: UIoT_Client where
  "example_lost = example_client\<lparr>current_reconnect_wait_interval := 40000, tls_up := [False]\<rparr>"

lemma example_reset:
  "ticks example_client = []" "held example_client = {}" "clock example_client = 0"
  "reconnect_delay_timer example_client = 0" "is_connected example_client = False"
  "ping_timer example_client = 0" "mallocs example_client = []"
  using example_client_facts(1)
  by (simp_all add: calm_def example_client_def fresh_client_def zero_client_def example_world_def quiet_world_def)

theorem reconnect_backoff_witness:
  "\<exists>c'. handle_reconnect example_lost = Some (ERR_MQTT_ATTEMPTING_RECONNECT, c') \<and>
    current_reconnect_wait_interval c' = 60000"
proof -
  have "\<exists>c'. handle_reconnect example_lost = Some (ERR_MQTT_ATTEMPTING_RECONNECT, c')"
    by (simp add: handle_reconnect_def has_expired_calm example_lost_def example_reset
        uiot_mqtt_attempt_reconnect_def get_conn_state_eq uiot_mqtt_connect_def mqtt_connect_def
        countdown_ms_calm utils_net_connect_def HAL_TLS_Connect_def net_disconnect_eq Let_def)
  then obtain c' where r: "handle_reconnect example_lost = Some (ERR_MQTT_ATTEMPTING_RECONNECT, c')" ..
  have "reconnect_delay_timer example_lost \<le> clock example_lost"
    "current_reconnect_wait_interval example_lost \<le> 60000" "current_reconnect_wait_interval example_lost = 40000"
    by (simp_all add: example_lost_def example_reset)
  with reconnect_backoff [OF this(1,2) r] r show ?thesis by auto
qed

definition example_silent :: UIoT_Client where
  "example_silent = example_client\<lparr>is_connected := True, handle := 1, is_ping_outstanding := 2,
     write_buf_size := 0, options := example_options\<rparr>"

theorem ping_timeout_disconnects_witness:
  "\<exists>c'. mqtt_keep_alive example_silent = Some (ERR_MQTT_NO_CONN, c') \<and> \<not> is_connected c'"
proof -
  have o: "keep_alive_interval example_options \<noteq> 0"
    by (simp add: example_options_def connect_params_of_def example_params_def)
  have "mqtt_keep_alive example_silent \<noteq> None"
    using o
    by (simp add: mqtt_keep_alive_def has_expired_calm example_silent_def example_reset handle_disconnect_def
        get_conn_state_eq uiot_mqtt_disconnect_def HAL_MutexLock_def HAL_MutexUnlock_def send_disconnect_def
        serialize_packet_with_zero_payload_def set_conn_state_eq net_disconnect_eq Let_def)
  then obtain r c' where r: "mqtt_keep_alive example_silent = Some (r, c')" by auto
  have "is_connected example_silent" "keep_alive_interval (options example_silent) \<noteq> 0"
    "ping_timer example_silent \<le> clock example_silent" "2 \<le> is_ping_outstanding example_silent"
    using o by (simp_all add: example_silent_def example_reset)
  from ping_timeout_disconnects [OF this r] r show ?thesis by auto
qed

subsection \<open>Packet identifiers\<close>

fun take_ids :: "nat \<Rightarrow> UIoT_Client \<Rightarrow> (16 word list \<times> UIoT_Client) option" where
  "take_ids 0 c = Some ([], c)"
| "take_ids (Suc k) c = do {
     (i, c) \<leftarrow> get_next_packet_id c; (is, c) \<leftarrow> take_ids k c; Some (i # is, c) }"

definition next_id :: "16 word \<Rightarrow> 16 word" where
  "next_id i = (if MAX_PACKET_ID = i then 1 else i + 1)"

lemma get_next_packet_id_eq: "lock_generic \<notin> held c \<Longrightarrow>
    get_next_packet_id c = Some (next_id (next_packet_id c), c\<lparr>next_packet_id := next_id (next_packet_id c)\<rparr>)"
  by (cases c) (auto simp: get_next_packet_id_def next_id_def HAL_MutexLock_def HAL_MutexUnlock_def Let_def)

lemma unat_next_id: "unat (next_id i) = unat i mod 65535 + 1"
proof (cases "i = MAX_PACKET_ID")
  case False
  have "unat i < 2 ^ LENGTH(16)" by (rule unsigned_less)
  then have lt: "unat i < 65536" by simp
  have "unat i \<noteq> 65535"
  proof
    assume "unat i = 65535"
    then have "unat i = unat (MAX_PACKET_ID :: 16 word)" by simp
    with False show False by (simp only: word_unat_eq_iff) 
  qed
  with lt have "unat i < 65535" by simp
  then have "unat (i + 1) = unat i + 1" by (simp add: unat_word_ariths)
  with False \<open>unat i < 65535\<close> show ?thesis by (auto simp: next_id_def)
qed (simp add: next_id_def)

lemma take_ids_eq:
  assumes "lock_generic \<notin> held c" "next_packet_id c \<noteq> 0"
  shows "\<exists>is c'. take_ids k c = Some (is, c') \<and> length is = k \<and>
    (\<forall>j < k. unat (is ! j) = (unat (next_packet_id c) + j) mod 65535 + 1)"
  using assms
proof (induction k arbitrary: c)
  case (Suc k)
  let ?c = "c\<lparr>next_packet_id := next_id (next_packet_id c)\<rparr>"
  have "unat (next_id (next_packet_id c)) \<noteq> 0" by (simp add: unat_next_id)
  then have "next_id (next_packet_id c) \<noteq> 0" by (metis unat_0)
  with Suc.IH [of ?c] Suc.prems obtain "is" c' where
    i: "take_ids k ?c = Some (is, c')" "length is = k"
      "\<forall>j < k. unat (is ! j) = (unat (next_id (next_packet_id c)) + j) mod 65535 + 1"
    by auto
  have "unat ((next_id (next_packet_id c) # is) ! j) = (unat (next_packet_id c) + j) mod 65535 + 1" if "j < Suc k" for j
  proof (cases j)
    case (Suc l)
    with that i(3) have "unat ((next_id (next_packet_id c) # is) ! j) =
        (unat (next_packet_id c) mod 65535 + 1 + l) mod 65535 + 1"
      by (simp add: unat_next_id)
    also have "(unat (next_packet_id c) mod 65535 + 1 + l) mod 65535 = (unat (next_packet_id c) + j) mod 65535"
      using mod_add_left_eq [of "unat (next_packet_id c)" 65535 "1 + l"] by (simp only: Suc ac_simps) simp
    finally show ?thesis .
  qed (simp add: unat_next_id)
  with i(1,2) Suc.prems show ?case by (auto simp: get_next_packet_id_eq)
qed simp

text \<open>
  C16: Packet identifiers: the identifier 0 is never given out, and 65535 consecutive identifiers are
  pairwise different, across the wrap-around of the counter.
\<close>

theorem packet_ids_fresh:
  assumes "reachable c" "k \<le> 65535"
  shows "\<exists>is c'. take_ids k c = Some (is, c') \<and> length is = k \<and> distinct is \<and> 0 \<notin> set is"
proof -
  have "lock_generic \<notin> held c" "next_packet_id c \<noteq> 0"
    using reachable_inv [OF assms(1)] by (simp_all add: client_inv_def limits_ok_def)
  from take_ids_eq [OF this, of k] obtain "is" c' where
    i: "take_ids k c = Some (is, c')" "length is = k"
    and v: "\<And>j. j < k \<Longrightarrow> unat (is ! j) = (unat (next_packet_id c) + j) mod 65535 + 1" by blast
  have "distinct is"
  proof (unfold distinct_conv_nth i(2), intro allI impI)
    fix j l assume a: "j < k" "l < k" "j \<noteq> l"
    show "is ! j \<noteq> is ! l"
    proof
      assume "is ! j = is ! l"
      then have "(unat (next_packet_id c) + j) mod 65535 = (unat (next_packet_id c) + l) mod 65535"
        using v [OF a(1)] v [OF a(2)] by simp
      then have "j mod 65535 = l mod 65535" by (simp add: nat_mod_eq_iff)
      with a assms(2) show False by simp
    qed
  qed
  moreover have "0 \<notin> set is"
    using v i(2) by (auto simp: in_set_conv_nth) (metis Suc_eq_plus1 nat.distinct(1) unat_0)
  ultimately show ?thesis using i by blast
qed

theorem packet_ids_fresh_witness:
  "\<exists>(c :: UIoT_Client) is c'. take_ids 3 c = Some (is, c') \<and> distinct is \<and> 0 \<notin> set is"
proof -
  obtain c where "reachable c" using example_reachable by blast
  then show ?thesis using packet_ids_fresh [of c 3] by auto
qed

end
