(* ===== verification/Request_Props.thy ===== *)
theory Request_Props
  imports Connect_Props
begin

text \<open>
  Publishing, subscribing and unsubscribing: what the requests do to the tables of the client,
  on success and on every error path, and what they send.
\<close>

subsection \<open>The tables under the steps of a request\<close>

text \<open>
  \<open>tables\<close> are the parts of the client that record requests.  The rules for \<open>kr\<close> say of every step
  how they change; most steps leave them alone.
\<close>

definition tables :: "UIoT_Client \<Rightarrow> (nat \<times> UIoTPubInfo) list \<times> (nat \<times> UIoTSubInfo) list \<times>
    SubTopicHandle list \<times> nat set \<times> nat" where
  "tables c = (list_pub_wait_ack c, list_sub_wait_ack c, sub_handles c, live c, next_addr c)"

lemma tables_upd [simp]:
  "tables (c\<lparr>held := L\<rparr>) = tables c" "tables (c\<lparr>write_buf := b\<rparr>) = tables c"
  "tables (c\<lparr>next_packet_id := i\<rparr>) = tables c" "tables (c\<lparr>mallocs := m\<rparr>) = tables c"
  by (simp_all add: tables_def)

lemma tables_env: "env c c' \<Longrightarrow> tables c' = tables c"
  by (simp add: tables_def env_client)

lemma env_next_id: "env c c' \<Longrightarrow> next_packet_id c' = next_packet_id (c :: UIoT_Client)"
  by (simp add: env_client)

lemma env_send_loop: "send_loop timer n sent c = Some (r, c') \<Longrightarrow> env c c'"
proof (induction timer n sent c rule: send_loop.induct)
  case (1 timer n sent c)
  obtain e c1 where e: "has_expired timer c = (e, c1)" by (metis surj_pair)
  obtain ms c2 where m: "left_ms timer c1 = (ms, c2)" by (metis surj_pair)
  have e2: "env c c1" "env c c2" using env_has_expired [OF e] env_left_ms [OF m] env_trans by blast+
  have w: "utils_net_write chunk t c2 = Some (l, c3) \<Longrightarrow> env c c3" for chunk t l c3
    using env_trans [OF e2(2) env_net_write] .
  show ?case
    using "1.prems" e m e2 w env_trans "1.IH" [OF _ e [symmetric] refl _ m [symmetric] refl]
    by (auto simp: send_loop.simps [of timer n sent c] bind_eq_Some_conv split: if_splits)
       (blast intro: env_trans)
qed

lemma env_send: "send_mqtt_packet n timer c = Some (r, c') \<Longrightarrow> env c c'"
  by (auto simp: send_mqtt_packet_def bind_eq_Some_conv dest: env_send_loop split: if_splits)

text \<open>What a failed and what a successful push to a wait list leave.\<close>

lemma push_pub_tables:
  assumes "mask_push_pubInfo_to n i c = Some ((ret, node), c')"
  shows "ret < 0 \<and> tables c' = tables c \<or>
    ret = SUCCESS_RET \<and> node = Some (next_addr c) \<and> length (list_pub_wait_ack c) < MAX_REPUB_NUM \<and>
    (\<exists>info. pub_msg_id info = i \<and> pub_node_state info = MQTT_NODE_STATE_NORMAL \<and>
       pub_buf info = take n (write_buf c) \<and>
       list_pub_wait_ack c' = list_pub_wait_ack c @ [(next_addr c, info)]) \<and>
    list_sub_wait_ack c' = list_sub_wait_ack c \<and> sub_handles c' = sub_handles c \<and> live c' = live c \<and>
    next_addr c' = Suc (next_addr c)"
proof -
  have m: "HAL_Malloc c1 = (ok, c2) \<Longrightarrow> tables c2 = tables c1 \<and> write_buf c2 = write_buf c1" for c1 c2 :: UIoT_Client and ok
    by (auto simp: HAL_Malloc_def tables_def split: list.splits)
  have t: "countdown_ms k c1 = (t, c2) \<Longrightarrow> tables c2 = tables c1 \<and> write_buf c2 = write_buf c1" for k t and c1 c2 :: UIoT_Client
    using tables_env [of c1 c2] env_client(10) [of c1 c2] env_countdown_ms [of k c1 t c2] by blast
  show ?thesis
    using assms
    by (auto simp: mask_push_pubInfo_to_def bind_eq_Some_conv lock_Some unlock_Some Let_def wl_push_def
        get_bytes_def tables_def split: if_split_asm prod.split_asm dest!: m t) 
qed

lemma t_rules:
  fixes c :: UIoT_Client
  shows t_conn: "(\<And>b. b = is_connected c \<Longrightarrow> kr P (f b c)) \<Longrightarrow>
      kr P (Option.bind (get_client_conn_state c) (\<lambda>(b, c'). f b c'))"
    and t_time: "(\<And>t c'. tables c' = tables c \<Longrightarrow> next_packet_id c' = next_packet_id c \<Longrightarrow> kr P (g t c')) \<Longrightarrow>
      kr P (let (t, c') = countdown_ms n c in g t c')"
    and t_lock: "(\<And>c'. tables c' = tables c \<Longrightarrow> next_packet_id c' = next_packet_id c \<Longrightarrow> kr P (h c')) \<Longrightarrow>
      kr P (Option.bind (HAL_MutexLock l c) h)"
    and t_unlock: "(\<And>c'. tables c' = tables c \<Longrightarrow> kr P (h c')) \<Longrightarrow>
      kr P (Option.bind (HAL_MutexUnlock l c) h)"
    and t_send: "(\<And>ret c'. tables c' = tables c \<Longrightarrow> ret = SUCCESS_RET \<or> ret < 0 \<Longrightarrow> kr P (k ret c')) \<Longrightarrow>
      kr P (Option.bind (send_mqtt_packet m timer c) (\<lambda>(ret, c'). k ret c'))"
    and t_next: "(\<And>c'. tables c' = tables c \<Longrightarrow> kr P (i (next_id (next_packet_id c)) c')) \<Longrightarrow>
      kr P (Option.bind (get_next_packet_id c) (\<lambda>(x, c'). i x c'))"
proof -
  show "(\<And>b. b = is_connected c \<Longrightarrow> kr P (f b c)) \<Longrightarrow>
      kr P (Option.bind (get_client_conn_state c) (\<lambda>(b, c'). f b c'))"
    by (simp add: get_conn_state_eq kp_None)
  show "(\<And>t c'. tables c' = tables c \<Longrightarrow> next_packet_id c' = next_packet_id c \<Longrightarrow> kr P (g t c')) \<Longrightarrow>
      kr P (let (t, c') = countdown_ms n c in g t c')"
  proof (cases "countdown_ms n c")
    case (Pair t c')
    assume a: "\<And>t c'. tables c' = tables c \<Longrightarrow> next_packet_id c' = next_packet_id c \<Longrightarrow> kr P (g t c')"
    note e = env_countdown_ms [OF Pair]
    from a [OF tables_env [OF e] env_next_id [OF e]] Pair show ?thesis by simp
  qed
  show "(\<And>c'. tables c' = tables c \<Longrightarrow> next_packet_id c' = next_packet_id c \<Longrightarrow> kr P (h c')) \<Longrightarrow>
      kr P (Option.bind (HAL_MutexLock l c) h)"
    by (auto simp: HAL_MutexLock_def kp_None)
  show "(\<And>c'. tables c' = tables c \<Longrightarrow> kr P (h c')) \<Longrightarrow> kr P (Option.bind (HAL_MutexUnlock l c) h)"
    by (auto simp: HAL_MutexUnlock_def kp_None)
  have "send_mqtt_packet m timer c = Some (ret, c') \<Longrightarrow> ret = SUCCESS_RET \<or> ret < 0" for ret c'
    by (auto simp: send_mqtt_packet_def bind_eq_Some_conv split: if_splits)
  then show "(\<And>ret c'. tables c' = tables c \<Longrightarrow> ret = SUCCESS_RET \<or> ret < 0 \<Longrightarrow> kr P (k ret c')) \<Longrightarrow>
      kr P (Option.bind (send_mqtt_packet m timer c) (\<lambda>(ret, c'). k ret c'))"
    using tables_env env_send by (cases "send_mqtt_packet m timer c") (fastforce simp: kp_None)+
  show "(\<And>c'. tables c' = tables c \<Longrightarrow> kr P (i (next_id (next_packet_id c)) c')) \<Longrightarrow>
      kr P (Option.bind (get_next_packet_id c) (\<lambda>(x, c'). i x c'))"
    by (cases "lock_generic \<in> held c")
       (simp add: get_next_packet_id_def HAL_MutexLock_def kp_None, simp add: get_next_packet_id_eq)
qed

definition pushed :: "16 word \<Rightarrow> UIoT_Client \<Rightarrow> UIoT_Client \<Rightarrow> bool" where
  "pushed i c c' \<longleftrightarrow> length (list_pub_wait_ack c) < MAX_REPUB_NUM \<and>
     (\<exists>info. pub_msg_id info = i \<and> pub_node_state info = MQTT_NODE_STATE_NORMAL \<and>
        list_pub_wait_ack c' = list_pub_wait_ack c @ [(next_addr c, info)]) \<and>
     list_sub_wait_ack c' = list_sub_wait_ack c \<and> sub_handles c' = sub_handles c \<and> live c' = live c"

definition requests :: "UIoT_Client \<Rightarrow> (nat \<times> UIoTSubInfo) list \<times> SubTopicHandle list \<times> nat set" where
  "requests c = (list_sub_wait_ack c, sub_handles c, live c)"

lemma t_next_if:
  "(\<And>x c'. tables c' = tables c \<Longrightarrow> (b \<Longrightarrow> x = next_id (next_packet_id c)) \<Longrightarrow> kr P (f x c')) \<Longrightarrow>
   kr P (Option.bind (if b then get_next_packet_id c else Some (v, c)) (\<lambda>(x, c'). f x c'))"
  by (cases b) (simp_all add: t_next)

lemma t_push_if:
  assumes "\<And>ret node c'. b \<Longrightarrow> ret < 0 \<Longrightarrow> tables c' = tables c \<Longrightarrow> kr P (f ret node c')"
    "\<And>c'. b \<Longrightarrow> pushed i c c' \<Longrightarrow> kr P (f SUCCESS_RET (Some (next_addr c)) c')"
    "\<not> b \<Longrightarrow> kr P (f SUCCESS_RET None c)"
  shows "kr P (Option.bind (if b then mask_push_pubInfo_to n i c else Some ((SUCCESS_RET, None), c))
    (\<lambda>((ret, node), c'). f ret node c'))"
proof (cases b)
  case True
  show ?thesis
  proof (cases "mask_push_pubInfo_to n i c")
    case (Some x)
    obtain ret node c' where x: "x = ((ret, node), c')" by (metis surj_pair)
    from push_pub_tables [OF Some [unfolded x]] assms(1,2) [OF True] Some x True show ?thesis
      by (auto simp: pushed_def)
  qed (use True in \<open>simp add: kp_None\<close>)
qed (use assms(3) in simp)

lemma t_remove_if:
  assumes "\<And>a c'. b \<Longrightarrow> node = Some a \<Longrightarrow> requests c' = requests c \<Longrightarrow>
      list_pub_wait_ack c' = filter (\<lambda>n. fst n \<noteq> a) (list_pub_wait_ack c) \<Longrightarrow> kr P (f c')"
    "\<not> b \<Longrightarrow> kr P (f c)"
  shows "kr P (Option.bind (if b then do { a \<leftarrow> node; remove_pub_node a c } else Some c) f)"
proof (cases b)
  case True
  have "kr P (Option.bind (remove_pub_node a c) f)" if n: "node = Some a" for a
  proof (cases "remove_pub_node a c")
    case (Some c1)
    then have "requests c1 = requests c"
      "list_pub_wait_ack c1 = filter (\<lambda>n. fst n \<noteq> a) (list_pub_wait_ack c)"
      by (auto simp: remove_pub_node_def bind_eq_Some_conv lock_Some unlock_Some wl_remove_def
          requests_def split: if_split_asm)
    from assms(1) [OF True n this] Some show ?thesis by simp
  qed (simp add: kp_None)
  with True show ?thesis by (cases node) (simp_all add: kp_None)
qed (use assms(2) in simp)

lemma publish_errors:
  "serialize_publish_packet buf n d q r i t p = Some (Inl e) \<Longrightarrow> e < 0"
  by (auto simp: serialize_publish_packet_def mqtt_init_packet_header_def Let_def put_fold bind_eq_Some_conv
      split: if_split_asm option.split_asm sum.split_asm)

definition publish_post ::
  "UIoT_Client \<Rightarrow> PublishParams \<Rightarrow> int \<times> PublishParams \<Rightarrow> UIoT_Client \<Rightarrow> bool" where
  "publish_post c pp res c' \<longleftrightarrow>
     list_sub_wait_ack c' = list_sub_wait_ack c \<and> sub_handles c' = sub_handles c \<and> live c' = live c \<and>
     (fst res < 0 \<or> pp_qos pp = QOS0 \<longrightarrow> list_pub_wait_ack c' = list_pub_wait_ack c) \<and>
     (fst res \<ge> 0 \<and> pp_qos pp = QOS1 \<longrightarrow> fst res = int (unat (next_id (next_packet_id c))) \<and>
        length (list_pub_wait_ack c) < MAX_REPUB_NUM \<and>
        (\<exists>a info. pub_msg_id info = next_id (next_packet_id c) \<and>
           pub_node_state info = MQTT_NODE_STATE_NORMAL \<and>
           list_pub_wait_ack c' = list_pub_wait_ack c @ [(a, info)]))"

lemma publish_outcome:
  assumes "limits_ok c" "pp_qos pp \<le> 2"
  shows "kr (publish_post c pp) (uiot_mqtt_publish topic pp c)"
proof -
  have fresh: "filter (\<lambda>n. fst n \<noteq> next_addr c) (list_pub_wait_ack c) = list_pub_wait_ack c"
    using assms by (force simp: limits_ok_def wl_ok_def filter_id_conv)
  show ?thesis
    unfolding uiot_mqtt_publish_def
    apply (rule kp_if kp_Some t_conn t_time t_lock t_unlock t_next_if t_push_if t_remove_if t_send kp_let kp_sum kp_prod
        | assumption | (simp add: publish_post_def; fail) | rule kp_opt | (hypsubst, drule publish_errors, auto simp: publish_post_def tables_def; fail)
        | (insert fresh assms(2), auto simp: publish_post_def tables_def pushed_def requests_def; fail))+
    done
qed

text \<open>
  C6: Publishing at QoS 1 returns the identifier it used and appends exactly one node with that
  identifier to the list of requests that wait for an acknowledgement, which then has at most 20
  nodes; whenever it reports an error, after the buffer ran out, the list was full, memory was
  short or the packet could not be sent, the tables of the client are as before.  QoS 0 never
  touches them.
\<close>

theorem publish_records_request:
  assumes "reachable c" "pp_qos pp \<le> 2" "uiot_mqtt_publish topic pp c = Some ((r, pp'), c')"
  shows "list_sub_wait_ack c' = list_sub_wait_ack c \<and> sub_handles c' = sub_handles c \<and> live c' = live c \<and>
    (if r < 0 \<or> pp_qos pp = 0 then list_pub_wait_ack c' = list_pub_wait_ack c
     else (\<exists>a info. list_pub_wait_ack c' = list_pub_wait_ack c @ [(a, info)] \<and>
       r = int (unat (pub_msg_id info)) \<and> pub_msg_id info = next_id (next_packet_id c) \<and>
       pub_node_state info = MQTT_NODE_STATE_NORMAL \<and> length (list_pub_wait_ack c') \<le> 20))"
proof -
  have lim: "limits_ok c" using reachable_inv [OF assms(1)] by (simp add: client_inv_def)
  note post = krD [OF publish_outcome [OF lim assms(2)] assms(3)]
  have "r < 0 \<or> pp_qos pp = 0 \<or> pp_qos pp = 1"
  proof (cases "pp_qos pp = 2")
    case True
    with assms(3) have "r < 0" by (auto simp: uiot_mqtt_publish_def split: if_split_asm)
    then show ?thesis by simp
  qed (use assms(2) in linarith)
  with post show ?thesis by (auto simp: publish_post_def)
qed

subsection \<open>Subscribing\<close>

definition sub_request :: "16 word \<Rightarrow> MessageTypes \<Rightarrow> SubTopicHandle \<Rightarrow> UIoTSubInfo \<Rightarrow> bool" where
  "sub_request i type h info \<longleftrightarrow> sub_type info = type \<and> sub_msg_id info = i \<and>
     sub_node_state info = MQTT_NODE_STATE_NORMAL \<and> sub_handler info = h"

definition pushed_sub :: "16 word \<Rightarrow> MessageTypes \<Rightarrow> SubTopicHandle \<Rightarrow> UIoT_Client \<Rightarrow> UIoT_Client \<Rightarrow> bool" where
  "pushed_sub i type h c c' \<longleftrightarrow> length (list_sub_wait_ack c) < MAX_SUB_TOPICS \<and>
     (\<exists>info. sub_request i type h info \<and> list_sub_wait_ack c' = list_sub_wait_ack c @ [(next_addr c, info)]) \<and>
     list_pub_wait_ack c' = list_pub_wait_ack c \<and> sub_handles c' = sub_handles c \<and> live c' = live c"

lemma push_sub_tables:
  assumes "push_sub_info_to n i type h c = Some ((ret, node), c')"
  shows "ret < 0 \<and> tables c' = tables c \<or>
    ret = SUCCESS_RET \<and> node = Some (next_addr c) \<and> pushed_sub i type h c c'"
proof -
  have m: "HAL_Malloc c1 = (ok, c2) \<Longrightarrow> tables c2 = tables c1 \<and> write_buf c2 = write_buf c1" for c1 c2 :: UIoT_Client and ok
    by (auto simp: HAL_Malloc_def tables_def split: list.splits)
  have t: "countdown_ms k c1 = (t, c2) \<Longrightarrow> tables c2 = tables c1 \<and> write_buf c2 = write_buf c1" for k t and c1 c2 :: UIoT_Client
    using tables_env [of c1 c2] env_client(10) [of c1 c2] env_countdown_ms [of k c1 t c2] by blast
  show ?thesis
    using assms
    by (auto simp: push_sub_info_to_def bind_eq_Some_conv lock_Some unlock_Some Let_def wl_push_def
        get_bytes_def tables_def pushed_sub_def sub_request_def split: if_split_asm prod.split_asm dest!: m t)
qed

lemma t_push_sub:
  assumes "\<And>ret node c'. ret < 0 \<Longrightarrow> tables c' = tables c \<Longrightarrow> kr P (f ret node c')"
    "\<And>c'. pushed_sub i type h c c' \<Longrightarrow> kr P (f SUCCESS_RET (Some (next_addr c)) c')"
  shows "kr P (Option.bind (push_sub_info_to n i type h c) (\<lambda>((ret, node), c'). f ret node c'))"
proof (cases "push_sub_info_to n i type h c")
  case (Some x)
  obtain ret node c' where x: "x = ((ret, node), c')" by (metis surj_pair)
  from push_sub_tables [OF Some [unfolded x]] assms Some x show ?thesis by auto
qed (simp add: kp_None)

text \<open>The parts a request for a subscription may change, and their values.\<close>

definition request_tables ::
  "UIoT_Client \<Rightarrow> (nat \<times> UIoTPubInfo) list \<Rightarrow> SubTopicHandle list \<Rightarrow> (nat \<times> UIoTSubInfo) list \<Rightarrow> nat set \<Rightarrow> bool" where
  "request_tables c pubs hs subs l \<longleftrightarrow>
     list_pub_wait_ack c = pubs \<and> sub_handles c = hs \<and> list_sub_wait_ack c = subs \<and> live c = l"

lemma request_tables_simps: "request_tables c (list_pub_wait_ack c) (sub_handles c) (list_sub_wait_ack c) (live c)"
  by (simp add: request_tables_def)

lemma request_tables_cong: "request_tables c p h s l \<Longrightarrow> tables c' = tables c \<Longrightarrow> request_tables c' p h s l"
  by (simp add: request_tables_def tables_def)

lemma t_store:
  assumes "\<And>c'. tables c' = tables c \<Longrightarrow> kr P (f None c')"
    "\<And>c'. next_packet_id c' = next_packet_id c \<Longrightarrow> next_addr c' = Suc (next_addr c) \<Longrightarrow>
      request_tables c' (list_pub_wait_ack c) (sub_handles c) (list_sub_wait_ack c) (insert (next_addr c) (live c)) \<Longrightarrow>
      kr P (f (Some (next_addr c, s)) c')"
  shows "kr P (let (stored, c') = store_filter s c in f stored c')"
proof -
  obtain ok c1 where m: "HAL_Malloc c = (ok, c1)" by (metis surj_pair)
  then have "tables c1 = tables c \<and> next_packet_id c1 = next_packet_id c"
    by (auto simp: HAL_Malloc_def tables_def split: list.splits)
  with m assms show ?thesis
    by (cases ok) (simp_all add: store_filter_def request_tables_def tables_def)
qed

lemma t_remove_sub:
  assumes "\<And>c'. request_tables c' (list_pub_wait_ack c) (sub_handles c)
      (filter (\<lambda>n. fst n \<noteq> a) (list_sub_wait_ack c)) (live c) \<Longrightarrow> kr P (f c')"
  shows "kr P (Option.bind (remove_sub_node a c) f)"
proof (cases "remove_sub_node a c")
  case (Some c1)
  then have "request_tables c1 (list_pub_wait_ack c) (sub_handles c)
      (filter (\<lambda>n. fst n \<noteq> a) (list_sub_wait_ack c)) (live c)"
    by (auto simp: remove_sub_node_def bind_eq_Some_conv lock_Some unlock_Some wl_remove_def
        request_tables_def split: if_split_asm)
  from assms [OF this] Some show ?thesis by simp
qed (simp add: kp_None)

lemma t_free:
  assumes "\<And>c'. request_tables c' (list_pub_wait_ack c) (sub_handles c) (list_sub_wait_ack c) (live c - {a}) \<Longrightarrow>
      kr P (f c')"
  shows "kr P (Option.bind (free_filter (Some (a, s)) c) f)"
  using assms by (simp add: free_filter_def kp_None request_tables_def)

lemma subscribe_errors:
  "serialize_subscribe_packet buf n d i k ts qs = Some (Inl e) \<Longrightarrow> e < 0"
  "serialize_unsubscribe_packet buf n d i k ts = Some (Inl e) \<Longrightarrow> e < 0"
  by (auto simp: serialize_subscribe_packet_def serialize_unsubscribe_packet_def mqtt_init_packet_header_def
      Let_def put_fold bind_eq_Some_conv split: if_split_asm option.split_asm sum.split_asm)

definition subscribe_post :: "bytes \<Rightarrow> SubscribeParams \<Rightarrow> UIoT_Client \<Rightarrow> int \<Rightarrow> UIoT_Client \<Rightarrow> bool" where
  "subscribe_post topic sp c r c' \<longleftrightarrow>
     (if r < 0 then request_tables c' (list_pub_wait_ack c) (sub_handles c) (list_sub_wait_ack c) (live c)
      else \<exists>a info. request_tables c' (list_pub_wait_ack c) (sub_handles c)
          (list_sub_wait_ack c @ [(a, info)]) (insert (next_addr c) (live c)) \<and>
        r = int (unat (next_id (next_packet_id c))) \<and> length (list_sub_wait_ack c) < MAX_SUB_TOPICS \<and>
        sub_request (next_id (next_packet_id c)) SUBSCRIBE
          \<lparr>topic_filter = Some (next_addr c, topic), message_handler = sp_handler sp,
           message_handler_data = sp_user_data sp, sub_qos = sp_qos sp\<rparr> info)"

lemma subscribe_outcome:
  assumes "limits_ok c"
  shows "kr (subscribe_post topic sp c) (uiot_mqtt_subscribe topic sp c)"
proof -
  have fresh: "filter (\<lambda>n. fst n \<noteq> Suc (next_addr c)) (list_sub_wait_ack c) = list_sub_wait_ack c"
    "insert (next_addr c) (live c) - {next_addr c} = live c" "live c - {next_addr c} = live c"
    using assms by (force simp: limits_ok_def wl_ok_def filter_id_conv)+
  show ?thesis
    unfolding uiot_mqtt_subscribe_def
    apply (rule kp_if kp_Some t_conn t_time t_lock t_unlock t_next t_store t_push_sub t_remove_sub t_free t_send kp_let kp_sum kp_prod
        | assumption | (simp add: subscribe_post_def request_tables_simps; fail) | rule kp_opt
        | (hypsubst, drule subscribe_errors, insert fresh, auto simp: subscribe_post_def request_tables_def tables_def; fail)
        | (insert fresh, auto simp: subscribe_post_def tables_def pushed_sub_def request_tables_def; fail))+
    done
qed

text \<open>
  C7: Subscribing successfully returns the packet identifier and adds one waiting request that holds
  the only copy of the filter; on every error path, whatever failed, no request stays in the list
  and no memory is lost: the same filters are allocated as before the call.
\<close>

theorem subscribe_leaks_nothing:
  assumes "reachable c" "uiot_mqtt_subscribe topic sp c = Some (r, c')"
  shows "list_pub_wait_ack c' = list_pub_wait_ack c \<and> sub_handles c' = sub_handles c \<and>
    (if r < 0 then list_sub_wait_ack c' = list_sub_wait_ack c \<and> live c' = live c
     else (\<exists>p a info. p \<notin> live c \<and> live c' = insert p (live c) \<and>
       list_sub_wait_ack c' = list_sub_wait_ack c @ [(a, info)] \<and> length (list_sub_wait_ack c') \<le> 10 \<and>
       r = int (unat (sub_msg_id info)) \<and> sub_type info = SUBSCRIBE \<and>
       topic_filter (sub_handler info) = Some (p, topic)))"
proof -
  have lim: "limits_ok c" using reachable_inv [OF assms(1)] by (simp add: client_inv_def)
  then have "next_addr c \<notin> live c" by (auto simp: limits_ok_def)
  with krD [OF subscribe_outcome [OF lim] assms(2)] show ?thesis
    by (auto simp: subscribe_post_def request_tables_def sub_request_def)
qed

subsection \<open>Unsubscribing\<close>

definition drops :: "bytes \<Rightarrow> SubTopicHandle \<Rightarrow> SubTopicHandle" where
  "drops topic h =
     (if map_option snd (topic_filter h) = Some topic \<or> strstr2 SLASH HASH topic \<or> strstr2 SLASH PLUS topic
      then h\<lparr>topic_filter := None\<rparr> else h)"

lemma unsubscribe_loop_handles:
  "unsubscribe_loop topic i e c = Some (e', c') \<Longrightarrow> length (sub_handles c) = 10 \<Longrightarrow> i \<le> 10 \<Longrightarrow>
   sub_handles c' = take i (sub_handles c) @ map (drops topic) (drop i (sub_handles c))"
proof (induction topic i e c rule: unsubscribe_loop.induct)
  case (1 topic i e c)
  show ?case
  proof (cases "i < 10")
    case False
    with "1.prems" show ?thesis by (simp add: unsubscribe_loop.simps [of topic i])
  next
    case True
    let ?h = "sub_handles c ! i"
    let ?b = "map_option snd (topic_filter ?h) = Some topic \<or> strstr2 SLASH HASH topic \<or> strstr2 SLASH PLUS topic"
    have h: "arr_get (sub_handles c) i = Some ?h" using True "1.prems" by (simp add: arr_get_def)
    have d: "drop i (sub_handles c) = ?h # drop (Suc i) (sub_handles c)"
      using True "1.prems" by (simp add: Cons_nth_drop_Suc)
    note step = unsubscribe_loop.simps [of topic i e c]
    obtain same where same: "(case topic_filter ?h of None \<Rightarrow> Some False
        | Some p \<Rightarrow> do { f \<leftarrow> read_filter p c; Some (f = topic) }) = Some same"
      using "1.prems"(1) True h by (cases "case topic_filter ?h of None \<Rightarrow> Some False
        | Some p \<Rightarrow> do { f \<leftarrow> read_filter p c; Some (f = topic) }") (simp_all add: step)
    then have b: "same \<longleftrightarrow> map_option snd (topic_filter ?h) = Some topic"
      by (auto simp: read_filter_def split: option.split_asm if_split_asm)
    show ?thesis
    proof (cases ?b)
      case False
      with "1.prems" True h same b have "unsubscribe_loop topic (i + 1) e c = Some (e', c')"
        by (simp add: step)
      with "1.IH"(2) [OF True h same] False b "1.prems" True show ?thesis
        by (simp add: d drops_def take_Suc_conv_app_nth)
    next
      case tr: True
      with "1.prems"(1) True h same b obtain c1 where f: "free_filter (topic_filter ?h) c = Some c1"
        by (cases "free_filter (topic_filter ?h) c") (auto simp: step)
      let ?c = "c1\<lparr>sub_handles := (sub_handles c1)[i := ?h\<lparr>topic_filter := None\<rparr>]\<rparr>"
      have c1: "sub_handles c1 = sub_handles c"
        using f by (auto simp: free_filter_def split: option.split_asm if_split_asm)
      from "1.prems"(1) True h same b tr f have "unsubscribe_loop topic (i + 1) True ?c = Some (e', c')"
        by (auto simp: step)
      with "1.IH"(1) [OF True h same _ f refl] tr b "1.prems" True c1 show ?thesis
        by (simp add: d drops_def take_Suc_conv_app_nth)
    qed
  qed
qed

text \<open>What comes after the loop leaves the handles alone.\<close>

definition same_handles :: "UIoT_Client \<Rightarrow> 'r \<Rightarrow> UIoT_Client \<Rightarrow> bool" where
  "same_handles c r c' \<longleftrightarrow> sub_handles c' = sub_handles c"

lemma unsubscribe_handles:
  assumes "topic \<noteq> []" "length topic \<le> 128" "length (sub_handles c) = 10"
    and r: "uiot_mqtt_unsubscribe topic c = Some (r, c')"
  shows "sub_handles c' = map (drops topic) (sub_handles c)"
proof -
  from r assms(1,2) obtain c1 e c2 where l: "HAL_MutexLock lock_generic c = Some c1"
    "unsubscribe_loop topic 0 False c1 = Some (e, c2)"
    by (auto simp: uiot_mqtt_unsubscribe_def bind_eq_Some_conv)
  from l(1) have c1: "sub_handles c1 = sub_handles c" by (auto simp: lock_Some)
  have "kr (same_handles c2) (uiot_mqtt_unsubscribe topic c)"
    unfolding uiot_mqtt_unsubscribe_def l Option.bind.simps prod.case
    by (rule kp_if kp_Some t_conn t_time t_lock t_unlock t_next t_store t_push_sub t_remove_sub t_free t_send kp_let kp_sum kp_prod
        | assumption | (use assms in \<open>simp; fail\<close>) | rule kp_opt
        | (auto simp: same_handles_def tables_def pushed_sub_def request_tables_def; fail))+
  with r unsubscribe_loop_handles [OF l(2)] c1 assms(3) show ?thesis
    by (simp add: kr_def same_handles_def)
qed

text \<open>
  C9: Unsubscribing drops the handles with exactly this filter and leaves the others as they are,
  also when the request cannot be sent afterwards; but a filter that contains \<open>/#\<close> or \<open>/+\<close>
  drops the handles of all subscriptions of the client, whatever their filters.
\<close>

theorem unsubscribe_drops_handles:
  assumes "reachable c" "topic \<noteq> []" "length topic \<le> 128"
    and "uiot_mqtt_unsubscribe topic c = Some (r, c')"
  shows "if strstr2 SLASH HASH topic \<or> strstr2 SLASH PLUS topic
    then \<forall>h \<in> set (sub_handles c'). topic_filter h = None
    else sub_handles c' = map (\<lambda>h. if map_option snd (topic_filter h) = Some topic
      then h\<lparr>topic_filter := None\<rparr> else h) (sub_handles c)"
proof -
  have "length (sub_handles c) = 10" using reachable_inv [OF assms(1)] by (simp add: client_inv_def)
  from unsubscribe_handles [OF assms(2,3) this assms(4)] show ?thesis
    by (auto simp: drops_def)
qed

subsection \<open>Publishing on a calm platform\<close>

lemma push_pub_calm:
  assumes "ticks c = []" "mallocs c = []" "lock_list_pub \<notin> held c" "n \<le> write_buf_size c"
    "n \<le> length (write_buf c)" "length (list_pub_wait_ack c) < MAX_REPUB_NUM"
  shows "\<exists>t. mask_push_pubInfo_to n i c = Some ((SUCCESS_RET, Some (next_addr c)),
    (later 1 c)\<lparr>list_pub_wait_ack := list_pub_wait_ack c @ [(next_addr c,
        \<lparr>pub_start_time = t, pub_node_state = MQTT_NODE_STATE_NORMAL, pub_msg_id = i, pub_buf = take n (write_buf c)\<rparr>)],
      next_addr := Suc (next_addr c)\<rparr>)"
  using assms
  by (cases c) (simp add: mask_push_pubInfo_to_def HAL_MutexLock_def HAL_MutexUnlock_def malloc_calm
      countdown_ms_calm get_bytes_def wl_push_def later_def)

lemma publish_calm:
  assumes c: "calm c" "is_connected c" "handle c \<noteq> 0"
    and t: "topic \<noteq> []" "length topic \<le> 128" "pp_payload pp = Some payload"
    and q: "pp_qos pp \<le> 1" "pp_qos pp = 1 \<Longrightarrow> length (list_pub_wait_ack c) < MAX_REPUB_NUM"
    and len: "length topic + length payload + 12 < write_buf_size c" "write_buf_size c < 268435400"
    and i: "i = (if pp_qos pp = 1 then next_id (next_packet_id c) else pp_id pp)"
    and h: "mqtt_init_packet_header PUBLISH (pp_qos pp) 0 (pp_retained pp) = Inr h"
  shows "\<exists>c'. uiot_mqtt_publish topic pp c = Some ((int (unat i), pp\<lparr>pp_id := i\<rparr>), c') \<and>
    wire c' = wire c @ frame h (publish_body (pp_qos pp) i topic payload)"
proof -
  let ?f = "frame h (publish_body (pp_qos pp) i topic payload)"
  let ?wb = "?f @ drop (length ?f) (write_buf c)"
  let ?t = "Suc (clock c + command_timeout_ms c * 1000)"
  note c' = c(1) [unfolded calm_def]
  have lb: "length (publish_body (pp_qos pp) i topic payload) = 2 + length topic + length payload + (if pp_qos pp > 0 then 2 else 0)"
    by (simp add: length_publish_body)
  then have blen: "length (publish_body (pp_qos pp) i topic payload) < 268435456" using len by simp
  then have "length (rem_len_bytes (length (publish_body (pp_qos pp) i topic payload))) \<le> 4"
    by (simp add: length_rem_len_bytes)
  then have n: "length ?f < write_buf_size c" "0 < length ?f"
    "get_mqtt_packet_len (length (publish_body (pp_qos pp) i topic payload)) \<le> write_buf_size c"
    using len lb get_mqtt_packet_len_bounds(2) [OF blen] by (auto simp: frame_def split: if_splits)
  define c1 where "c1 = (later 1 c)\<lparr>held := {lock_write_buf}\<rparr>"
  define c2 where "c2 = c1\<lparr>next_packet_id := (if pp_qos pp = 1 then i else next_packet_id c)\<rparr>"
  have s1: "get_client_conn_state c = Some (True, c)" using c' c(2) by (simp add: get_conn_state_eq)
  have s2: "countdown_ms (command_timeout_ms c) c = (?t, later 1 c)" using countdown_ms_calm [of c] c' by simp
  have s3: "HAL_MutexLock lock_write_buf (later 1 c) = Some c1" using c' by (simp add: HAL_MutexLock_def c1_def)
  have s4: "(if pp_qos pp = QOS1 then get_next_packet_id c1 else Some (pp_id pp, c1)) = Some (i, c2)"
    using i by (simp add: get_next_packet_id_eq c1_def c2_def)
  have s5: "serialize_publish_packet (write_buf c2) (write_buf_size c2) 0 (pp_qos pp) (pp_retained pp) i topic (Some payload)
      = Some (Inr (?wb, length ?f))"
    using serialize_publish_layout [of topic payload] len n blen c' h framed_eq [OF blen, of "write_buf_size c" "write_buf c"]
    by (simp add: c2_def c1_def placed_def)
  obtain node c3 where s6: "(if pp_qos pp > QOS0 then mask_push_pubInfo_to (length ?f) i (c2\<lparr>write_buf := ?wb\<rparr>)
      else Some ((SUCCESS_RET, None), c2\<lparr>write_buf := ?wb\<rparr>)) = Some ((SUCCESS_RET, node), c3)"
    and c3: "ticks c3 = []" "ssl_tx c3 = []" "handle c3 \<noteq> 0" "write_buf c3 = ?wb" "write_buf_size c3 = write_buf_size c"
      "wire c3 = wire c" "held c3 = {lock_write_buf}" "clock c + 1 \<le> clock c3" "clock c3 \<le> clock c + 2"
  proof (cases "pp_qos pp = 0")
    case True
    then show ?thesis using c' c(3) that by (simp add: c2_def c1_def)
  next
    case False
    then have q1: "pp_qos pp = 1" using q(1) by linarith
    have "length (list_pub_wait_ack c) < 20" using q(2) [OF q1] by simp
    with push_pub_calm [of "c2\<lparr>write_buf := ?wb\<rparr>" "length ?f" i] c' n q1 c(3) that show ?thesis
      by (auto simp: c2_def c1_def)
  qed
  have "running ?t c3" using c' c3(8,9) by (simp add: running_def)
  then have s7: "send_mqtt_packet (length ?f) ?t c3 = Some (SUCCESS_RET, (later 5 c3)\<lparr>wire := wire c @ ?f\<rparr>)"
    using send_mqtt_packet_calm [of c3 ?t "length ?f"] c3 n by simp
  show ?thesis
    using t q(1) c3(7)
    by (simp add: uiot_mqtt_publish_def s1 s2 s3 s4 s5 s6 s7 HAL_MutexUnlock_def del: One_nat_def of_nat_unat)
qed

lemma publish_frame_decodes:
  fixes i :: "16 word"
  assumes h: "mqtt_init_packet_header PUBLISH qos 0 retained = Inr h"
    and "qos \<le> 2" "length topic \<le> 128" "length topic + length payload < 268435452"
  defines "pkt \<equiv> frame h (publish_body qos i topic payload)"
  shows "\<exists>n k f. mqtt_read_packet_rem_len_form_buf pkt 1 = Some (Inr (n, k)) \<and> length pkt = 1 + k + n \<and>
    deserialize_publish_packet pkt (length pkt) = Some (Inr f) \<and>
    pf_dup f = 0 \<and> pf_qos f = qos \<and> pf_retained f = retained AND 1 \<and>
    pf_packet_id f = (if qos = 0 then None else Some i) \<and>
    pf_topic_len f = length topic \<and> take (length topic) (drop (pf_topic_pos f) pkt) = topic \<and>
    drop (pf_payload_pos f) pkt = payload \<and> unat (pf_payload_len f) = length payload"
proof -
  let ?body = "publish_body qos i topic payload"
  have lb: "length ?body = 2 + length topic + length payload + (if qos > 0 then 2 else 0)"
    by (simp add: length_publish_body)
  have n4: "4 \<le> length pkt" using lb by (simp add: pkt_def frame_length body_pos_def length_rem_len_bytes)
  have p64: "unat (word_of_nat (length payload) :: 64 word) = length payload"
    using assms(4) by (simp add: unat_of_nat)
  have topic: "take (length topic) (drop (body_pos ?body + 2) pkt) = topic"
    using frame_drop [of 2 ?body h "[]"] lb by (simp add: pkt_def publish_body_def utf8_bytes_def)
  have "drop (length ?body - length payload) ?body = payload"
    unfolding lb by (simp add: publish_body_def)
  then have payload: "drop (body_pos ?body + (length ?body - length payload)) pkt = payload"
    using frame_drop [of "length ?body - length payload" ?body h "[]"] lb by (simp add: pkt_def)
  have len: "mqtt_read_packet_rem_len_form_buf pkt 1 = Some (Inr (length ?body, body_pos ?body - 1))"
    "length pkt = 1 + (body_pos ?body - 1) + length ?body"
    using frame_rem_len [of ?body h "[]"] lb assms(4)
    by (simp_all add: pkt_def frame_length body_pos_def split: if_splits)
  show ?thesis
    using publish_roundtrip [OF h _ _ _ n4, of topic payload i "[]"] assms(2-4) topic payload p64 len
    by (simp add: pkt_def)
qed

text \<open>
  C8: Publishing works end to end: on a calm platform a connected client that publishes a message
  that fits puts exactly one packet on the wire and returns its identifier.  What is added to the
  wire is as long as the remaining length in its header says, so nothing stands behind the packet;
  read by \<open>deserialize_publish_packet\<close> it has the QoS, the RETAIN bit, the identifier and the topic
  of the call, no DUP bit, and the payload of the call is all that follows up to its end.
\<close>

theorem publish_sends_packet:
  assumes "calm c" "is_connected c" "handle c \<noteq> 0"
    and "topic \<noteq> []" "length topic \<le> 128" "pp_payload pp = Some payload"
    and "pp_qos pp \<le> 1" "pp_qos pp = 1 \<Longrightarrow> length (list_pub_wait_ack c) < 20"
    and "length topic + length payload + 12 < write_buf_size c" "write_buf_size c < 268435400"
  shows "\<exists>r pp' c' pkt n k f. uiot_mqtt_publish topic pp c = Some ((r, pp'), c') \<and>
    wire c' = wire c @ pkt \<and>
    mqtt_read_packet_rem_len_form_buf pkt 1 = Some (Inr (n, k)) \<and> length pkt = 1 + k + n \<and>
    deserialize_publish_packet pkt (length pkt) = Some (Inr f) \<and>
    r = int (unat (pp_id pp')) \<and>
    pf_dup f = 0 \<and> pf_qos f = pp_qos pp \<and> pf_retained f = pp_retained pp AND 1 \<and>
    pf_packet_id f = (if pp_qos pp = 0 then None else Some (pp_id pp')) \<and>
    pf_topic_len f = length topic \<and> take (length topic) (drop (pf_topic_pos f) pkt) = topic \<and>
    drop (pf_payload_pos f) pkt = payload \<and> unat (pf_payload_len f) = length payload"
proof -
  let ?i = "if pp_qos pp = 1 then next_id (next_packet_id c) else pp_id pp"
  obtain h where h: "mqtt_init_packet_header PUBLISH (pp_qos pp) 0 (pp_retained pp) = Inr h"
    using header_total [of PUBLISH] by blast
  define pkt where "pkt = frame h (publish_body (pp_qos pp) ?i topic payload)"
  from publish_calm [OF assms refl h] obtain c' where
    p: "uiot_mqtt_publish topic pp c = Some ((int (unat ?i), pp\<lparr>pp_id := ?i\<rparr>), c')" "wire c' = wire c @ pkt"
    unfolding pkt_def by blast
  have "pp_qos pp \<le> 2" "length topic + length payload < 268435452" using assms(7,9,10) by simp_all
  from publish_frame_decodes [OF h this(1) assms(5) this(2), of ?i, folded pkt_def]
  obtain n k f where d: "mqtt_read_packet_rem_len_form_buf pkt 1 = Some (Inr (n, k))" "length pkt = 1 + k + n"
    "deserialize_publish_packet pkt (length pkt) = Some (Inr f)" "pf_dup f = 0" "pf_qos f = pp_qos pp"
    "pf_retained f = pp_retained pp AND 1" "pf_packet_id f = (if pp_qos pp = 0 then None else Some ?i)"
    "pf_topic_len f = length topic" "take (length topic) (drop (pf_topic_pos f) pkt) = topic"
    "drop (pf_payload_pos f) pkt = payload" "unat (pf_payload_len f) = length payload"
    by (elim exE conjE)
  have "pp_id (pp\<lparr>pp_id := ?i\<rparr>) = ?i" by simp
  with p d show ?thesis
    by (intro exI [of _ "int (unat ?i)"] exI [of _ "pp\<lparr>pp_id := ?i\<rparr>"] exI [of _ c']
        exI [of _ pkt] exI [of _ n] exI [of _ k] exI [of _ f]) (simp only: simp_thms)
qed

subsection \<open>Subscribing on a calm platform\<close>

lemma push_sub_calm:
  assumes "ticks c = []" "mallocs c = []" "lock_list_sub \<notin> held c"
    "n \<le> length (write_buf c)" "length (list_sub_wait_ack c) < MAX_SUB_TOPICS"
  shows "\<exists>t. push_sub_info_to n i type h c = Some ((SUCCESS_RET, Some (next_addr c)),
    (later 1 c)\<lparr>list_sub_wait_ack := list_sub_wait_ack c @ [(next_addr c,
        \<lparr>sub_type = type, sub_msg_id = i, sub_start_time = t, sub_node_state = MQTT_NODE_STATE_NORMAL,
         sub_handler = h, sub_buf = take n (write_buf c)\<rparr>)],
      next_addr := Suc (next_addr c)\<rparr>)"
  using assms
  by (cases c) (simp add: push_sub_info_to_def HAL_MutexLock_def HAL_MutexUnlock_def malloc_calm
      countdown_ms_calm get_bytes_def wl_push_def later_def)

lemma subscribe_calm:
  assumes c: "calm c" "is_connected c" "handle c \<noteq> 0"
    and t: "topic \<noteq> []" "length topic \<le> 128" "sp_qos sp \<noteq> 2"
    and q: "length (list_sub_wait_ack c) < MAX_SUB_TOPICS"
    and len: "length topic + 12 < write_buf_size c" "write_buf_size c < 268435400"
  defines "i \<equiv> next_id (next_packet_id c)"
  shows "\<exists>c'. uiot_mqtt_subscribe topic sp c = Some (int (unat i), c') \<and>
    wire c' = wire c @ frame 0x82 (uint16_bytes i @ utf8_bytes topic @ [word_of_nat (sp_qos sp)])"
proof -
  let ?body = "uint16_bytes i @ utf8_bytes topic @ [word_of_nat (sp_qos sp)]"
  let ?f = "frame 0x82 ?body"
  let ?wb = "?f @ drop (length ?f) (write_buf c)"
  let ?t = "Suc (clock c + command_timeout_ms c * 1000)"
  let ?p = "Some (next_addr c, topic)"
  let ?h = "\<lparr>topic_filter = ?p, message_handler = sp_handler sp,
                      message_handler_data = sp_user_data sp, sub_qos = sp_qos sp\<rparr>"
  note c' = c(1) [unfolded calm_def]
  have hdr: "mqtt_init_packet_header SUBSCRIBE QOS1 0 0 = Inr 0x82" by code_simp
  have blen: "length ?body < 268435456" using len by simp
  then have "length (rem_len_bytes (length ?body)) \<le> 4" by (simp add: length_rem_len_bytes)
  then have n: "length ?f < write_buf_size c" "0 < length ?f" "get_mqtt_packet_len (length ?body) \<le> write_buf_size c"
    using len get_mqtt_packet_len_bounds(2) [OF blen] by (auto simp: frame_def)
  define c0 where "c0 = c\<lparr>live := insert (next_addr c) (live c), next_addr := Suc (next_addr c)\<rparr>"
  define c1 where "c1 = (later 1 c0)\<lparr>held := {lock_write_buf}\<rparr>"
  define c2 where "c2 = c1\<lparr>next_packet_id := i\<rparr>"
  have s1: "get_client_conn_state c = Some (True, c)" using c' c(2) by (simp add: get_conn_state_eq)
  have s0: "store_filter topic c = (?p, c0)" using c' by (simp add: store_filter_def malloc_calm c0_def)
  have s2: "countdown_ms (command_timeout_ms c0) c0 = (?t, later 1 c0)"
    using countdown_ms_calm [of c0] c' by (simp add: c0_def)
  have s3: "HAL_MutexLock lock_write_buf (later 1 c0) = Some c1" using c' by (simp add: HAL_MutexLock_def c1_def c0_def)
  have s4: "get_next_packet_id c1 = Some (i, c2)"
    by (simp add: get_next_packet_id_eq c1_def c2_def c0_def i_def)
  have s5: "serialize_subscribe_packet (write_buf c2) (write_buf_size c2) 0 i 1 [topic] [sp_qos sp]
      = Some (Inr (?wb, length ?f))"
    using serialize_subscribe_layout [of topic "write_buf c" "write_buf_size c" 0 i "sp_qos sp"] len n c' hdr
      framed_eq [OF blen, of "write_buf_size c" "write_buf c"]
    by (simp add: c2_def c1_def c0_def placed_def)
  obtain node c3 where s6: "push_sub_info_to (length ?f) i SUBSCRIBE ?h (c2\<lparr>write_buf := ?wb\<rparr>)
      = Some ((SUCCESS_RET, node), c3)"
    and c3: "ticks c3 = []" "ssl_tx c3 = []" "handle c3 \<noteq> 0" "write_buf c3 = ?wb" "write_buf_size c3 = write_buf_size c"
      "wire c3 = wire c" "held c3 = {lock_write_buf}" "clock c + 1 \<le> clock c3" "clock c3 \<le> clock c + 2"
    using push_sub_calm [of "c2\<lparr>write_buf := ?wb\<rparr>" "length ?f" i SUBSCRIBE ?h] c' n q c(3)
    by (auto simp: c2_def c1_def c0_def)
  have "running ?t c3" using c' c3(8,9) by (simp add: running_def)
  then have s7: "send_mqtt_packet (length ?f) ?t c3 = Some (SUCCESS_RET, (later 5 c3)\<lparr>wire := wire c @ ?f\<rparr>)"
    using send_mqtt_packet_calm [of c3 ?t "length ?f"] c3 n by simp
  show ?thesis
    using t c3(7)
    by (simp add: uiot_mqtt_subscribe_def s0 s1 s2 s3 s4 s5 s6 s7 HAL_MutexUnlock_def del: One_nat_def of_nat_unat)
qed

subsection \<open>Witnesses\<close>

definition hello :: PublishParams where
  "hello = \<lparr>pp_qos = 1, pp_retained = 0, pp_id = 0, pp_payload = Some [0x68, 0x69]\<rparr>"

definition listen :: SubscribeParams where
  "listen = \<lparr>sp_qos = 1, sp_handler = Some 7, sp_user_data = 0\<rparr>"

lemma session_facts:
  assumes "reachable c"
  shows "is_connected c \<Longrightarrow> handle c \<noteq> 0" "write_buf_size c = 2048"
  using reachable_inv [OF assms] by (simp_all add: client_inv_def conn_ok_def)

theorem publish_sends_packet_witness:
  "\<exists>(c :: UIoT_Client) r pp' c' pkt. uiot_mqtt_publish [0x61] hello c = Some ((r, pp'), c') \<and> wire c' = wire c @ pkt"
proof -
  obtain c where c: "reachable c" "is_connected c" "calm c" "list_pub_wait_ack c = []" using example_session by blast
  note s = session_facts [OF c(1)]
  show ?thesis
    using publish_sends_packet [of c "[0x61]" hello "[0x68, 0x69]"] c s by (fastforce simp: hello_def)
qed

theorem publish_records_request_witness:
  "\<exists>c r pp' c' n. uiot_mqtt_publish [0x61] hello c = Some ((r, pp'), c') \<and> 0 \<le> r \<and> list_pub_wait_ack c' = [n]"
proof -
  obtain c where c: "reachable c" "is_connected c" "calm c" "list_pub_wait_ack c = []" using example_session by blast
  note s = session_facts [OF c(1)]
  obtain h where h: "mqtt_init_packet_header PUBLISH (pp_qos hello) 0 (pp_retained hello) = Inr h"
    using header_total [of PUBLISH] by blast
  have q: "pp_qos hello = 1" "pp_payload hello = Some [0x68, 0x69]" by (simp_all add: hello_def)
  obtain c' pp' where r: "uiot_mqtt_publish [0x61] hello c = Some ((int (unat (next_id (next_packet_id c))), pp'), c')"
    using publish_calm [of c "[0x61]" hello "[0x68, 0x69]", OF _ _ _ _ _ _ _ _ _ _ refl h] c s q by auto
  have "pp_qos hello \<le> 2" by (simp add: q)
  from publish_records_request [OF c(1) this r] q(1) c(4) obtain n where "list_pub_wait_ack c' = [n]"
    by (auto simp del: of_nat_unat)
  with r of_nat_0_le_iff show ?thesis by blast
qed

theorem subscribe_leaks_nothing_witness:
  "\<exists>c r c' n. uiot_mqtt_subscribe [0x61] listen c = Some (r, c') \<and> 0 \<le> r \<and> list_sub_wait_ack c' = [n]"
proof -
  obtain c where c: "reachable c" "is_connected c" "calm c" "list_sub_wait_ack c = []" using example_session by blast
  note s = session_facts [OF c(1)]
  obtain c' where r: "uiot_mqtt_subscribe [0x61] listen c = Some (int (unat (next_id (next_packet_id c))), c')"
    using subscribe_calm [of c "[0x61]" listen] c s by (fastforce simp: listen_def)
  from subscribe_leaks_nothing [OF c(1) r] c(4) obtain n where "list_sub_wait_ack c' = [n]"
    by (auto simp del: of_nat_unat)
  with r of_nat_0_le_iff show ?thesis by blast
qed

theorem unsubscribe_drops_handles_witness:
  "\<exists>c r c'. uiot_mqtt_unsubscribe [0x61] c = Some (r, c') \<and> sub_handles c' = sub_handles c"
proof -
  obtain c where c: "reachable c" "calm c" "sub_handles c = replicate 10 no_handle" using example_session by blast
  have l: "\<forall>h \<in> set (sub_handles c). topic_filter h = None" using c(3) by (simp add: no_handle_def)
  have "i \<le> 10 \<Longrightarrow> sub_handles c1 = replicate 10 no_handle \<Longrightarrow> unsubscribe_loop [0x61] i False c1 = Some (False, c1)" for i c1
    by (induction "10 - i" arbitrary: i)
      (auto simp: unsubscribe_loop.simps [of _ _ _ c1] arr_get_def no_handle_def)
  then have "uiot_mqtt_unsubscribe [0x61] c = Some (ERR_MQTT_UNSUB_FAILED, c)"
    using c by (auto simp: uiot_mqtt_unsubscribe_def HAL_MutexLock_def HAL_MutexUnlock_def calm_def)
  moreover from unsubscribe_drops_handles [OF c(1) _ _ this] l
  have "sub_handles c = map (\<lambda>h. h) (sub_handles c)" by simp
  ultimately show ?thesis by blast
qed

end
