(* ===== verification/Dispatch_Props.thy ===== *)
theory Dispatch_Props
  imports Request_Props
begin

text \<open>
  Acknowledgements, timeouts and incoming messages: what happens to a request that waits, and
  what the application gets to see.
\<close>

subsection \<open>The supervision of publishes\<close>

lemma left_ms_due:
  assumes "left_ms t c = (ms, c1)"
  shows "env c c1" "clock c < clock c1"
    "t < clock c + 2147483648000 \<Longrightarrow> ms > 0 \<longleftrightarrow> clock c1 + 1000 \<le> t"
proof -
  show "env c c1" using env_left_ms [OF assms] .
  obtain now c2 where g: "gettimeofday c = (now, c2)" by (metis surj_pair)
  then have now: "clock c2 = now" "clock c < now" by (auto simp: gettimeofday_def Let_def)
  from assms g have r: "c1 = c2" "ms = int_of_uint32 (if now \<le> t then ((t - now) div 1000) mod 2 ^ 32 else 0)"
    by (auto simp: left_ms_def HAL_Timer_Remain_ms_def)
  show "clock c < clock c1" using now r by simp
  assume t: "t < clock c + 2147483648000"
  show "ms > 0 \<longleftrightarrow> clock c1 + 1000 \<le> t"
  proof (cases "now \<le> t")
    case True
    have b: "(t - now) div 1000 < 2147483648" using t now by simp
    then have "ms = int ((t - now) div 1000)" using True r by (simp add: int_of_uint32_def)
    then show ?thesis using True now r by (simp add: div_greater_zero_iff le_diff_conv2 add.commute)
  qed (use now r in \<open>simp add: int_of_uint32_def\<close>)
qed

definition pub_timeout :: "nat \<times> UIoTPubInfo \<Rightarrow> event" where
  "pub_timeout n = MQTT_EVENT_PUBLISH_TIMEOUT (pub_msg_id (snd n))"

text \<open>
  \<open>supervised R ns c c'\<close>: of the nodes \<open>ns\<close>, those with addresses in \<open>R\<close> are removed, because they
  are acknowledged or because their time is over; the application is told of the latter.
\<close>

definition supervised :: "nat set \<Rightarrow> (nat \<times> UIoTPubInfo) list \<Rightarrow> UIoT_Client \<Rightarrow> UIoT_Client \<Rightarrow> bool" where
  "supervised R ns c c' \<longleftrightarrow> R \<subseteq> fst ` set ns \<and>
     list_pub_wait_ack c' = filter (\<lambda>n. fst n \<notin> R) (list_pub_wait_ack c) \<and>
     events c' = events c @ (if event_handler c then map (\<lambda>n. (pub_timeout n, held c))
       (filter (\<lambda>n. fst n \<in> R \<and> pub_node_state (snd n) = MQTT_NODE_STATE_NORMAL) ns) else []) \<and>
     (\<forall>n \<in> set ns. fst n \<in> R \<longrightarrow> pub_node_state (snd n) = MQTT_NODE_STATE_INVALID \<or>
        is_connected c \<and> pub_start_time (snd n) < clock c' + 1000) \<and>
     (\<forall>n \<in> set ns. fst n \<notin> R \<longrightarrow> pub_node_state (snd n) = MQTT_NODE_STATE_NORMAL \<and>
        (is_connected c \<longrightarrow> clock c < pub_start_time (snd n)))"

definition unmoved :: "UIoT_Client \<Rightarrow> UIoT_Client \<Rightarrow> bool" where
  "unmoved c c' \<longleftrightarrow> clock c \<le> clock c' \<and> held c' = held c \<and> is_connected c' = is_connected c \<and>
     event_handler c' = event_handler c"

lemma supervised_keep:
  assumes "supervised R ns c1 c'" "list_pub_wait_ack c1 = list_pub_wait_ack c" "events c1 = events c"
    "unmoved c c1" "n = (a, i)" "a \<notin> fst ` set ns" "pub_node_state i = MQTT_NODE_STATE_NORMAL"
    "is_connected c \<Longrightarrow> clock c < pub_start_time i"
  shows "supervised R (n # ns) c c'"
proof -
  have a: "a \<notin> R" using assms(1,6) by (auto simp: supervised_def)
  note s = assms(1) [unfolded supervised_def] and u = assms(4) [unfolded unmoved_def]
  show ?thesis
    unfolding supervised_def
  proof (intro conjI ballI impI)
    show "R \<subseteq> fst ` set (n # ns)" using s by auto
    show "list_pub_wait_ack c' = filter (\<lambda>n. fst n \<notin> R) (list_pub_wait_ack c)" using s assms(2) by simp
    show "events c' = events c @ (if event_handler c then map (\<lambda>n. (pub_timeout n, held c))
       (filter (\<lambda>n. fst n \<in> R \<and> pub_node_state (snd n) = MQTT_NODE_STATE_NORMAL) (n # ns)) else [])"
      using s assms(3,5) u a by simp
    fix m assume m: "m \<in> set (n # ns)"
    { assume r: "fst m \<in> R"
      with m a assms(5) have "m \<in> set ns" by auto
      with r s u show "pub_node_state (snd m) = MQTT_NODE_STATE_INVALID \<or>
          is_connected c \<and> pub_start_time (snd m) < clock c' + 1000" by simp }
    assume r: "fst m \<notin> R"
    show "pub_node_state (snd m) = MQTT_NODE_STATE_NORMAL"
      using m r s assms(5,7) by auto
    show "clock c < pub_start_time (snd m)" if "is_connected c"
    proof (cases "m = n")
      case False
      with m r s u that have "clock c1 < pub_start_time (snd m)" by simp
      with u show ?thesis by simp
    qed (use assms(5,8) that in simp)
  qed
qed

lemma supervised_drop:
  assumes s: "supervised R ns c1 c'" and n: "n = (a, i)" "a \<notin> fst ` set ns"
    and c1: "list_pub_wait_ack c1 = filter (\<lambda>m. fst m \<noteq> a) (list_pub_wait_ack c)" "unmoved c c1" "clock c1 \<le> clock c'"
    and ev: "events c1 = events c @ (if event_handler c \<and> pub_node_state i = MQTT_NODE_STATE_NORMAL then [(pub_timeout n, held c)] else [])"
    and due: "pub_node_state i = MQTT_NODE_STATE_INVALID \<or> is_connected c \<and> pub_start_time i < clock c1 + 1000"
  shows "supervised (insert a R) (n # ns) c c'"
proof -
  have a: "a \<notin> R" using s n(2) by (auto simp: supervised_def)
  have f: "filter (\<lambda>m. (fst m = a \<or> fst m \<in> R) \<and> Q m) ns = filter (\<lambda>m. fst m \<in> R \<and> Q m) ns" for Q
    using n(2) by (intro filter_cong) force+
  have c1': "held c1 = held c" "is_connected c1 = is_connected c" "event_handler c1 = event_handler c" "clock c \<le> clock c1"
    using c1(2) by (simp_all add: unmoved_def)
  note s' = s [unfolded supervised_def]
  show ?thesis
    unfolding supervised_def
  proof (intro conjI ballI impI)
    show "insert a R \<subseteq> fst ` set (n # ns)" using s' n by auto
    show "list_pub_wait_ack c' = filter (\<lambda>n. fst n \<notin> insert a R) (list_pub_wait_ack c)"
      using s' c1(1) by (simp add: conj_commute)
    have "filter (\<lambda>m. fst m \<in> insert a R \<and> pub_node_state (snd m) = MQTT_NODE_STATE_NORMAL) (n # ns) =
        (if pub_node_state i = MQTT_NODE_STATE_NORMAL then [n] else []) @
        filter (\<lambda>m. fst m \<in> R \<and> pub_node_state (snd m) = MQTT_NODE_STATE_NORMAL) ns"
      using n(1) by (simp add: f)
    then show "events c' = events c @ (if event_handler c then map (\<lambda>n. (pub_timeout n, held c))
       (filter (\<lambda>n. fst n \<in> insert a R \<and> pub_node_state (snd n) = MQTT_NODE_STATE_NORMAL) (n # ns)) else [])"
      using s' ev c1' by simp
    fix m assume m: "m \<in> set (n # ns)"
    { assume r: "fst m \<in> insert a R"
      show "pub_node_state (snd m) = MQTT_NODE_STATE_INVALID \<or>
          is_connected c \<and> pub_start_time (snd m) < clock c' + 1000"
      proof (cases "m = n")
        case False
        with m have "m \<in> set ns" by simp
        moreover from this r n(2) have "fst m \<in> R" by auto
        ultimately show ?thesis using s' c1' by simp
      qed (use n due c1(3) in auto) }
    assume k: "fst m \<notin> insert a R"
    with m n have m': "m \<in> set ns" "fst m \<notin> R" by auto
    with s' show "pub_node_state (snd m) = MQTT_NODE_STATE_NORMAL" by simp
    assume "is_connected c"
    with s' m' c1' have "clock c1 < pub_start_time (snd m)" by simp
    with c1' show "clock c < pub_start_time (snd m)" by simp
  qed
qed

lemma pub_info_loop_spec:
  assumes "pub_info_loop ns c = Some c'" "distinct (map fst ns)" "lock_list_pub \<in> held c"
    "\<forall>n \<in> set ns. pub_start_time (snd n) < clock c + 2147483648000"
  shows "(\<exists>R. supervised R ns c c') \<and> unmoved c c'"
  using assms
proof (induction ns arbitrary: c)
  case Nil
  then show ?case by (auto simp: supervised_def unmoved_def)
next
  case (Cons n ns)
  obtain a i where n: "n = (a, i)" by (cases n)
  have a: "a \<notin> fst ` set ns" using Cons.prems(2) n by auto
  note loop = Cons.prems(1) [unfolded n pub_info_loop.simps]
  consider (acked) "pub_node_state i = MQTT_NODE_STATE_INVALID"
    | (offline) "pub_node_state i = MQTT_NODE_STATE_NORMAL" "\<not> is_connected c"
    | (online) "pub_node_state i = MQTT_NODE_STATE_NORMAL" "is_connected c"
    by (cases "pub_node_state i") blast+
  then show ?case
  proof cases
    case acked
    with loop obtain l where l: "wl_remove (list_pub_wait_ack c) a = Some l"
      "pub_info_loop ns (c\<lparr>list_pub_wait_ack := l\<rparr>) = Some c'" by (auto simp: bind_eq_Some_conv)
    let ?c = "c\<lparr>list_pub_wait_ack := l\<rparr>"
    from Cons.IH [OF l(2)] Cons.prems obtain R where R: "supervised R ns ?c c'" "unmoved ?c c'" by auto
    have "supervised (insert a R) (n # ns) c c'"
      by (rule supervised_drop [OF R(1) n a])
        (use l(1) R(2) acked in \<open>auto simp: wl_remove_def unmoved_def split: if_split_asm\<close>)
    with R(2) show ?thesis by (auto simp: unmoved_def)
  next
    case offline
    with loop have "pub_info_loop ns c = Some c'" by simp
    from Cons.IH [OF this] Cons.prems obtain R where R: "supervised R ns c c'" "unmoved c c'" by auto
    have "supervised R (n # ns) c c'"
      by (rule supervised_keep [OF R(1) refl refl _ n a]) (use offline in \<open>simp_all add: unmoved_def\<close>)
    with R(2) show ?thesis by blast
  next
    case online
    obtain ms c1 where t: "left_ms (pub_start_time i) c = (ms, c1)" by (metis surj_pair)
    note due = left_ms_due [OF t]
    have "pub_start_time i < clock c + 2147483648000" using Cons.prems(4) n by auto
    note due3 = due(3) [OF this]
    note e1 = env_client [OF due(1)] and h1 = due(1) [unfolded env_def]
    show ?thesis
    proof (cases "ms > 0")
      case True
      with loop online t have "pub_info_loop ns c1 = Some c'" by simp
      from Cons.IH [OF this] Cons.prems h1 obtain R where R: "supervised R ns c1 c'" "unmoved c1 c'" by fastforce
      have u: "unmoved c c1" using h1 e1 by (simp add: unmoved_def)
      have "supervised R (n # ns) c c'"
        by (rule supervised_keep [OF R(1) _ _ u n a]) (use online True due3 due(2) e1 in simp_all)
      with R(2) u show ?thesis by (auto simp: unmoved_def)
    next
      case False
      have k: "lock_list_pub \<in> held c1" using Cons.prems(3) h1 by simp
      let ?u = "c1\<lparr>held := held c1 - {lock_list_pub}\<rparr>"
      obtain t2 c3 where t2: "countdown_ms (command_timeout_ms ?u) ?u = (t2, c3)" by (metis surj_pair)
      note e3 = env_countdown_ms [OF t2]
      note f3 = env_client [OF e3] and h3 = e3 [unfolded env_def]
      define c5 where "c5 = call_event_handler (pub_timeout n) (c3\<lparr>held := insert lock_list_pub (held c3)\<rparr>)"
      from loop online t False k t2 h3 obtain l where l: "wl_remove (list_pub_wait_ack c5) a = Some l"
        "pub_info_loop ns (c5\<lparr>list_pub_wait_ack := l\<rparr>) = Some c'"
        by (auto simp: HAL_MutexUnlock_def HAL_MutexLock_def c5_def bind_eq_Some_conv pub_timeout_def n Let_def)
      have hl: "insert lock_list_pub (held c1 - {lock_list_pub}) = held c" using k h1 by auto
      have c5: "list_pub_wait_ack c5 = list_pub_wait_ack c" "clock c1 \<le> clock c5" "unmoved c c5"
        "events c5 = events c @ (if event_handler c then [(pub_timeout n, held c)] else [])"
        using e1 f3 h1 h3 hl due(2) by (auto simp: c5_def call_event_handler_def emit_def unmoved_def)
      let ?c = "c5\<lparr>list_pub_wait_ack := l\<rparr>"
      have "clock c \<le> clock c5" "lock_list_pub \<in> held c5" using c5 Cons.prems(3) by (auto simp: unmoved_def)
      with Cons.IH [OF l(2)] Cons.prems obtain R where R: "supervised R ns ?c c'" "unmoved ?c c'" by fastforce
      have "supervised (insert a R) (n # ns) c c'"
        by (rule supervised_drop [OF R(1) n a])
          (use l(1) R(2) c5 online False due3 in \<open>auto simp: wl_remove_def unmoved_def split: if_split_asm\<close>)
      with R(2) c5(3) show ?thesis by (auto simp: unmoved_def)
    qed
  qed
qed

lemma pub_info_proc_spec:
  assumes inv: "client_inv c" and "\<forall>n \<in> set (list_pub_wait_ack c). pub_start_time (snd n) < clock c + 2147483648000"
    and "mallocs c = []" and r: "uiot_mqtt_pub_info_proc c = Some c'"
  shows "\<exists>R. list_pub_wait_ack c' = filter (\<lambda>n. fst n \<notin> R) (list_pub_wait_ack c) \<and>
    events c' = events c @ (if event_handler c then
      map (\<lambda>n. (MQTT_EVENT_PUBLISH_TIMEOUT (pub_msg_id (snd n)), {lock_list_pub}))
        (filter (\<lambda>n. fst n \<in> R \<and> pub_node_state (snd n) = MQTT_NODE_STATE_NORMAL) (rev (list_pub_wait_ack c))) else []) \<and>
    (\<forall>n \<in> set (list_pub_wait_ack c). if fst n \<in> R
      then pub_node_state (snd n) = MQTT_NODE_STATE_INVALID \<or>
        is_connected c \<and> pub_start_time (snd n) < clock c' + 1000
      else pub_node_state (snd n) = MQTT_NODE_STATE_NORMAL \<and> (is_connected c \<longrightarrow> clock c < pub_start_time (snd n)))"
proof (cases "list_pub_wait_ack c = []")
  case True
  with r show ?thesis by (auto simp: uiot_mqtt_pub_info_proc_def bind_eq_Some_conv lock_Some unlock_Some)
next
  case False
  note inv = inv [unfolded client_inv_def]
  let ?c = "c\<lparr>held := {lock_list_pub}\<rparr>"
  obtain c2 where l: "pub_info_loop (rev (list_pub_wait_ack c)) ?c = Some c2"
    and c': "c' = c2\<lparr>held := held c2 - {lock_list_pub}\<rparr>"
    using r False inv assms(3)
    by (auto simp: uiot_mqtt_pub_info_proc_def bind_eq_Some_conv lock_Some unlock_Some HAL_Malloc_def)
  have "distinct (map fst (rev (list_pub_wait_ack c)))"
    using inv by (auto simp: limits_ok_def wl_ok_def rev_map [symmetric])
  from pub_info_loop_spec [OF l this] assms(2) obtain R where
    R: "supervised R (rev (list_pub_wait_ack c)) ?c c2" by auto
  show ?thesis
    by (intro exI [of _ R]) (use R in \<open>auto simp: supervised_def c' pub_timeout_def\<close>)
qed

text \<open>
  C13: The supervision of publishes removes a waiting request only if it has been acknowledged, or if
  the client is connected and less than a millisecond of its time is left; each request of the
  second kind is reported to the application as timed out, once, with the lock of the list held;
  what stays was neither acknowledged nor, on a connected client, overdue when the call began.
\<close>

theorem publish_supervision:
  assumes "client_inv c" "\<forall>n \<in> set (list_pub_wait_ack c). pub_start_time (snd n) < clock c + 2147483648000"
    and "mallocs c = []" and r: "uiot_mqtt_pub_info_proc c = Some c'"
  shows "\<exists>R. list_pub_wait_ack c' = filter (\<lambda>n. fst n \<notin> R) (list_pub_wait_ack c) \<and>
    events c' = events c @ (if event_handler c then
      map (\<lambda>n. (MQTT_EVENT_PUBLISH_TIMEOUT (pub_msg_id (snd n)), {lock_list_pub}))
        (filter (\<lambda>n. fst n \<in> R \<and> pub_node_state (snd n) = MQTT_NODE_STATE_NORMAL) (rev (list_pub_wait_ack c))) else []) \<and>
    (\<forall>n \<in> set (list_pub_wait_ack c). if fst n \<in> R
      then pub_node_state (snd n) = MQTT_NODE_STATE_INVALID \<or>
        is_connected c \<and> pub_start_time (snd n) < clock c' + 1000
      else pub_node_state (snd n) = MQTT_NODE_STATE_NORMAL \<and> (is_connected c \<longrightarrow> clock c < pub_start_time (snd n)))"
  by (rule pub_info_proc_spec [OF assms])

subsection \<open>Acknowledged publishes\<close>

lemma puback_handled:
  assumes "client_inv c" "mallocs c = []" "read_buf c = frame 0x40 (uint16_bytes i) @ rest"
  shows "handle_puback_packet c = Some (SUCCESS_RET, call_event_handler (MQTT_EVENT_PUBLISH_SUCCESS i)
    (c\<lparr>list_pub_wait_ack := map (mask_pub_node i) (list_pub_wait_ack c)\<rparr>))"
proof -
  note inv = assms(1) [unfolded client_inv_def]
  have h: "mqtt_init_packet_header PUBACK 0 0 0 = Inr 0x40" by code_simp
  have d: "deserialize_ack_packet (read_buf c) (read_buf_size c) = Some (Inr (msg_code PUBACK, 0, i))"
    using ack_roundtrip [OF h, of "read_buf_size c" i rest] inv assms(3) by simp
  have "mask_pubInfo_from i c = Some (SUCCESS_RET, c\<lparr>list_pub_wait_ack := map (mask_pub_node i) (list_pub_wait_ack c)\<rparr>)"
    using inv assms(2)
    by (cases c) (simp add: mask_pubInfo_from_def HAL_MutexLock_def HAL_MutexUnlock_def HAL_Malloc_def)
  with d show ?thesis by (simp add: handle_puback_packet_def)
qed

lemma mask_pub_node_simps [simp]:
  "fst (mask_pub_node i n) = fst n" "pub_start_time (snd (mask_pub_node i n)) = pub_start_time (snd n)"
  "pub_msg_id (snd (mask_pub_node i n)) = pub_msg_id (snd n)"
  "pub_node_state (snd (mask_pub_node i n)) = MQTT_NODE_STATE_NORMAL \<longleftrightarrow>
    pub_msg_id (snd n) \<noteq> i \<and> pub_node_state (snd n) = MQTT_NODE_STATE_NORMAL"
  by (simp_all add: mask_pub_node_def)

text \<open>
  C12: A PUBACK completes the publish with its packet identifier: the application is told once, and the
  next round of supervision takes the request off the list without reporting a timeout for it;
  requests with other identifiers stay unless they were completed before or are overdue.
\<close>

theorem acknowledged_publish_completes:
  assumes "client_inv c" "\<forall>n \<in> set (list_pub_wait_ack c). pub_start_time (snd n) < clock c + 2147483648000"
    and "mallocs c = []" "read_buf c = frame 0x40 (uint16_bytes i) @ rest"
    and h: "handle_puback_packet c = Some (r, c1)" and p: "uiot_mqtt_pub_info_proc c1 = Some c2"
  shows "r = SUCCESS_RET \<and>
    (\<forall>n \<in> set (list_pub_wait_ack c2). n \<in> set (list_pub_wait_ack c) \<and> pub_msg_id (snd n) \<noteq> i) \<and>
    (\<forall>n \<in> set (list_pub_wait_ack c) - set (list_pub_wait_ack c2). pub_msg_id (snd n) = i \<or>
      pub_node_state (snd n) = MQTT_NODE_STATE_INVALID \<or> pub_start_time (snd n) < clock c2 + 1000) \<and>
    (event_handler c \<longrightarrow> (\<exists>evs. events c2 = events c @ (MQTT_EVENT_PUBLISH_SUCCESS i, {}) # evs \<and>
      (\<forall>e \<in> set evs. \<exists>j. j \<noteq> i \<and> fst e = MQTT_EVENT_PUBLISH_TIMEOUT j)))"
proof -
  note inv = assms(1)
  have h1: "r = SUCCESS_RET" "c1 = call_event_handler (MQTT_EVENT_PUBLISH_SUCCESS i)
      (c\<lparr>list_pub_wait_ack := map (mask_pub_node i) (list_pub_wait_ack c)\<rparr>)"
    using h puback_handled [OF inv assms(3,4)] by simp_all
  have inv1: "client_inv c1"
    using kp_client_inv [OF inv _ h] kp_handle_puback_packet [OF client_inv_refl [OF inv]] by blast
  have held: "held c = {}" using inv by (simp add: client_inv_def)
  have f: "list_pub_wait_ack c1 = map (mask_pub_node i) (list_pub_wait_ack c)" "clock c1 = clock c"
    "mallocs c1 = []" "event_handler c1 = event_handler c" "is_connected c1 = is_connected c"
    "event_handler c \<Longrightarrow> events c1 = events c @ [(MQTT_EVENT_PUBLISH_SUCCESS i, {})]"
    using h1(2) assms(3) held by (auto simp: call_event_handler_def emit_def)
  have "\<forall>n \<in> set (list_pub_wait_ack c1). pub_start_time (snd n) < clock c1 + 2147483648000"
    using assms(2) by (simp add: f(1,2))
  from pub_info_proc_spec [OF inv1 this f(3) p] obtain R where
    l: "list_pub_wait_ack c2 = filter (\<lambda>n. fst n \<notin> R) (list_pub_wait_ack c1)"
    and ev: "events c2 = events c1 @ (if event_handler c1 then
      map (\<lambda>n. (MQTT_EVENT_PUBLISH_TIMEOUT (pub_msg_id (snd n)), {lock_list_pub}))
        (filter (\<lambda>n. fst n \<in> R \<and> pub_node_state (snd n) = MQTT_NODE_STATE_NORMAL) (rev (list_pub_wait_ack c1))) else [])"
    and n: "\<And>n. n \<in> set (list_pub_wait_ack c1) \<Longrightarrow> if fst n \<in> R
      then pub_node_state (snd n) = MQTT_NODE_STATE_INVALID \<or>
        is_connected c1 \<and> pub_start_time (snd n) < clock c2 + 1000
      else pub_node_state (snd n) = MQTT_NODE_STATE_NORMAL \<and> (is_connected c1 \<longrightarrow> clock c1 < pub_start_time (snd n))"
    by blast
  have keep: "fst m \<notin> R \<Longrightarrow> mask_pub_node i m = m \<and> pub_msg_id (snd m) \<noteq> i" if "m \<in> set (list_pub_wait_ack c)" for m
    using n [of "mask_pub_node i m"] that f(1) by (auto simp: mask_pub_node_def split: if_split_asm)
  have gone: "pub_msg_id (snd m) = i \<or> pub_node_state (snd m) = MQTT_NODE_STATE_INVALID \<or>
      pub_start_time (snd m) < clock c2 + 1000" if "m \<in> set (list_pub_wait_ack c)" "fst m \<in> R" for m
    using n [of "mask_pub_node i m"] that f(1) by (auto simp: mask_pub_node_def split: if_split_asm)
  show ?thesis
  proof (intro conjI ballI impI)
    show "r = SUCCESS_RET" by (rule h1(1))
    fix m
    { assume "m \<in> set (list_pub_wait_ack c2)"
      then obtain m' where m: "m' \<in> set (list_pub_wait_ack c)" "m = mask_pub_node i m'" "fst m' \<notin> R"
        by (auto simp: l f(1))
      from keep [OF m(1,3)] m show "m \<in> set (list_pub_wait_ack c)" "pub_msg_id (snd m) \<noteq> i" by auto }
    assume m: "m \<in> set (list_pub_wait_ack c) - set (list_pub_wait_ack c2)"
    have "fst m \<in> R"
    proof (rule ccontr)
      assume "fst m \<notin> R"
      with keep [of m] m have "m \<in> set (list_pub_wait_ack c2)" by (force simp: l f(1))
      with m show False by blast
    qed
    with gone [of m] m show "pub_msg_id (snd m) = i \<or> pub_node_state (snd m) = MQTT_NODE_STATE_INVALID \<or>
      pub_start_time (snd m) < clock c2 + 1000" by blast
  next
    have "\<forall>n \<in> set (list_pub_wait_ack c1). pub_node_state (snd n) = MQTT_NODE_STATE_NORMAL \<longrightarrow> pub_msg_id (snd n) \<noteq> i"
      by (simp add: f(1))
    moreover assume "event_handler c"
    ultimately show "\<exists>evs. events c2 = events c @ (MQTT_EVENT_PUBLISH_SUCCESS i, {}) # evs \<and>
      (\<forall>e \<in> set evs. \<exists>j. j \<noteq> i \<and> fst e = MQTT_EVENT_PUBLISH_TIMEOUT j)" using ev f(4,6) by auto
  qed
qed

end
