(* ===== verification/Deliver_Props.thy ===== *)
theory Deliver_Props
  imports Dispatch_Props
begin

text \<open>
  Incoming messages, from the network to the handlers of the application.
\<close>

subsection \<open>Delivering a message\<close>

text \<open>The handle asks for messages with this name: its filter is the name or matches it.\<close>

definition wants :: "bytes \<Rightarrow> nat \<Rightarrow> SubTopicHandle \<Rightarrow> bool" where
  "wants topicName n h \<longleftrightarrow> (case topic_filter h of None \<Rightarrow> False
     | Some (_, tf) \<Rightarrow> tf = take n topicName \<or> is_topic_matched tf topicName n = Some True)"

definition filters_live :: "UIoT_Client \<Rightarrow> bool" where
  "filters_live c \<longleftrightarrow> (\<forall>h \<in> set (sub_handles c). case topic_filter h of None \<Rightarrow> True
     | Some (a, tf) \<Rightarrow> a \<in> live c \<and> 0 \<notin> set tf)"

lemma cstr_name: "0 \<notin> set name \<Longrightarrow> cstr_of_array (name @ 0 # z) = Some name"
  by (induction name) (auto simp: cstr_of_array_def)

lemma handle_decision:
  assumes "case topic_filter h of None \<Rightarrow> True | Some (a, tf) \<Rightarrow> a \<in> live c \<and> 0 \<notin> set tf"
    and "0 \<notin> set name" "name \<noteq> []"
  shows "(case topic_filter h of
             None \<Rightarrow> Some False
           | Some p \<Rightarrow> do {
               tf \<leftarrow> read_filter p c;
               name' \<leftarrow> cstr_of_array (name @ 0 # z);
               if is_topic_equals name' tf then Some True
               else is_topic_matched tf (name @ 0 # z) (length name) }) =
    Some (wants (name @ 0 # z) (length name) h)"
  using assms is_topic_matched_accepts [of _ name "0 # z"]
  by (auto simp: wants_def read_filter_def cstr_name is_topic_equals_def split: option.split)

lemma deliver_loop_spec:
  assumes "lock_generic \<in> held c" "length (sub_handles c) = 10" "filters_live c"
    and "0 \<notin> set name" "name \<noteq> []" "i \<le> 10"
  shows "deliver_loop i (name @ 0 # z) (length name) message c = Some
    (case find (\<lambda>h. wants (name @ 0 # z) (length name) h \<and> message_handler h \<noteq> None) (drop i (sub_handles c)) of
       None \<Rightarrow> (False, c)
     | Some h \<Rightarrow> (True, emit (MESSAGE_HANDLER (the (message_handler h)) (message_handler_data h) message)
         (c\<lparr>held := held c - {lock_generic}\<rparr>)))"
  using assms(6)
proof (induction "10 - i" arbitrary: i)
  case 0
  then show ?case using assms(2) by (simp add: deliver_loop.simps [of 10])
next
  case (Suc k)
  then have i: "i < 10" by simp
  let ?h = "sub_handles c ! i"
  have h: "arr_get (sub_handles c) i = Some ?h" "?h \<in> set (sub_handles c)"
    using i assms(2) by (simp_all add: arr_get_def)
  have d: "drop i (sub_handles c) = ?h # drop (i + 1) (sub_handles c)"
    using i assms(2) by (simp add: Cons_nth_drop_Suc)
  have IH: "deliver_loop (i + 1) (name @ 0 # z) (length name) message c = Some
    (case find (\<lambda>h. wants (name @ 0 # z) (length name) h \<and> message_handler h \<noteq> None) (drop (i + 1) (sub_handles c)) of
       None \<Rightarrow> (False, c)
     | Some h \<Rightarrow> (True, emit (MESSAGE_HANDLER (the (message_handler h)) (message_handler_data h) message)
         (c\<lparr>held := held c - {lock_generic}\<rparr>)))"
    using Suc.hyps(1) [of "i + 1"] Suc.hyps(2) i by simp
  have "case topic_filter ?h of None \<Rightarrow> True | Some (a, tf) \<Rightarrow> a \<in> live c \<and> 0 \<notin> set tf"
    using assms(3) h(2) by (simp add: filters_live_def)
  note dec = handle_decision [OF this assms(4,5), of z]
  have unlock: "HAL_MutexUnlock lock_generic c = Some (c\<lparr>held := held c - {lock_generic}\<rparr>)"
    "HAL_MutexLock lock_generic (c\<lparr>held := held c - {lock_generic}\<rparr>) = Some c"
    using assms(1) by (simp_all add: HAL_MutexUnlock_def HAL_MutexLock_def insert_absorb)
  have "deliver_loop i (name @ 0 # z) (length name) message c =
    (if wants (name @ 0 # z) (length name) ?h then
       (case message_handler ?h of
          Some f \<Rightarrow> Some (True, emit (MESSAGE_HANDLER f (message_handler_data ?h) message) (c\<lparr>held := held c - {lock_generic}\<rparr>))
        | None \<Rightarrow> deliver_loop (i + 1) (name @ 0 # z) (length name) message c)
     else deliver_loop (i + 1) (name @ 0 # z) (length name) message c)"
    by (subst deliver_loop.simps) (simp only: i if_True h(1) dec unlock Option.bind.simps split: option.split)
  then show ?case
    unfolding IH d by (cases "message_handler ?h") (simp_all split: option.split)
qed

text \<open>What the application sees of a message: the first handler that asks for it, or the event handler.\<close>

definition delivery :: "UIoT_Client \<Rightarrow> bytes \<Rightarrow> nat \<Rightarrow> MQTTMessage \<Rightarrow> event list" where
  "delivery c topicName n message =
     (case find (\<lambda>h. wants topicName n h \<and> message_handler h \<noteq> None) (sub_handles c) of
        Some h \<Rightarrow> [MESSAGE_HANDLER (the (message_handler h)) (message_handler_data h) message]
      | None \<Rightarrow> if event_handler c then [MQTT_EVENT_PUBLISH_RECEIVED message] else [])"

lemma deliver_message_spec:
  assumes "lock_generic \<notin> held c" "length (sub_handles c) = 10" "filters_live c" "0 \<notin> set name" "name \<noteq> []"
  shows "deliver_message (name @ 0 # z) (length name) m c = Some (SUCCESS_RET, c\<lparr>events := events c @
    map (\<lambda>e. (e, held c)) (delivery c (name @ 0 # z) (length name)
      (m\<lparr>msg_topic := name @ 0 # z, msg_topic_len := length name\<rparr>))\<rparr>)"
proof -
  let ?m = "m\<lparr>msg_topic := name @ 0 # z, msg_topic_len := length name\<rparr>"
  let ?c = "c\<lparr>held := insert lock_generic (held c)\<rparr>"
  have lock: "HAL_MutexLock lock_generic c = Some ?c" "?c\<lparr>held := held ?c - {lock_generic}\<rparr> = c"
    "HAL_MutexUnlock lock_generic ?c = Some c"
    using assms(1) by (simp_all add: HAL_MutexLock_def HAL_MutexUnlock_def)
  have "filters_live ?c" using assms(3) by (simp add: filters_live_def cong: option.case_cong)
  with deliver_loop_spec [of ?c name 0 z ?m, unfolded lock(2)] assms(2,4,5)
  have "deliver_loop 0 (name @ 0 # z) (length name) ?m ?c = Some
    (case find (\<lambda>h. wants (name @ 0 # z) (length name) h \<and> message_handler h \<noteq> None) (sub_handles c) of
       None \<Rightarrow> (False, ?c)
     | Some h \<Rightarrow> (True, emit (MESSAGE_HANDLER (the (message_handler h)) (message_handler_data h) ?m) c))"
    by simp
  then show ?thesis
    by (simp add: deliver_message_def lock delivery_def emit_def call_event_handler_def split: option.split)
qed

lemma send_ack_calm:
  assumes "ticks c = []" "ssl_tx c = []" "handle c \<noteq> 0" "running timer c" "lock_write_buf \<notin> held c"
    "length (write_buf c) = write_buf_size c" "32 \<le> write_buf_size c"
    and h: "mqtt_init_packet_header t (if t = PUBREL then QOS1 else QOS0) 0 0 = Inr h"
  shows "\<exists>b. length b = length (write_buf c) \<and> send_ack t i timer c = Some (SUCCESS_RET,
    (later 5 c)\<lparr>write_buf := b, wire := wire c @ frame h (uint16_bytes i)\<rparr>)"
proof -
  let ?f = "frame h (uint16_bytes i)"
  let ?wb = "?f @ drop 4 (write_buf c)"
  have lf: "length ?f = 4" by (simp add: frame_def length_rem_len_bytes)
  have ser: "serialize_pub_ack_packet (write_buf c) (write_buf_size c) t 0 i = Some (Inr (?wb, 4))"
    using serialize_pub_ack_layout [of "write_buf_size c" "write_buf c" t 0 i] assms(6,7) h lf
    by (simp add: placed_def)
  let ?c = "c\<lparr>held := insert lock_write_buf (held c), write_buf := ?wb\<rparr>"
  have "running timer ?c" using assms(4) by (simp add: running_def)
  then have "send_mqtt_packet 4 timer ?c = Some (SUCCESS_RET, (later 5 ?c)\<lparr>wire := wire c @ ?f\<rparr>)"
    using send_mqtt_packet_calm [of ?c timer 4] assms lf by simp
  with ser assms(5) lf assms(6,7) show ?thesis
    by (intro exI [of _ ?wb]) (cases c, simp add: send_ack_def HAL_MutexLock_def HAL_MutexUnlock_def later_def)
qed

lemma put_topic:
  assumes "length (topic :: bytes) < 128"
  shows "put_bytes (replicate 128 0, 0) topic =
    Some (topic @ 0 # replicate (127 - length topic) 0, length topic)"
proof -
  have "128 - length topic = Suc (127 - length topic)" using assms by simp
  then have "drop (length topic) (replicate 128 (0 :: byte)) = 0 # replicate (127 - length topic) 0"
    by (simp only: drop_replicate replicate_Suc)
  then show ?thesis
    unfolding put_bytes_def using assms by (simp del: drop_replicate)
qed

lemma handle_publish_calm:
  assumes c: "calm c" "handle c \<noteq> 0" "running timer c" "length (sub_handles c) = 10" "filters_live c"
      "\<not> check_repeat_msg c"
    and h: "mqtt_init_packet_header PUBLISH 1 dup retained = Inr h"
    and rb: "read_buf c = frame h (publish_body 1 i topic payload) @ rest"
    and t: "0 \<notin> set topic" "topic \<noteq> []" "length topic < 128" "length topic + length payload < 268435452"
  shows "\<exists>c' m. handle_publish_packet timer c = Some (SUCCESS_RET, c') \<and> held c' = {} \<and>
    events c' = events c @ map (\<lambda>e. (e, {}))
      (delivery c (topic @ 0 # replicate (127 - length topic) 0) (length topic) m) \<and>
    msg_id m = Some i \<and> msg_topic m = topic @ 0 # replicate (127 - length topic) 0 \<and>
    take (unat (msg_payload_len m)) (drop (msg_payload m) (read_buf c)) = payload \<and>
    wire c' = wire c @ frame 0x40 (uint16_bytes i) \<and> read_buf c' = read_buf c \<and> ssl_rx c' = ssl_rx c"
proof -
  let ?body = "publish_body 1 i topic payload"
  let ?arr = "topic @ 0 # replicate (127 - length topic) 0"
  note c' = c(1) [unfolded calm_def]
  have lb: "length ?body = 4 + length topic + length payload" by (simp add: length_publish_body)
  let ?f = "\<lparr>pf_dup = dup AND 1, pf_qos = 1, pf_retained = retained AND 1, pf_packet_id = Some i,
      pf_topic_pos = body_pos ?body + 2, pf_topic_len = length topic,
      pf_payload_pos = body_pos ?body + (length ?body - length payload),
      pf_payload_len = word_of_nat (length payload)\<rparr>"
  have d: "deserialize_publish_packet (read_buf c) (read_buf_size c) = Some (Inr ?f)"
    using publish_roundtrip [OF h _ _ t(4), of "read_buf_size c" i rest] c' t(3) rb by simp
  have topic: "get_bytes (read_buf c) (body_pos ?body + 2) (length topic) = Some topic"
    using frame_drop [of 2 ?body h rest] lb frame_length [of h ?body]
    by (simp add: get_bytes_def rb publish_body_def utf8_bytes_def)
  have "take (length payload) (drop (length ?body - length payload) ?body @ rest) = payload"
    unfolding lb by (simp add: publish_body_def)
  then have payload: "take (length payload) (drop (body_pos ?body + (length ?body - length payload)) (read_buf c)) = payload"
    using frame_drop [of "length ?body - length payload" ?body h rest] by (simp add: rb)
  have p64: "unat (word_of_nat (length payload) :: 64 word) = length payload"
    using t(4) by (simp add: unat_of_nat)
  let ?msg = "\<lparr>msg_qos = 1, msg_retained = retained AND 1, msg_dup = dup AND 1, msg_id = Some i, msg_topic = [],
      msg_topic_len = 0, msg_payload = body_pos ?body + (length ?body - length payload),
      msg_payload_len = word_of_nat (length payload)\<rparr>"
  define m where "m = ?msg\<lparr>msg_topic := ?arr, msg_topic_len := length topic\<rparr>"
  define c1 where "c1 = c\<lparr>events := events c @ map (\<lambda>e. (e, held c)) (delivery c ?arr (length topic) m)\<rparr>"
  have del: "deliver_message ?arr (length topic) ?msg c = Some (SUCCESS_RET, c1)"
    using deliver_message_spec [of c topic] c c' t by (simp add: c1_def m_def)
  have rep: "check_repeat_msg c1 = check_repeat_msg c" by (simp add: c1_def)
  have k: "ticks c1 = []" "ssl_tx c1 = []" "handle c1 \<noteq> 0" "running timer c1" "lock_write_buf \<notin> held c1"
    "length (write_buf c1) = write_buf_size c1" "32 \<le> write_buf_size c1" "wire c1 = wire c"
    using c c' by (simp_all add: c1_def running_def)
  have hd: "mqtt_init_packet_header PUBACK (if PUBACK = PUBREL then QOS1 else QOS0) 0 0 = Inr 0x40" by code_simp
  obtain b where ack: "send_ack PUBACK i timer c1 = Some (SUCCESS_RET,
      (later 5 c1)\<lparr>write_buf := b, wire := wire c @ frame 0x40 (uint16_bytes i)\<rparr>)"
    using send_ack_calm [OF k(1-7) hd, of i] k(8) by auto
  have "handle_publish_packet timer c = Some (SUCCESS_RET,
      (later 5 c1)\<lparr>write_buf := b, wire := wire c @ frame 0x40 (uint16_bytes i)\<rparr>)"
    using t(3) c(6) 
    by (simp add: handle_publish_packet_def d topic put_topic del ack rep Let_def del: One_nat_def add_2_eq_Suc add_2_eq_Suc')
  then show ?thesis
    using payload p64 c'
    by (intro exI [of _ "(later 5 c1)\<lparr>write_buf := b, wire := wire c @ frame 0x40 (uint16_bytes i)\<rparr>"] exI [of _ m])
      (simp add: m_def c1_def)
qed

text \<open>
  C10: An incoming PUBLISH at QoS 1, from the network to the application: on a calm platform one
  round of reading hands the message to the first subscription with a handler whose filter is the
  topic or matches it, exactly once and with no lock held, or else to the event handler; the
  message has the identifier, the topic and the payload of the packet; and then exactly the PUBACK
  with this identifier is sent.
\<close>

theorem incoming_publish_delivered:
  assumes "calm c" "handle c \<noteq> 0" "length (sub_handles c) = 10" "filters_live c" "\<not> check_repeat_msg c"
    and "clock c + 3000 \<le> timer" "timer \<le> clock c + 900000000"
    and "mqtt_init_packet_header PUBLISH 1 dup retained = Inr h"
    and "ssl_rx c = SslData (frame h (publish_body 1 i topic payload) @ rest) # es"
    and "0 \<notin> set topic" "topic \<noteq> []" "length topic < 128"
    and "length topic + length payload + 9 \<le> read_buf_size c" "read_buf_size c < 268435400"
  shows "\<exists>c' m. cycle_for_read timer q c = Some ((SUCCESS_RET, msg_code PUBLISH), c') \<and> held c' = {} \<and>
    events c' = events c @ map (\<lambda>e. (e, {}))
      (delivery c (topic @ 0 # replicate (127 - length topic) 0) (length topic) m) \<and>
    msg_id m = Some i \<and> msg_topic m = topic @ 0 # replicate (127 - length topic) 0 \<and>
    take (unat (msg_payload_len m)) (drop (msg_payload m) (read_buf c')) = payload \<and>
    wire c' = wire c @ frame 0x40 (uint16_bytes i) \<and> ssl_rx c' = feed rest es \<and> is_ping_outstanding c' = 0"
proof -
  let ?body = "publish_body 1 i topic payload"
  note c' = assms(1) [unfolded calm_def]
  have lb: "length ?body = 4 + length topic + length payload" by (simp add: length_publish_body)
  then have b: "length ?body < 268435456" using assms(13,14) by simp
  then have "length (rem_len_bytes (length ?body)) \<le> 4" by (simp add: length_rem_len_bytes)
  then have lf: "length (frame h ?body) \<le> read_buf_size c" using assms(13) lb by (simp add: frame_def)
  obtain k where k: "k \<le> 20" and r: "read_mqtt_packet timer q c = Some ((SUCCESS_RET, header_type h),
      (later k c)\<lparr>ssl_rx := feed rest es,
       read_buf := frame h ?body @ drop (length (frame h ?body)) (read_buf c)\<rparr>)"
    using read_mqtt_packet_calm [OF _ assms(2,9) _ b lf, of timer q] c' by blast
  define c1 where "c1 = (later k c)\<lparr>ssl_rx := feed rest es,
       read_buf := frame h ?body @ drop (length (frame h ?body)) (read_buf c)\<rparr>"
  have t: "header_type h = msg_code PUBLISH" using header_fields(1) [OF assms(8)] .
  have f1: "calm c1" "handle c1 \<noteq> 0" "running timer c1" "length (sub_handles c1) = 10" "\<not> check_repeat_msg c1"
    "events c1 = events c" "wire c1 = wire c"
    using assms(1-7) k lf by (simp_all add: c1_def calm_def running_def)
  have f2: "filters_live c1" "delivery c1 = delivery c"
    using assms(4) by (simp_all add: c1_def filters_live_def delivery_def fun_eq_iff cong: option.case_cong)
  have "read_buf c1 = frame h ?body @ drop (length (frame h ?body)) (read_buf c)" by (simp add: c1_def)
  from handle_publish_calm [OF f1(1-4) f2(1) f1(5) assms(8) this assms(10-12)] assms(13,14)
  obtain c2 m where c2: "handle_publish_packet timer c1 = Some (SUCCESS_RET, c2)" "held c2 = {}"
    "events c2 = events c1 @ map (\<lambda>e. (e, {}))
      (delivery c1 (topic @ 0 # replicate (127 - length topic) 0) (length topic) m)"
    "msg_id m = Some i" "msg_topic m = topic @ 0 # replicate (127 - length topic) 0"
    "take (unat (msg_payload_len m)) (drop (msg_payload m) (read_buf c1)) = payload"
    "wire c2 = wire c1 @ frame 0x40 (uint16_bytes i)" "read_buf c2 = read_buf c1" "ssl_rx c2 = ssl_rx c1"
    by auto
  have "handle_packet (msg_code PUBLISH) timer c1 = Some (Some SUCCESS_RET, c2)"
    using c2(1) by (simp add: handle_packet_def)
  then have "cycle_for_read timer q c = Some ((SUCCESS_RET, msg_code PUBLISH), c2\<lparr>is_ping_outstanding := 0\<rparr>)"
    using r [folded c1_def] t c2(2)
    by (cases c2) (simp add: cycle_for_read_def HAL_MutexLock_def HAL_MutexUnlock_def)
  then show ?thesis
    using c2(2-9) f1(6,7) f2(2)
    by (intro exI [of _ "c2\<lparr>is_ping_outstanding := 0\<rparr>"] exI [of _ m]) (simp add: c1_def)
qed

end
