(* ===== verification/Suback_Props.thy ===== *)
theory Suback_Props
  imports Deliver_Props
begin

text \<open>
  Acknowledgements of subscriptions: what an accepting SUBACK does to the table of handles, and the
  acknowledgements that the client does not survive.  The witnesses of the properties about
  incoming packets are here too.
\<close>

subsection \<open>The acknowledgement of a subscription\<close>

lemma suback_read:
  assumes "buf = frame 0x90 (uint16_bytes i @ [q]) @ rest" "5 \<le> n"
  shows "deserialize_suback_packet 3 1 buf n = Some (Inr (i, [unat q]))"
proof -
  let ?body = "uint16_bytes i @ [q]"
  have bp: "body_pos ?body = 2" by (simp add: body_pos_def length_rem_len_bytes)
  have h: "mqtt_read_char buf 0 = Some (0x90, 1)" using frame_header [of "0x90" ?body rest] assms(1) by simp
  have rl: "mqtt_read_packet_rem_len_form_buf buf 1 = Some (Inr (3, 1))"
    using frame_rem_len [of ?body "0x90" rest] assms(1) by (simp add: length_rem_len_bytes)
  have u: "mqtt_read_uint16_t buf 2 = Some (i, 4)"
    using frame_read_uint16 [of 0 ?body i "0x90" rest] assms(1) by (simp add: bp)
  have "drop 4 buf = q # rest"
    using frame_drop [of 2 ?body "0x90" rest] assms(1) by (simp add: bp)
  then have "length buf = 5 + length rest" "buf ! 4 = q"
    using assms(1) by (simp_all add: frame_length bp nth_via_drop)
  then have "mqtt_read_char buf 4 = Some (q, 5)" by (simp add: mqtt_read_char_def arr_get_def)
  then have l: "suback_loop buf 3 1 5 4 [] = Some (Inr [unat q])"
    by (simp add: suback_loop.simps [of _ _ _ _ 4] suback_loop.simps [of _ _ _ _ 5])
  have t: "header_type 0x90 = msg_code SUBACK" by code_simp
  show ?thesis using assms(2) t by (simp add: deserialize_suback_packet_def h rl u l Let_def
        del: msg_code.simps One_nat_def)
qed

lemma last_handler_acc: "last_handler i ns a = (case find (\<lambda>n. sub_msg_id (snd n) = i) (rev ns) of
    None \<Rightarrow> a | Some n \<Rightarrow> Some (sub_handler (snd n)))"
proof (induction ns arbitrary: a)
  case (Cons n ns)
  have "find P (xs @ [x]) = (case find P xs of None \<Rightarrow> if P x then Some x else None | Some y \<Rightarrow> Some y)"
    for P and xs and x :: "nat \<times> UIoTSubInfo" by (induction xs) auto
  with Cons.IH show ?case by (simp split: option.split)
qed simp

text \<open>The handle is stored already: the same filter and the same handler.\<close>

definition same_subscription :: "SubTopicHandle \<Rightarrow> SubTopicHandle \<Rightarrow> bool" where
  "same_subscription h h' \<longleftrightarrow> topic_filter h \<noteq> None \<and>
     map_option snd (topic_filter h) = map_option snd (topic_filter h') \<and> message_handler h = message_handler h'"

definition handles_live :: "UIoT_Client \<Rightarrow> bool" where
  "handles_live c \<longleftrightarrow> (\<forall>h \<in> set (sub_handles c). \<forall>p. topic_filter h = Some p \<longrightarrow> fst p \<in> live c)"

lemma identical_same:
  assumes "topic_filter g = Some p" "fst p \<in> live c" "topic_filter h = Some p'" "fst p' \<in> live c"
  shows "\<exists>r. check_handle_is_identical g h c = Some r \<and> (r = 0 \<longleftrightarrow> same_subscription g h)"
  using assms by (auto simp: check_handle_is_identical_def read_filter_def same_subscription_def)

lemma suback_scan_spec:
  assumes "length (sub_handles c) = 10" "handles_live c" "topic_filter h = Some p" "fst p \<in> live c" "i \<le> 10"
  shows "\<exists>x. suback_scan i free h c = Some (\<exists>g \<in> set (drop i (sub_handles c)). same_subscription g h, x) \<and>
    ((\<forall>g \<in> set (drop i (sub_handles c)). \<not> same_subscription g h) \<longrightarrow> x = (case free of Some k \<Rightarrow> Some k
       | None \<Rightarrow> find (\<lambda>k. topic_filter (sub_handles c ! k) = None) [i..<10]))"
  using assms(5)
proof (induction "10 - i" arbitrary: i free)
  case 0
  then show ?case using assms(1) by (simp add: suback_scan.simps [of 10] split: option.split)
next
  case (Suc k)
  then have i: "i < 10" by simp
  let ?g = "sub_handles c ! i"
  have g: "arr_get (sub_handles c) i = Some ?g" "?g \<in> set (sub_handles c)"
    using i assms(1) by (simp_all add: arr_get_def)
  have d: "drop i (sub_handles c) = ?g # drop (i + 1) (sub_handles c)"
    using i assms(1) by (simp add: Cons_nth_drop_Suc)
  have u: "[i..<10] = i # [i + 1..<10]" using i by (simp add: upt_conv_Cons)
  note IH = Suc.hyps(1) [of "i + 1"]
  show ?case
  proof (cases "topic_filter ?g")
    case None
    let ?free = "if free = None then Some i else free"
    obtain y where y: "?free = Some y" by (cases free) auto
    from Suc.hyps(2) i have "k = 10 - (i + 1)" "i + 1 \<le> 10" by simp_all
    from IH [OF this, of "Some y"] obtain x where
      x: "suback_scan (i + 1) ?free h c = Some (\<exists>g \<in> set (drop (i + 1) (sub_handles c)). same_subscription g h, x)"
      "(\<forall>g \<in> set (drop (i + 1) (sub_handles c)). \<not> same_subscription g h) \<longrightarrow> x = ?free"
      unfolding y option.case by blast
    have "suback_scan i free h c = suback_scan (i + 1) ?free h c"
      using None i g by (simp add: suback_scan.simps [of i])
    moreover have "\<not> same_subscription ?g h" using None by (simp add: same_subscription_def)
    ultimately show ?thesis using x None unfolding d u by (auto split: option.split)
  next
    case (Some p')
    have "fst p' \<in> live c" using assms(2) g(2) Some unfolding handles_live_def by blast
    from identical_same [OF Some this assms(3,4)] obtain r where
      r: "check_handle_is_identical ?g h c = Some r" "r = 0 \<longleftrightarrow> same_subscription ?g h" by blast
    show ?thesis
    proof (cases "r = 0")
      case True
      with r i g Some show ?thesis by (simp add: suback_scan.simps [of i] d)
    next
      case False
      with IH [of free] Suc.hyps(2) i r g Some show ?thesis
        unfolding d u by (auto simp: suback_scan.simps [of i] split: option.split)
    qed
  qed
qed

text \<open>
  The outcome of an accepting SUBACK for the waiting handle \<open>h\<close>: an identical subscription makes
  the new copy of the filter superfluous; otherwise the handle moves to the first free slot.
\<close>

definition activated :: "SubTopicHandle \<Rightarrow> UIoT_Client \<Rightarrow> int \<Rightarrow> UIoT_Client \<Rightarrow> bool" where
  "activated h c r c' \<longleftrightarrow>
     (if \<exists>g \<in> set (sub_handles c). same_subscription g h
      then r = SUCCESS_RET \<and> sub_handles c' = sub_handles c \<and> live c' = live c - fst ` set_option (topic_filter h)
      else case find (\<lambda>k. topic_filter (sub_handles c ! k) = None) [0..<10] of
        None \<Rightarrow> r = FAILURE_RET \<and> sub_handles c' = sub_handles c \<and> live c' = live c
      | Some k \<Rightarrow> r = SUCCESS_RET \<and> sub_handles c' = (sub_handles c)[k := h] \<and> live c' = live c)"

lemma mask_sub_info_calm:
  assumes "lock_list_sub \<notin> held c" "mallocs c = []"
  shows "mask_sub_info_from i c = Some (map_option (\<lambda>n. sub_handler (snd n))
      (find (\<lambda>n. sub_msg_id (snd n) = i) (list_sub_wait_ack c)),
    c\<lparr>list_sub_wait_ack := map (mask_sub_node i) (list_sub_wait_ack c)\<rparr>)"
  using assms
  by (cases c) (auto simp: mask_sub_info_from_def HAL_MutexLock_def HAL_MutexUnlock_def HAL_Malloc_def
      last_handler_acc split: option.split)

text \<open>
  C11: An accepting SUBACK activates the subscription that waits for it: exactly one slot of the
  table gets the handle, unless an identical subscription is stored already (then the new copy
  of the filter is freed and nothing is stored twice) or all ten slots are taken (then the
  failure is reported); the waiting request is marked as done, and no lock stays held.
\<close>

theorem suback_activates_subscription:
  assumes "client_inv c" "mallocs c = []" "handles_live c"
    and "read_buf c = frame 0x90 (uint16_bytes i @ [q]) @ rest" "q \<noteq> 0x80"
    and "find (\<lambda>n. sub_msg_id (snd n) = i) (list_sub_wait_ack c) = Some n"
    and "topic_filter (sub_handler (snd n)) = Some p" "fst p \<in> live c"
  shows "\<exists>r c'. handle_suback_packet c = Some (r, c') \<and> activated (sub_handler (snd n)) c r c' \<and>
    list_sub_wait_ack c' = map (mask_sub_node i) (list_sub_wait_ack c) \<and> held c' = {}"
proof -
  note inv = assms(1) [unfolded client_inv_def]
  let ?h = "sub_handler (snd n)"
  let ?c = "c\<lparr>held := {lock_generic}, list_sub_wait_ack := map (mask_sub_node i) (list_sub_wait_ack c)\<rparr>"
  have d: "deserialize_suback_packet 3 1 (read_buf c) (read_buf_size c) = Some (Inr (i, [unat q]))"
    by (rule suback_read [OF assms(4)]) (use inv in simp)
  have "unat q mod 256 \<noteq> 128"
  proof
    assume "unat q mod 256 = 128"
    then have "unat q = unat (0x80 :: byte)" using unsigned_less [of q, where ?'a = nat] by simp
    with assms(5) show False by (simp only: word_unat_eq_iff)
  qed
  note nack = this
  obtain a tf where p: "p = (a, tf)" by (cases p)
  have lock: "HAL_MutexLock lock_generic c = Some (c\<lparr>held := {lock_generic}\<rparr>)"
    using inv by (simp add: HAL_MutexLock_def)
  have mask: "mask_sub_info_from i (c\<lparr>held := {lock_generic}\<rparr>) = Some (Some ?h, ?c)"
    using mask_sub_info_calm [of "c\<lparr>held := {lock_generic}\<rparr>" i] assms(2,6) by simp
  have "handles_live ?c" using assms(3) by (simp add: handles_live_def)
  with suback_scan_spec [of ?c ?h p 0 None] inv assms(7,8) obtain x where
    scan: "suback_scan 0 None ?h ?c = Some (\<exists>g \<in> set (sub_handles c). same_subscription g ?h, x)"
    and x: "\<not> (\<exists>g \<in> set (sub_handles c). same_subscription g ?h) \<Longrightarrow>
      x = find (\<lambda>k. topic_filter (sub_handles c ! k) = None) [0..<10]"
    by auto
  note run = handle_suback_packet_def d sum.case Option.bind.simps prod.case Let_def nack lock mask option.case
  show ?thesis
  proof (cases "\<exists>g \<in> set (sub_handles c). same_subscription g ?h")
    case True
    with assms(7,8) p show ?thesis
      by (simp add: run scan free_filter_def HAL_MutexUnlock_def activated_def call_event_handler_def emit_def
          del: One_nat_def)
  next
    case False
    note f = x [OF False]
    from False assms(7) show ?thesis
      by (cases x) (simp_all add: run scan f [symmetric] HAL_MutexUnlock_def activated_def call_event_handler_def emit_def
          del: One_nat_def)
  qed
qed

subsection \<open>Packets the client does not survive\<close>

lemma unsuback_unknown:
  assumes "client_inv c" "mallocs c = []" "read_buf c = frame 0xB0 (uint16_bytes i) @ rest"
    and "\<forall>n \<in> set (list_sub_wait_ack c). sub_msg_id (snd n) \<noteq> i"
  shows "handle_unsuback_packet c = None"
proof -
  note inv = assms(1) [unfolded client_inv_def]
  have h: "mqtt_init_packet_header UNSUBACK 0 0 0 = Inr 0xB0" by code_simp
  have d: "deserialize_unsuback_packet (read_buf c) (read_buf_size c) = Some (Inr i)"
    using ack_roundtrip [OF h, of "read_buf_size c" i rest] inv assms(3)
    by (simp add: deserialize_unsuback_packet_def del: msg_code.simps)
  have "find (\<lambda>n. sub_msg_id (snd n) = i) (list_sub_wait_ack c) = None"
    using assms(4) by (auto simp: find_None_iff)
  with mask_sub_info_calm [of c i] inv assms(2) show ?thesis
    unfolding handle_unsuback_packet_def d by (auto simp: HAL_MutexLock_def)
qed

lemma nack_code: "unat (0x80 :: byte) = 128" "(UIOT_MQTT_RX_BUF_LEN \<ge> 5) = True"
  by code_simp+

lemma stale_nack:
  assumes "client_inv c" "mallocs c = []" "read_buf c = frame 0x90 (uint16_bytes i @ [0x80]) @ rest"
    and "find (\<lambda>n. sub_msg_id (snd n) = i) (list_sub_wait_ack c) = Some n"
    and "topic_filter (sub_handler (snd n)) = Some p" "fst p \<notin> live c"
  shows "handle_suback_packet c = None"
proof -
  note inv = assms(1) [unfolded client_inv_def]
  have d: "deserialize_suback_packet 3 1 (read_buf c) (read_buf_size c) = Some (Inr (i, [128]))"
    using suback_read [OF assms(3), of "read_buf_size c"] inv by (simp only: nack_code)
  have lock: "HAL_MutexLock lock_generic c = Some (c\<lparr>held := {lock_generic}\<rparr>)"
    using inv by (simp add: HAL_MutexLock_def)
  have live: "live (call_event_handler e c') = live c'" for e and c' :: UIoT_Client
    by (simp add: call_event_handler_def emit_def)
  from mask_sub_info_calm [of "c\<lparr>held := {lock_generic}\<rparr>" i] assms(2,4,5,6) show ?thesis
    by (cases p) (simp add: handle_suback_packet_def d lock free_filter_def live Let_def del: One_nat_def)
qed

lemma nack_frees:
  assumes "client_inv c" "mallocs c = []" "read_buf c = frame 0x90 (uint16_bytes i @ [0x80]) @ rest"
    and "find (\<lambda>n. sub_msg_id (snd n) = i) (list_sub_wait_ack c) = Some n"
    and "topic_filter (sub_handler (snd n)) = Some p" "fst p \<in> live c"
  shows "\<exists>c'. handle_suback_packet c = Some (ERR_MQTT_SUB_FAILED, c') \<and> live c' = live c - {fst p} \<and>
    list_sub_wait_ack c' = map (mask_sub_node i) (list_sub_wait_ack c) \<and> read_buf c' = read_buf c \<and> mallocs c' = []"
proof -
  note inv = assms(1) [unfolded client_inv_def]
  have d: "deserialize_suback_packet 3 1 (read_buf c) (read_buf_size c) = Some (Inr (i, [128]))"
    using suback_read [OF assms(3), of "read_buf_size c"] inv by (simp only: nack_code)
  have lock: "HAL_MutexLock lock_generic c = Some (c\<lparr>held := {lock_generic}\<rparr>)"
    using inv by (simp add: HAL_MutexLock_def)
  have call: "live (call_event_handler e c') = live c'" "held (call_event_handler e c') = held c'"
    "list_sub_wait_ack (call_event_handler e c') = list_sub_wait_ack c'" "read_buf (call_event_handler e c') = read_buf c'"
    "mallocs (call_event_handler e c') = mallocs c'"
    for e and c' :: UIoT_Client by (simp_all add: call_event_handler_def emit_def)
  from mask_sub_info_calm [of "c\<lparr>held := {lock_generic}\<rparr>" i] assms(2,4,5,6) show ?thesis
    by (cases p) (simp add: handle_suback_packet_def d lock free_filter_def call HAL_MutexUnlock_def Let_def del: One_nat_def)
qed

lemma find_mask_sub: "find (\<lambda>n. sub_msg_id (snd n) = i) (map (mask_sub_node i) l) =
    map_option (mask_sub_node i) (find (\<lambda>n. sub_msg_id (snd n) = i) l)"
  by (induction l) (auto simp: mask_sub_node_def)

text \<open>
  C32: A negative SUBACK frees the filter of the request but leaves the request in the list with the
  dangling pointer; when the same SUBACK arrives again before the next round of supervision, the
  filter is freed a second time.  And an UNSUBACK with an identifier that no request has reads a
  variable that was never written.  Neither has a defined result.
\<close>

theorem repeated_acknowledgements_fault:
  assumes "client_inv c" "mallocs c = []"
  shows "(read_buf c = frame 0x90 (uint16_bytes i @ [0x80]) @ rest \<and>
      find (\<lambda>n. sub_msg_id (snd n) = i) (list_sub_wait_ack c) = Some n \<and>
      topic_filter (sub_handler (snd n)) = Some p \<and> fst p \<in> live c \<longrightarrow>
      (\<exists>c'. handle_suback_packet c = Some (ERR_MQTT_SUB_FAILED, c') \<and> handle_suback_packet c' = None)) \<and>
    (read_buf c = frame 0xB0 (uint16_bytes i) @ rest \<and>
      (\<forall>n \<in> set (list_sub_wait_ack c). sub_msg_id (snd n) \<noteq> i) \<longrightarrow> handle_unsuback_packet c = None)"
proof (intro conjI impI; elim conjE)
  note inv = assms(1)
  assume a: "read_buf c = frame 0x90 (uint16_bytes i @ [0x80]) @ rest"
    "find (\<lambda>n. sub_msg_id (snd n) = i) (list_sub_wait_ack c) = Some n"
    "topic_filter (sub_handler (snd n)) = Some p" "fst p \<in> live c"
  from nack_frees [OF inv assms(2) a] obtain c' where
    c': "handle_suback_packet c = Some (ERR_MQTT_SUB_FAILED, c')" "live c' = live c - {fst p}"
    "list_sub_wait_ack c' = map (mask_sub_node i) (list_sub_wait_ack c)" "read_buf c' = read_buf c" "mallocs c' = []"
    by blast
  have inv': "client_inv c'"
    using kp_client_inv [OF inv _ c'(1)] kp_handle_suback_packet [OF client_inv_refl [OF inv]] by blast
  have "topic_filter (sub_handler (snd (mask_sub_node i n))) = Some p"
    using a(3) by (simp add: mask_sub_node_def)
  with stale_nack [OF inv' c'(5), of i rest "mask_sub_node i n" p] a c' show
    "\<exists>c'. handle_suback_packet c = Some (ERR_MQTT_SUB_FAILED, c') \<and> handle_suback_packet c' = None"
    by (simp add: find_mask_sub)
next
  assume "read_buf c = frame 0xB0 (uint16_bytes i) @ rest" "\<forall>n \<in> set (list_sub_wait_ack c). sub_msg_id (snd n) \<noteq> i"
  then show "handle_unsuback_packet c = None"
    by (rule unsuback_unknown [OF assms(1) assms(2)])
qed

subsection \<open>Witnesses\<close>

definition waiting :: "UIoT_Client \<Rightarrow> UIoT_Client" where
  "waiting c = c\<lparr>event_handler := True, next_addr := 9, live := {3},
     list_pub_wait_ack := [(1, \<lparr>pub_start_time = clock c + 5000000, pub_node_state = MQTT_NODE_STATE_NORMAL,
        pub_msg_id = 2, pub_buf = []\<rparr>)],
     list_sub_wait_ack := [(2, \<lparr>sub_type = SUBSCRIBE, sub_msg_id = 7, sub_start_time = clock c + 5000000,
        sub_node_state = MQTT_NODE_STATE_NORMAL, sub_handler = \<lparr>topic_filter = Some (3, [0x61]),
          message_handler = Some 5, message_handler_data = 0, sub_qos = 1\<rparr>, sub_buf = []\<rparr>)]\<rparr>"

definition received :: "bytes \<Rightarrow> UIoT_Client \<Rightarrow> UIoT_Client" where
  "received f c = c\<lparr>read_buf := f @ drop (length f) (read_buf c)\<rparr>"

lemma waiting_inv:
  assumes "client_inv c" "length f \<le> 2048"
  shows "client_inv (received f (waiting c))"
  using assms by (simp add: client_inv_def received_def waiting_def limits_ok_def wl_ok_def conn_ok_def)

lemma waiting_session:
  "\<exists>c. client_inv c \<and> calm c \<and> is_connected c \<and> sub_handles c = replicate 10 no_handle"
  using example_session reachable_inv by blast

theorem acknowledged_publish_completes_witness:
  "\<exists>c r c1 c2. handle_puback_packet c = Some (r, c1) \<and> uiot_mqtt_pub_info_proc c1 = Some c2 \<and> r = SUCCESS_RET \<and>
    list_pub_wait_ack c \<noteq> [] \<and> list_pub_wait_ack c2 = []"
proof -
  obtain c0 where c0: "client_inv c0" "calm c0" using waiting_session by blast
  let ?f = "frame 0x40 (uint16_bytes 2)"
  let ?c = "received ?f (waiting c0)"
  have lf: "length ?f = 4" by (simp add: frame_def length_rem_len_bytes)
  have inv: "client_inv ?c" by (rule waiting_inv [OF c0(1)]) (simp add: lf)
  have m: "mallocs ?c = []" "held ?c = {}" using c0 by (simp_all add: received_def waiting_def calm_def)
  have rb: "read_buf ?c = ?f @ drop 4 (read_buf c0)" by (simp add: received_def waiting_def lf)
  have l: "list_pub_wait_ack ?c = [(1, \<lparr>pub_start_time = clock c0 + 5000000, pub_node_state = MQTT_NODE_STATE_NORMAL,
        pub_msg_id = 2, pub_buf = []\<rparr>)]" "clock ?c = clock c0"
    by (simp_all add: received_def waiting_def)
  note h = puback_handled [OF inv m(1) rb]
  then obtain c1 where h1: "handle_puback_packet ?c = Some (SUCCESS_RET, c1)" by blast
  have "uiot_mqtt_pub_info_proc c1 \<noteq> None"
    using h h1 l m
    by (auto simp: uiot_mqtt_pub_info_proc_def HAL_MutexLock_def HAL_MutexUnlock_def HAL_Malloc_def
        call_event_handler_def emit_def mask_pub_node_def wl_remove_def)
  then obtain c2 where p: "uiot_mqtt_pub_info_proc c1 = Some c2" by blast
  have "\<forall>n \<in> set (list_pub_wait_ack ?c). pub_start_time (snd n) < clock ?c + 2147483648000" using l by simp
  note completed = acknowledged_publish_completes [OF inv this m(1) rb h1 p]
  have "n \<notin> set (list_pub_wait_ack c2)" for n using conjunct1 [OF conjunct2 [OF completed]] l(1) by (auto dest!: bspec)
  then have e: "list_pub_wait_ack c2 = []" by (metis list.set_intros(1) neq_Nil_conv)
  show ?thesis
    by (intro exI [of _ ?c] exI [of _ SUCCESS_RET] exI [of _ c1] exI [of _ c2]) (use h1 p e l in auto)
qed

theorem publish_supervision_witness:
  "\<exists>c c'. uiot_mqtt_pub_info_proc c = Some c' \<and> list_pub_wait_ack c \<noteq> [] \<and>
    (\<exists>R. list_pub_wait_ack c' = filter (\<lambda>n. fst n \<notin> R) (list_pub_wait_ack c))"
proof -
  obtain c0 where c0: "client_inv c0" "calm c0" using waiting_session by blast
  let ?c = "received [] (waiting c0)"
  have inv: "client_inv ?c" by (rule waiting_inv [OF c0(1)]) simp
  have m: "mallocs ?c = []" "held ?c = {}" "list_pub_wait_ack ?c \<noteq> []"
    using c0 by (simp_all add: received_def waiting_def calm_def)
  have t: "\<forall>n \<in> set (list_pub_wait_ack ?c). pub_start_time (snd n) < clock ?c + 2147483648000"
    by (simp add: received_def waiting_def)
  have "uiot_mqtt_pub_info_proc ?c \<noteq> None"
    using c0(2)
    by (auto simp: received_def waiting_def calm_def uiot_mqtt_pub_info_proc_def HAL_MutexLock_def HAL_MutexUnlock_def
        HAL_Malloc_def left_ms_def HAL_Timer_Remain_ms_def gettimeofday_def int_of_uint32_def split: prod.split)
  then obtain c' where p: "uiot_mqtt_pub_info_proc ?c = Some c'" by blast
  from publish_supervision [OF inv t m(1) p] p m(3) show ?thesis by blast
qed

theorem suback_activates_subscription_witness:
  "\<exists>c r c'. handle_suback_packet c = Some (r, c') \<and> r = SUCCESS_RET \<and> message_handler (sub_handles c' ! 0) = Some 5"
proof -
  obtain c0 where c0: "client_inv c0" "calm c0" "sub_handles c0 = replicate 10 no_handle" using waiting_session by blast
  let ?f = "frame 0x90 (uint16_bytes 7 @ [1])"
  let ?c = "received ?f (waiting c0)"
  have lf: "length ?f = 5" by (simp add: frame_def length_rem_len_bytes)
  have inv: "client_inv ?c" by (rule waiting_inv [OF c0(1)]) (simp add: lf)
  have m: "mallocs ?c = []" "handles_live ?c" using c0 by (simp_all add: received_def waiting_def calm_def handles_live_def no_handle_def)
  have rb: "read_buf ?c = ?f @ drop 5 (read_buf c0)" by (simp add: received_def waiting_def lf)
  let ?n = "(2 :: nat, \<lparr>sub_type = SUBSCRIBE, sub_msg_id = 7, sub_start_time = clock c0 + 5000000,
        sub_node_state = MQTT_NODE_STATE_NORMAL, sub_handler = \<lparr>topic_filter = Some (3 :: nat, [0x61]),
          message_handler = Some 5, message_handler_data = 0, sub_qos = 1\<rparr>, sub_buf = []\<rparr>)"
  have n: "find (\<lambda>n. sub_msg_id (snd n) = 7) (list_sub_wait_ack ?c) = Some ?n" "fst (3 :: nat, [0x61 :: byte]) \<in> live ?c"
    "sub_handles ?c = replicate 10 no_handle"
    using c0(3) by (simp_all add: received_def waiting_def)
  have h: "topic_filter (sub_handler (snd ?n)) = Some (3, [0x61])" by simp
  have q: "(1 :: byte) \<noteq> 0x80" by simp
  from suback_activates_subscription [OF inv m rb q n(1) h n(2)] obtain r c' where
    r: "handle_suback_packet ?c = Some (r, c')" "activated (sub_handler (snd ?n)) ?c r c'" by blast
  have "find (\<lambda>k. topic_filter (sub_handles ?c ! k) = None) [0..<10] = Some 0"
    by (simp add: n(3) upt_rec no_handle_def)
  moreover have "\<not> (\<exists>g \<in> set (sub_handles ?c). same_subscription g (sub_handler (snd ?n)))"
    by (simp add: n(3) same_subscription_def no_handle_def)
  ultimately have "r = SUCCESS_RET" "sub_handles c' = (sub_handles ?c)[0 := sub_handler (snd ?n)]"
    using r(2) by (simp_all add: activated_def)
  with r(1) n(3) show ?thesis by (intro exI [of _ ?c] exI [of _ r] exI [of _ c']) simp
qed

theorem repeated_acknowledgements_fault_witness:
  "\<exists>c r c'. handle_suback_packet c = Some (r, c') \<and> handle_suback_packet c' = None"
proof -
  obtain c0 where c0: "client_inv c0" "calm c0" using waiting_session by blast
  let ?f = "frame 0x90 (uint16_bytes 7 @ [0x80])"
  let ?c = "received ?f (waiting c0)"
  have lf: "length ?f = 5" by (simp add: frame_def length_rem_len_bytes)
  have inv: "client_inv ?c" by (rule waiting_inv [OF c0(1)]) (simp add: lf)
  have m: "mallocs ?c = []" using c0 by (simp add: received_def waiting_def calm_def)
  have rb: "read_buf ?c = ?f @ drop 5 (read_buf c0)" by (simp add: received_def waiting_def lf)
  obtain n where n: "find (\<lambda>n. sub_msg_id (snd n) = 7) (list_sub_wait_ack ?c) = Some n"
    "topic_filter (sub_handler (snd n)) = Some (3, [0x61])" "fst (3 :: nat, [0x61 :: byte]) \<in> live ?c"
    by (simp add: received_def waiting_def)
  from conjunct1 [OF repeated_acknowledgements_fault [OF inv m, of 7 "drop 5 (read_buf c0)" n "(3, [0x61])"]] rb n
  show ?thesis by blast
qed

definition example_listener :: UIoT_Client where
  "example_listener = example_client\<lparr>handle := 1, live := {3},
     sub_handles := \<lparr>topic_filter = Some (3, [0x61, 0x2F, 0x2B]), message_handler = Some 5,
       message_handler_data = 0, sub_qos = 1\<rparr> # replicate 9 no_handle,
     ssl_rx := [SslData (frame 0x32 (publish_body 1 8 [0x61, 0x2F, 0x62] [0xCA, 0xFE]) @ [])]\<rparr>"

theorem incoming_publish_delivered_witness:
  "\<exists>c' m. cycle_for_read 5000000 0 example_listener = Some ((SUCCESS_RET, msg_code PUBLISH), c') \<and>
    events c' = [(MESSAGE_HANDLER 5 0 m, {})] \<and> msg_id m = Some 8"
proof -
  let ?c = example_listener
  have f: "calm ?c" "handle ?c \<noteq> 0" "length (sub_handles ?c) = 10" "filters_live ?c" "\<not> check_repeat_msg ?c"
    "clock ?c + 3000 \<le> 5000000" "5000000 \<le> clock ?c + 900000000"
    "ssl_rx ?c = SslData (frame 0x32 (publish_body 1 8 [0x61, 0x2F, 0x62] [0xCA, 0xFE]) @ []) # []"
    "read_buf_size ?c = 2048" "events ?c = []"
    using example_client_facts(1) example_reset
    by (simp_all add: example_listener_def calm_def filters_live_def no_handle_def)
      (simp_all add: example_client_def fresh_client_def zero_client_def example_statics_def)
  have h: "mqtt_init_packet_header PUBLISH 1 0 0 = Inr 0x32" by code_simp
  have t: "(0 :: byte) \<notin> set [0x61, 0x2F, 0x62]" "[0x61, 0x2F, 0x62 :: byte] \<noteq> []" "length [0x61, 0x2F, 0x62 :: byte] < 128"
    "length [0x61, 0x2F, 0x62 :: byte] + length [0xCA, 0xFE :: byte] + 9 \<le> read_buf_size ?c" "read_buf_size ?c < 268435400"
    by (simp_all add: f(9))
  have w: "wants ([0x61, 0x2F, 0x62] @ 0 # replicate (127 - length [0x61, 0x2F, 0x62 :: byte]) 0) (length [0x61, 0x2F, 0x62 :: byte])
      \<lparr>topic_filter = Some (3, [0x61, 0x2F, 0x2B]), message_handler = Some 5, message_handler_data = 0, sub_qos = 1\<rparr>"
    by code_simp
  have d: "delivery ?c ([0x61, 0x2F, 0x62] @ 0 # replicate (127 - length [0x61, 0x2F, 0x62 :: byte]) 0) (length [0x61, 0x2F, 0x62 :: byte]) m =
      [MESSAGE_HANDLER 5 0 m]" for m
    using w by (simp add: delivery_def example_listener_def)
  from incoming_publish_delivered [OF f(1-7) h f(8) t, of 0] show ?thesis
    unfolding d by (auto simp: f(10))
qed

end
