(* ===== verification/Ring_Buffer.thy ===== *)
theory Ring_Buffer
  imports Hal_World
begin

text \<open>
  The ring buffer between the serial line and the AT client, \<^verbatim>\<open>src/at/src/at_ringbuff.c\<close>.  The
  indices are \<open>uint32_t\<close> below \<open>size\<close>, so that \<open>writepoint + 1\<close> does not wrap; a length is an
  \<open>int\<close> that is converted when it is compared with the size.  One cell stays unused.
\<close>

subsection \<open>Bounded queues of bytes\<close>

text \<open>
  The loops of the two data operations, over the step for one byte: \<open>put\<close> says whether the byte
  was stored, \<open>get\<close> yields a byte or nothing.
\<close>

fun put_all :: "(byte \<Rightarrow> 'q \<Rightarrow> (bool \<times> 'q) option) \<Rightarrow> bytes \<Rightarrow> 'q \<Rightarrow> (bool \<times> 'q) option" where
  "put_all put [] q = Some (True, q)"
| "put_all put (d # ds) q = do {
     (stored, q) \<leftarrow> put d q;
     if stored then put_all put ds q else Some (False, q) }"

fun get_up_to :: "('q \<Rightarrow> (byte option \<times> 'q) option) \<Rightarrow> nat \<Rightarrow> 'q \<Rightarrow> (bytes \<times> 'q) option" where
  "get_up_to get 0 q = Some ([], q)"
| "get_up_to get (Suc n) q = do {
     (d, q) \<leftarrow> get q;
     case d of None \<Rightarrow> Some ([], q)
     | Some x \<Rightarrow> do { (ds, q) \<leftarrow> get_up_to get n q; Some (x # ds, q) } }"

text \<open>What the users of a queue rely on: first in, first out, up to a number of bytes.\<close>

locale byte_fifo =
  fixes inv :: "'q \<Rightarrow> bool" and contents :: "'q \<Rightarrow> bytes" and room :: "'q \<Rightarrow> nat"
    and put :: "byte \<Rightarrow> 'q \<Rightarrow> (bool \<times> 'q) option" and get :: "'q \<Rightarrow> (byte option \<times> 'q) option"
  assumes put_law: "inv q \<Longrightarrow> \<exists>q'. put d q = Some (length (contents q) < room q, q') \<and> inv q' \<and> room q' = room q \<and>
      contents q' = (if length (contents q) < room q then contents q @ [d] else contents q)"
    and get_law: "inv q \<Longrightarrow> \<exists>q'. get q = Some (case contents q of [] \<Rightarrow> None | x # _ \<Rightarrow> Some x, q') \<and> inv q' \<and>
      room q' = room q \<and> contents q' = tl (contents q)"
    and fits: "inv q \<Longrightarrow> length (contents q) \<le> room q"
begin

lemma put_all_spec: "inv q \<Longrightarrow> \<exists>q'. put_all put ds q = Some (length (contents q) + length ds \<le> room q, q') \<and> inv q' \<and>
    room q' = room q \<and> contents q' = contents q @ take (room q - length (contents q)) ds"
proof (induction ds arbitrary: q)
  case Nil
  then show ?case using fits [of q] by simp
next
  case (Cons d ds)
  obtain q1 where q1: "put d q = Some (length (contents q) < room q, q1)" "inv q1" "room q1 = room q"
    "contents q1 = (if length (contents q) < room q then contents q @ [d] else contents q)"
    using put_law [OF Cons.prems] by blast
  show ?case
  proof (cases "length (contents q) < room q")
    case True
    with Cons.IH [OF q1(2)] q1 show ?thesis
      by (auto simp: Suc_le_eq take_Cons' diff_Suc_eq_diff_pred [symmetric])
  next
    case False
    with q1 show ?thesis by simp
  qed
qed

lemma get_up_to_spec: "inv q \<Longrightarrow> \<exists>q'. get_up_to get n q = Some (take n (contents q), q') \<and> inv q' \<and>
    room q' = room q \<and> contents q' = drop n (contents q)"
proof (induction n arbitrary: q)
  case (Suc n)
  obtain q1 where q1: "get q = Some (case contents q of [] \<Rightarrow> None | x # _ \<Rightarrow> Some x, q1)" "inv q1" "room q1 = room q"
    "contents q1 = tl (contents q)"
    using get_law [OF Suc.prems] by blast
  show ?case
  proof (cases "contents q")
    case (Cons x xs)
    with Suc.IH [OF q1(2)] q1 show ?thesis by auto
  qed (use q1 in simp)
qed simp

end

subsection \<open>The ring buffer\<close>

abbreviation (input) RINGBUFF_OK :: int where "RINGBUFF_OK \<equiv> 0"
abbreviation (input) RINGBUFF_ERR :: int where "RINGBUFF_ERR \<equiv> -1"
abbreviation (input) RINGBUFF_FULL :: int where "RINGBUFF_FULL \<equiv> -4"
abbreviation (input) RINGBUFF_TOO_SHORT :: int where "RINGBUFF_TOO_SHORT \<equiv> -5"

record sRingbuff =
  rb_size :: nat
  readpoint :: nat
  writepoint :: nat
  rb_buffer :: bytes
  rb_full :: bool

text \<open>\<open>memset\<close> over \<open>size\<close> bytes of the buffer has no result when the buffer is shorter.\<close>

definition ring_buff_init :: "bytes \<Rightarrow> nat \<Rightarrow> (int \<times> sRingbuff) option" where
  "ring_buff_init buff n = do {
     (buff, _) \<leftarrow> put_bytes (buff, 0) (replicate n 0);
     Some (RINGBUFF_OK, \<lparr>rb_size = n, readpoint = 0, writepoint = 0, rb_buffer = buff, rb_full = False\<rparr>) }"

definition ring_buff_flush :: "sRingbuff \<Rightarrow> (int \<times> sRingbuff) option" where
  "ring_buff_flush rb = do {
     (buff, _) \<leftarrow> put_bytes (rb_buffer rb, 0) (replicate (rb_size rb) 0);
     Some (RINGBUFF_OK, rb\<lparr>readpoint := 0, writepoint := 0, rb_buffer := buff, rb_full := False\<rparr>) }"

text \<open>The body of the loop of \<open>ring_buff_push_data\<close>; a size of 0 divides by zero.\<close>

definition push_byte :: "byte \<Rightarrow> sRingbuff \<Rightarrow> (bool \<times> sRingbuff) option" where
  "push_byte d rb =
     (if rb_size rb = 0 then None
      else if (writepoint rb + 1) mod rb_size rb = readpoint rb then Some (False, rb\<lparr>rb_full := True\<rparr>)
      else do {
        let rb = rb\<lparr>writepoint := (if writepoint rb < rb_size rb - 1 then writepoint rb + 1 else 0)\<rparr>;
        buff \<leftarrow> arr_set (rb_buffer rb) (writepoint rb) d;
        Some (True, rb\<lparr>rb_buffer := buff\<rparr>) })"

definition ring_buff_push_data :: "sRingbuff \<Rightarrow> bytes \<Rightarrow> int \<Rightarrow> (int \<times> sRingbuff) option" where
  "ring_buff_push_data rb pData n =
     (if uint32_of_int n > rb_size rb then Some (RINGBUFF_TOO_SHORT, rb)
      else do {
        (stored, rb) \<leftarrow> put_all push_byte (take (nat n) pData) rb;
        if stored then if nat n \<le> length pData then Some (RINGBUFF_OK, rb) else None
        else Some (RINGBUFF_FULL, rb) })"

definition pop_byte :: "sRingbuff \<Rightarrow> (byte option \<times> sRingbuff) option" where
  "pop_byte rb =
     (if writepoint rb = readpoint rb then Some (None, rb)
      else do {
        let rb = rb\<lparr>readpoint := (if readpoint rb = rb_size rb - 1 then 0 else readpoint rb + 1)\<rparr>;
        d \<leftarrow> arr_get (rb_buffer rb) (readpoint rb);
        Some (Some d, rb) })"

text \<open>The bytes that are read are stored at the start of \<open>pData\<close>.\<close>

definition ring_buff_pop_data :: "sRingbuff \<Rightarrow> bytes \<Rightarrow> int \<Rightarrow> ((int \<times> bytes) \<times> sRingbuff) option" where
  "ring_buff_pop_data rb pData n =
     (if uint32_of_int n > rb_size rb then Some ((RINGBUFF_TOO_SHORT, pData), rb)
      else do {
        (ds, rb) \<leftarrow> get_up_to pop_byte (nat n) rb;
        (pData, i) \<leftarrow> put_bytes (pData, 0) ds;
        Some ((int i, pData), rb) })"

text \<open>The result codes are converted to \<open>bool\<close>.\<close>

definition ring_buff_is_empty :: "sRingbuff \<Rightarrow> bool" where
  "ring_buff_is_empty rb =
     ((if writepoint rb = readpoint rb then RINGBUFF_OK else RINGBUFF_ERR) \<noteq> 0)"

subsection \<open>The ring buffer is a queue\<close>

definition rb_ok :: "sRingbuff \<Rightarrow> bool" where
  "rb_ok rb \<longleftrightarrow> 0 < rb_size rb \<and> rb_size rb < 2 ^ 32 \<and> length (rb_buffer rb) = rb_size rb \<and>
     readpoint rb < rb_size rb \<and> writepoint rb < rb_size rb"

definition rb_count :: "sRingbuff \<Rightarrow> nat" where
  "rb_count rb = (if readpoint rb \<le> writepoint rb then writepoint rb - readpoint rb
     else writepoint rb + rb_size rb - readpoint rb)"

definition rb_contents :: "sRingbuff \<Rightarrow> bytes" where
  "rb_contents rb = map (\<lambda>k. rb_buffer rb ! ((readpoint rb + 1 + k) mod rb_size rb)) [0..<rb_count rb]"

definition rb_room :: "sRingbuff \<Rightarrow> nat" where
  "rb_room rb = rb_size rb - 1"

lemma push_byte_law:
  assumes "rb_ok rb"
  shows "\<exists>rb'. push_byte d rb = Some (length (rb_contents rb) < rb_room rb, rb') \<and> rb_ok rb' \<and> rb_room rb' = rb_room rb \<and>
    rb_contents rb' = (if length (rb_contents rb) < rb_room rb then rb_contents rb @ [d] else rb_contents rb)"
proof -
  let ?n = "rb_size rb" and ?r = "readpoint rb" and ?w = "writepoint rb"
  note ok = assms [unfolded rb_ok_def]
  have nx: "(?w + 1) mod ?n = (if ?w < ?n - 1 then ?w + 1 else 0)"
    using ok by (auto simp: mod_if)
  have full: "(?w + 1) mod ?n = ?r \<longleftrightarrow> \<not> rb_count rb < rb_room rb"
    unfolding nx rb_count_def rb_room_def using ok by auto
  have len: "length (rb_contents rb) = rb_count rb" by (simp add: rb_contents_def)
  show ?thesis
  proof (cases "rb_count rb < rb_room rb")
    case False
    with full len ok show ?thesis
      by (simp add: push_byte_def rb_ok_def rb_room_def rb_contents_def rb_count_def)
  next
    case True
    let ?w' = "if ?w < ?n - 1 then ?w + 1 else 0"
    let ?rb = "rb\<lparr>writepoint := ?w', rb_buffer := (rb_buffer rb)[?w' := d]\<rparr>"
    have w': "?w' < ?n" using ok by auto
    have p: "push_byte d rb = Some (True, ?rb)"
      using True full ok w' by (simp add: push_byte_def arr_set_def)
    have c: "rb_count ?rb = Suc (rb_count rb)"
      using True ok by (auto simp: rb_count_def rb_room_def)
    have last: "(?r + 1 + rb_count rb) mod ?n = ?w'"
    proof -
      have "?r + 1 + rb_count rb = (if ?r \<le> ?w then ?w + 1 else (?w + 1) + ?n)"
        using ok by (auto simp: rb_count_def)
      then show ?thesis using nx by (auto simp only: mod_add_self2 split: if_split)
    qed
    have other: "(?r + 1 + k) mod ?n \<noteq> ?w'" if "k < rb_count rb" for k
    proof
      assume "(?r + 1 + k) mod ?n = ?w'"
      with last have "(?r + 1 + rb_count rb) mod ?n = (?r + 1 + k) mod ?n" by simp
      then have "rb_count rb mod ?n = k mod ?n" by (simp add: mod_add_cong nat_mod_eq_iff)
      moreover have "rb_count rb < ?n" using True by (simp add: rb_room_def)
      ultimately show False using that by simp
    qed
    have "rb_contents ?rb = rb_contents rb @ [d]"
      unfolding rb_contents_def c using other [THEN not_sym] last w' ok
      by (auto intro!: nth_equalityI simp: nth_append)
    with p True len w' ok show ?thesis by (simp add: rb_ok_def rb_room_def)
  qed
qed

lemma pop_byte_law:
  assumes "rb_ok rb"
  shows "\<exists>rb'. pop_byte rb = Some (case rb_contents rb of [] \<Rightarrow> None | x # _ \<Rightarrow> Some x, rb') \<and> rb_ok rb' \<and>
    rb_room rb' = rb_room rb \<and> rb_contents rb' = tl (rb_contents rb)"
proof -
  let ?n = "rb_size rb" and ?r = "readpoint rb" and ?w = "writepoint rb"
  note ok = assms [unfolded rb_ok_def]
  show ?thesis
  proof (cases "?w = ?r")
    case True
    with assms show ?thesis by (simp add: pop_byte_def rb_contents_def rb_count_def)
  next
    case False
    let ?r' = "if ?r = ?n - 1 then 0 else ?r + 1"
    let ?rb = "rb\<lparr>readpoint := ?r'\<rparr>"
    have r': "?r' = (?r + 1) mod ?n" "?r' < ?n" using ok by (auto simp: mod_if)
    have m: "rb_count rb = Suc (rb_count ?rb)"
      using False ok by (auto simp: rb_count_def)
    have shift: "(?r' + 1 + k) mod ?n = (?r + 1 + Suc k) mod ?n" for k
      unfolding r'(1) using mod_add_left_eq [of "?r + 1" ?n "1 + k"] by (simp add: add.assoc [symmetric])
    have "rb_contents rb = rb_buffer rb ! ((?r + 1 + 0) mod ?n) # map (\<lambda>k. rb_buffer rb ! ((?r + 1 + Suc k) mod ?n)) [0..<rb_count ?rb]"
      unfolding rb_contents_def m by (simp only: upt_conv_Cons zero_less_Suc list.map map_Suc_upt [symmetric] map_map comp_def)
    then have "rb_contents rb = rb_buffer rb ! ?r' # rb_contents ?rb"
      by (simp only: rb_contents_def shift [symmetric] r'(1) [symmetric] add_0_right) simp
    moreover have "pop_byte rb = Some (Some (rb_buffer rb ! ?r'), ?rb)"
      using False r' ok by (simp add: pop_byte_def arr_get_def)
    ultimately show ?thesis using ok r' by (simp add: rb_ok_def rb_room_def)
  qed
qed

interpretation ring: byte_fifo rb_ok rb_contents rb_room push_byte pop_byte
proof
  show "rb_ok q \<Longrightarrow> length (rb_contents q) \<le> rb_room q" for q
    by (auto simp: rb_ok_def rb_contents_def rb_count_def rb_room_def)
qed (fact push_byte_law pop_byte_law)+

lemma uint32_of_length: "n < 2 ^ 31 \<Longrightarrow> uint32_of_int (int n) = n"
  by (simp add: uint32_of_int_def)

text \<open>
  C39: The ring buffer is a bounded queue, whatever the positions of its indices: pushing appends
  all bytes when they fit in the \<open>size - 1\<close> usable cells, and otherwise reports the overflow after
  appending as many as fit; popping delivers the oldest bytes in order, at most as many as asked
  for, and removes exactly these.  No index leaves the buffer.
\<close>

theorem ring_buffer_is_fifo:
  assumes "rb_ok rb" "length data \<le> rb_size rb" "rb_size rb < 2 ^ 31" "n \<le> rb_size rb" "n \<le> length out"
  shows "(\<exists>rb'. ring_buff_push_data rb data (int (length data)) =
      Some (if length (rb_contents rb) + length data \<le> rb_room rb then RINGBUFF_OK else RINGBUFF_FULL, rb') \<and>
      rb_ok rb' \<and> rb_contents rb' = rb_contents rb @ take (rb_room rb - length (rb_contents rb)) data) \<and>
    (\<exists>rb' out'. ring_buff_pop_data rb out (int n) = Some ((int (min n (length (rb_contents rb))), out'), rb') \<and>
      rb_ok rb' \<and> rb_contents rb' = drop n (rb_contents rb) \<and>
      out' = take n (rb_contents rb) @ drop (min n (length (rb_contents rb))) out)"
proof
  have u: "uint32_of_int (int (length data)) = length data" "uint32_of_int (int n) = n"
    using assms(2-4) by (simp_all add: uint32_of_length)
  from ring.put_all_spec [OF assms(1), of data] obtain rb' where
    "put_all push_byte data rb = Some (length (rb_contents rb) + length data \<le> rb_room rb, rb')"
    "rb_ok rb'" "rb_contents rb' = rb_contents rb @ take (rb_room rb - length (rb_contents rb)) data" by blast
  with assms(2) show "\<exists>rb'. ring_buff_push_data rb data (int (length data)) =
      Some (if length (rb_contents rb) + length data \<le> rb_room rb then RINGBUFF_OK else RINGBUFF_FULL, rb') \<and>
      rb_ok rb' \<and> rb_contents rb' = rb_contents rb @ take (rb_room rb - length (rb_contents rb)) data"
    by (simp add: ring_buff_push_data_def u)
  from ring.get_up_to_spec [OF assms(1), of n] obtain rb' where
    "get_up_to pop_byte n rb = Some (take n (rb_contents rb), rb')" "rb_ok rb'"
    "rb_contents rb' = drop n (rb_contents rb)" by blast
  with assms(4,5) show "\<exists>rb' out'. ring_buff_pop_data rb out (int n) = Some ((int (min n (length (rb_contents rb))), out'), rb') \<and>
      rb_ok rb' \<and> rb_contents rb' = drop n (rb_contents rb) \<and>
      out' = take n (rb_contents rb) @ drop (min n (length (rb_contents rb))) out"
    by (auto simp: ring_buff_pop_data_def u put_bytes_def min_def)
qed

theorem ring_buffer_is_fifo_witness:
  "\<exists>rb' rb'' out. ring_buff_push_data \<lparr>rb_size = 4, readpoint = 2, writepoint = 3, rb_buffer = [0, 0, 0, 9], rb_full = False\<rparr>
       [1, 2, 3] 3 = Some (RINGBUFF_FULL, rb') \<and> rb_contents rb' = [9, 1, 2] \<and>
     ring_buff_pop_data rb' [0, 0] 2 = Some ((2, out), rb'') \<and> out = [9, 1]"
proof -
  let ?rb = "\<lparr>rb_size = 4, readpoint = 2, writepoint = 3, rb_buffer = [0, 0, 0, 9], rb_full = False\<rparr>"
  have ok: "rb_ok ?rb" "rb_contents ?rb = [9]" "rb_room ?rb = 3" by code_simp+
  from conjunct1 [OF ring_buffer_is_fifo [OF ok(1), of "[1, 2, 3]" 0 "[]"]] ok obtain rb' where
    p: "ring_buff_push_data ?rb [1, 2, 3] 3 = Some (RINGBUFF_FULL, rb')" "rb_ok rb'" "rb_contents rb' = [9, 1, 2]"
    by auto
  have "rb_size rb' = 4" using p(1) by (auto simp: ring_buff_push_data_def push_byte_def uint32_of_int_def arr_set_def)
  with conjunct2 [OF ring_buffer_is_fifo [OF p(2), of "[]" 2 "[0, 0]"]] p show ?thesis by auto
qed

text \<open>
  \<open>ring_buff_is_empty\<close> says the opposite of its name: it returns \<open>true\<close> exactly when there are
  bytes to read, because the result code for an error, \<open>-1\<close>, converts to \<open>true\<close>.
\<close>

lemma ring_buff_is_empty_inverted: "rb_ok rb \<Longrightarrow> ring_buff_is_empty rb \<longleftrightarrow> rb_contents rb \<noteq> []"
  by (auto simp: ring_buff_is_empty_def rb_contents_def rb_count_def rb_ok_def)

end
