(* ===== verification/Hash_Stream.thy ===== *)
theory Hash_Stream
  imports Prelude
begin

text \<open>
  What \<^verbatim>\<open>utils_sha2.c\<close> and \<^verbatim>\<open>utils_md5.c\<close> (both under \<^verbatim>\<open>src/utils/\<close>) have in common, line
  by line: a context that absorbs a message piece by piece in blocks of 64 bytes and counts its
  bytes in two 32-bit words.  The block function is a parameter here.

  The length of an input is that of the list; it is an \<open>uint32_t\<close> or \<open>size_t\<close> in the code, and the
  lemmas assume that it is below \<open>2^32\<close>.
\<close>

record hash_context =
  total0 :: "32 word"
  total1 :: "32 word"
  hash_state :: "32 word list"
  hash_buffer :: bytes

type_synonym block_function = "32 word list \<Rightarrow> bytes \<Rightarrow> 32 word list"

text \<open>\<open>while (ilen >= 64)\<close>: the state and the rest of the input.\<close>

function blocks_loop :: "block_function \<Rightarrow> 32 word list \<Rightarrow> bytes \<Rightarrow> 32 word list \<times> bytes" where
  "blocks_loop process state input =
     (if length input \<ge> 64 then blocks_loop process (process state (take 64 input)) (drop 64 input)
      else (state, input))"
  by pat_completeness auto
termination by (relation "measure (\<lambda>(_, _, input). length input)") auto

declare blocks_loop.simps [simp del]

text \<open>The two words of the byte counter.\<close>

definition hash_count :: "nat \<Rightarrow> 'a hash_context_scheme \<Rightarrow> 'a hash_context_scheme" where
  "hash_count ilen ctx =
     (let ctx = ctx\<lparr>total0 := total0 ctx + word_of_nat ilen\<rparr>
      in if total0 ctx < word_of_nat ilen then ctx\<lparr>total1 := total1 ctx + 1\<rparr> else ctx)"

text \<open>The end of an update: whole blocks from the input, then its rest to the buffer.\<close>

definition hash_rest :: "block_function \<Rightarrow> nat \<Rightarrow> 'a hash_context_scheme \<Rightarrow> bytes \<Rightarrow> 'a hash_context_scheme option" where
  "hash_rest process left ctx input =
     (let (state, input) = blocks_loop process (hash_state ctx) input;
          ctx = ctx\<lparr>hash_state := state\<rparr>
      in if input \<noteq> [] then do {
           (buf, _) \<leftarrow> put_bytes (hash_buffer ctx, left) input;
           Some (ctx\<lparr>hash_buffer := buf\<rparr>) }
         else Some ctx)"

definition hash_update ::
  "block_function \<Rightarrow> 'a hash_context_scheme \<Rightarrow> bytes \<Rightarrow> 'a hash_context_scheme option" where
  "hash_update process ctx input =
     (if input = [] then Some ctx
      else do {
        let ilen = length input;
        let left = unat (total0 ctx AND 0x3F);
        let fill = 64 - left;
        let ctx = hash_count ilen ctx;
        (ctx, input, left) \<leftarrow>
          (if left \<noteq> 0 \<and> ilen \<ge> fill then do {
             (buf, _) \<leftarrow> put_bytes (hash_buffer ctx, left) (take fill input);
             Some (ctx\<lparr>hash_buffer := buf, hash_state := process (hash_state ctx) buf\<rparr>, drop fill input, 0) }
           else Some (ctx, input, left));
        hash_rest process left ctx input })"

definition hash_padding :: bytes where
  "hash_padding = 0x80 # replicate 63 0"

text \<open>The common first part of the finish functions; \<open>put_length\<close> writes \<open>high\<close> and \<open>low\<close>.\<close>

definition hash_pad ::
  "block_function \<Rightarrow> (32 word \<Rightarrow> 32 word \<Rightarrow> bytes) \<Rightarrow> 'a hash_context_scheme \<Rightarrow> 'a hash_context_scheme option" where
  "hash_pad process put_length ctx = do {
     let high = drop_bit 29 (total0 ctx) OR push_bit 3 (total1 ctx);
     let low = push_bit 3 (total0 ctx);
     let msglen = put_length high low;
     let last = unat (total0 ctx AND 0x3F);
     let padn = (if last < 56 then 56 - last else 120 - last);
     ctx \<leftarrow> hash_update process ctx (take padn hash_padding);
     hash_update process ctx msglen }"

subsection \<open>What a context stands for\<close>

text \<open>
  The context has absorbed the message \<open>m\<close>: the counter is its length modulo \<open>2^64\<close>, the state has
  been through its whole blocks, and the rest is at the start of the buffer.
\<close>

definition absorbed :: "block_function \<Rightarrow> 32 word list \<Rightarrow> 'a hash_context_scheme \<Rightarrow> bytes \<Rightarrow> bool" where
  "absorbed process iv ctx m \<longleftrightarrow> length (hash_buffer ctx) = 64 \<and>
     (unat (total1 ctx) * 2 ^ 32 + unat (total0 ctx)) = length m mod 2 ^ 64 \<and>
     blocks_loop process iv m = (hash_state ctx, take (length m mod 64) (hash_buffer ctx))"

lemma blocks_loop_rest: "length (snd (blocks_loop p s m)) = length m mod 64"
  by (induction p s m rule: blocks_loop.induct)
    (simp add: blocks_loop.simps [of p s m for p s m] le_mod_geq)

lemma blocks_loop_append:
  "blocks_loop p s (xs @ ys) = (case blocks_loop p s xs of (s', r) \<Rightarrow> blocks_loop p s' (r @ ys))"
proof (induction p s xs rule: blocks_loop.induct)
  case (1 p s xs)
  show ?case
  proof (cases "length xs \<ge> 64")
    case True
    with 1 show ?thesis
      by (simp add: blocks_loop.simps [of p s "xs @ ys"] blocks_loop.simps [of p s xs])
  qed (simp add: blocks_loop.simps [of p s xs])
qed

lemma unat_and_63: "unat ((w :: 32 word) AND 0x3F) = unat w mod 64"
proof -
  have "(0x3F :: 32 word) = mask 6" by (simp add: mask_eq_exp_minus_1)
  then have "unat (w AND 0x3F) = unat (take_bit 6 w)" by (simp only: take_bit_eq_mask)
  also have "\<dots> = take_bit 6 (unat w)" by (rule unsigned_take_bit_eq)
  finally show ?thesis by (simp add: take_bit_eq_mod)
qed

lemma counter_step:
  fixes t0 t1 :: "32 word"
  assumes "n < 2 ^ 32" "unat t1 * 2 ^ 32 + unat t0 = L mod 2 ^ 64"
  shows "unat (if t0 + word_of_nat n < word_of_nat n then t1 + 1 else t1) * 2 ^ 32 + unat (t0 + word_of_nat n) =
    (L + n) mod 2 ^ 64"
proof -
  have b: "unat t0 < 2 ^ 32" "unat t1 < 2 ^ 32"
    using unsigned_less [of t0, where ?'a = nat] unsigned_less [of t1, where ?'a = nat] by simp_all
  have n: "unat (word_of_nat n :: 32 word) = n" using assms(1) by (simp add: unat_of_nat)
  have s: "unat (t0 + word_of_nat n) = (unat t0 + n) mod 2 ^ 32"
    using n by (simp add: unat_word_ariths)
  have carry: "t0 + word_of_nat n < word_of_nat n \<longleftrightarrow> 2 ^ 32 \<le> unat t0 + n"
  proof (cases "2 ^ 32 \<le> unat t0 + n")
    case True
    then have "(unat t0 + n) mod 2 ^ 32 = unat t0 + n - 2 ^ 32" using b assms(1) by (simp add: mod_if)
    with True b show ?thesis by (simp add: word_less_nat_alt s n)
  qed (simp add: word_less_nat_alt s n)
  have e: "(L + n) mod 2 ^ 64 = (unat t1 * 2 ^ 32 + (unat t0 + n)) mod 2 ^ 64"
    by (metis add.assoc assms(2) mod_add_left_eq)
  show ?thesis
  proof (cases "2 ^ 32 \<le> unat t0 + n")
    case False
    then have "unat t1 * 2 ^ 32 + (unat t0 + n) < 2 ^ 64" using b by simp
    with False show ?thesis unfolding carry e by (simp add: s)
  next
    case True
    then have m: "(unat t0 + n) mod 2 ^ 32 = unat t0 + n - 2 ^ 32" using b assms(1) by (simp add: mod_if)
    have u: "unat (t1 + 1) = (if unat t1 = 2 ^ 32 - 1 then 0 else unat t1 + 1)"
      using b(2) by (auto simp: unat_word_ariths mod_if)
    show ?thesis
    proof (cases "unat t1 = 2 ^ 32 - 1")
      case True
      then have "unat t1 * 2 ^ 32 + (unat t0 + n) = 2 ^ 64 + (unat t0 + n - 2 ^ 32)"
        using \<open>2 ^ 32 \<le> unat t0 + n\<close> by simp
      moreover have "(2 ^ 64 + x) mod 2 ^ 64 = x" if "x < 2 ^ 64" for x :: nat using that by simp
      moreover have "unat t0 + n - 2 ^ 32 < 2 ^ 64" using b assms(1) by simp
      ultimately have "(unat t1 * 2 ^ 32 + (unat t0 + n)) mod 2 ^ 64 = unat t0 + n - 2 ^ 32"
        by (simp only:)
      with True \<open>2 ^ 32 \<le> unat t0 + n\<close> show ?thesis unfolding carry e s m by (simp add: u)
    next
      case False
      then have "unat t1 * 2 ^ 32 + (unat t0 + n) < 2 ^ 64" using b assms(1) by simp
      with False \<open>2 ^ 32 \<le> unat t0 + n\<close> show ?thesis unfolding carry e s m by (simp add: u)
    qed
  qed
qed

text \<open>The last two steps of an update: whole blocks from the input, then the rest to the buffer.\<close>

lemma update_tail:
  assumes b: "length (hash_buffer ctx) = 64" "left < 64"
    and eq: "blocks_loop p iv m = blocks_loop p (hash_state ctx) (take left (hash_buffer ctx) @ input)"
    and l: "left = 0 \<or> left + length input < 64"
    and r: "blocks_loop p (hash_state ctx) input = (s, rest)"
  shows "blocks_loop p iv m = (s, take (length m mod 64) (take left (hash_buffer ctx) @ rest @ drop (left + length rest) (hash_buffer ctx)))"
    "left + length rest \<le> 64"
proof -
  have len: "length rest < 64" using blocks_loop_rest [of p "hash_state ctx" input] r by simp
  have "blocks_loop p iv m = (s, take left (hash_buffer ctx) @ rest) \<and> left + length rest \<le> 64"
  proof (cases "left = 0")
    case True
    with eq r len show ?thesis by simp
  next
    case False
    with l have "left + length input < 64" by simp
    with r have "s = hash_state ctx" "rest = input"
      by (simp_all add: blocks_loop.simps [of p "hash_state ctx" input])
    with eq \<open>left + length input < 64\<close> b show ?thesis by (simp add: blocks_loop.simps [of p _ "_ @ _"])
  qed
  moreover from this blocks_loop_rest [of p iv m] b have "length m mod 64 = left + length rest" by simp
  ultimately show "blocks_loop p iv m = (s, take (length m mod 64) (take left (hash_buffer ctx) @ rest @ drop (left + length rest) (hash_buffer ctx)))"
    "left + length rest \<le> 64" using b by simp_all
qed

lemma hash_rest_absorbs:
  assumes "length (hash_buffer ctx) = 64" "left < 64"
    and "blocks_loop p iv m = blocks_loop p (hash_state ctx) (take left (hash_buffer ctx) @ input)"
    and "left = 0 \<or> left + length input < 64"
    and "unat (total1 ctx) * 2 ^ 32 + unat (total0 ctx) = length m mod 2 ^ 64"
  shows "\<exists>ctx'. hash_rest p left ctx input = Some ctx' \<and> absorbed p iv ctx' m \<and>
    hash_context.more ctx' = hash_context.more ctx"
proof -
  obtain s rest where r: "blocks_loop p (hash_state ctx) input = (s, rest)" by (metis surj_pair)
  note tail = update_tail [OF assms(1-4) r]
  show ?thesis
  proof (cases "rest = []")
    case True
    then have "take left (hash_buffer ctx) @ rest @ drop (left + length rest) (hash_buffer ctx) = hash_buffer ctx" by simp
    with tail(1) True assms(1,2,5) r show ?thesis by (simp only: hash_rest_def absorbed_def Let_def prod.case) simp
  next
    case False
    with tail assms(1,2,5) r show ?thesis
      by (simp add: hash_rest_def absorbed_def put_bytes_def)
  qed
qed

lemma update_absorbs:
  assumes a: "absorbed p iv ctx m" and n: "length input < 2 ^ 32"
  shows "\<exists>ctx'. hash_update p ctx input = Some ctx' \<and> absorbed p iv ctx' (m @ input) \<and>
    hash_context.more ctx' = hash_context.more ctx"
proof (cases "input = []")
  case True
  with a show ?thesis by (simp add: hash_update_def)
next
  case False
  note a' = a [unfolded absorbed_def]
  let ?n = "length input" and ?t = "total0 ctx + word_of_nat (length input)"
  define t1 where "t1 = (if ?t < word_of_nat ?n then total1 ctx + 1 else total1 ctx)"
  define c1 where "c1 = ctx\<lparr>total0 := ?t, total1 := t1\<rparr>"
  have c1: "hash_count ?n ctx = c1" by (simp add: hash_count_def Let_def c1_def t1_def)
  have count: "unat (total1 c1) * 2 ^ 32 + unat (total0 c1) = length (m @ input) mod 2 ^ 64"
    using counter_step [OF n, of "total1 ctx" "total0 ctx" "length m"] a' by (simp add: c1_def t1_def)
  define left where "left = length m mod 64"
  have "unat (total0 ctx) mod 64 = (unat (total1 ctx) * 2 ^ 32 + unat (total0 ctx)) mod 64"
    by (simp add: mod_add_left_eq [symmetric])
  also have "\<dots> = length m mod 64" using a' by (simp add: mod_mod_cancel)
  finally have left: "unat (total0 ctx AND 0x3F) = left" by (simp add: unat_and_63 left_def)
  have l64: "left < 64" by (simp add: left_def)
  let ?tail = "take left (hash_buffer ctx)"
  have f: "hash_buffer c1 = hash_buffer ctx" "hash_state c1 = hash_state ctx" "length (hash_buffer ctx) = 64"
    "hash_context.more c1 = hash_context.more ctx"
    using a' by (simp_all add: c1_def)
  have m: "blocks_loop p iv (m @ input) = blocks_loop p (hash_state ctx) (?tail @ input)"
    using a' blocks_loop_append [of p iv m input] by (simp add: left_def)
  show ?thesis
  proof (cases "left \<noteq> 0 \<and> ?n \<ge> 64 - left")
    case False
    have "hash_update p ctx input = hash_rest p left c1 input"
      unfolding hash_update_def Let_def left c1 if_not_P [OF False] if_not_P [OF \<open>input \<noteq> []\<close>]
      by simp
    with hash_rest_absorbs [of c1 left p iv "m @ input" input] f m count l64 False show ?thesis by force
  next
    case True
    let ?buf = "?tail @ take (64 - left) input"
    let ?c2 = "c1\<lparr>hash_buffer := ?buf, hash_state := p (hash_state c1) ?buf\<rparr>"
    have put: "put_bytes (hash_buffer c1, left) (take (64 - left) input) = Some (?buf, 64)"
      using True f l64 by (simp add: put_bytes_def)
    have "hash_update p ctx input = hash_rest p 0 ?c2 (drop (64 - left) input)"
      unfolding hash_update_def Let_def left c1 if_P [OF True] if_not_P [OF \<open>input \<noteq> []\<close>] put
      by simp
    moreover have "blocks_loop p (hash_state ctx) (?tail @ input) = blocks_loop p (p (hash_state ctx) ?buf) (drop (64 - left) input)"
    proof -
      have "64 \<le> left + ?n" using True l64 by arith
      then show ?thesis using f l64 by (subst blocks_loop.simps) (simp add: take_append drop_append)
    qed
    moreover have "length ?buf = 64" using True f l64 by simp
    ultimately show ?thesis
      using hash_rest_absorbs [of ?c2 0 p iv "m @ input" "drop (64 - left) input"] f m count by simp
  qed
qed

subsection \<open>The padded message\<close>

text \<open>
  Both standards pad a message of \<open>n\<close> bytes with the bit 1, the fewest zeros that leave room for
  eight bytes, and the bit length in eight bytes; the order of those bytes is the argument.
\<close>

definition std_pad :: "(nat \<Rightarrow> bytes) \<Rightarrow> bytes \<Rightarrow> bytes" where
  "std_pad length_bytes m =
     m @ 0x80 # replicate ((119 - length m mod 64) mod 64) 0 @ length_bytes (8 * length m)"

text \<open>The blocks of a message whose length is a multiple of 64.\<close>

definition chunks :: "bytes \<Rightarrow> bytes list" where
  "chunks m = map (\<lambda>i. take 64 (drop (64 * i) m)) [0..<length m div 64]"

lemma blocks_loop_chunks:
  "length m mod 64 = 0 \<Longrightarrow> blocks_loop p s m = (foldl p s (chunks m), [])"
proof (induction p s m rule: blocks_loop.induct)
  case (1 p s m)
  show ?case
  proof (cases "length m \<ge> 64")
    case True
    then have l: "length m div 64 = Suc (length (drop 64 m) div 64)" by (simp add: le_div_geq)
    have "chunks m = take 64 m # chunks (drop 64 m)"
      unfolding chunks_def l upt_conv_Cons [OF zero_less_Suc] map_Suc_upt [symmetric]
      by (simp add: add.commute)
    with True 1 show ?thesis by (simp add: blocks_loop.simps [of p s m] le_mod_geq)
  next
    case False
    with 1 have "m = []" by simp
    then show ?thesis by (simp add: blocks_loop.simps [of p s "[]"] chunks_def)
  qed
qed

lemma foldl_block_cong:
  assumes "\<And>s x. length s = n \<Longrightarrow> x \<in> set xs \<Longrightarrow> f s x = g s x" "\<And>s x. length s = n \<Longrightarrow> length (g s x) = n"
    and "length s = n"
  shows "foldl f s xs = foldl g s xs"
  using assms(1,3) by (induction xs arbitrary: s) (simp_all add: assms(2))

lemma bit_length_words:
  fixes t0 t1 :: "32 word"
  assumes "unat t1 * 2 ^ 32 + unat t0 = L mod 2 ^ 64"
  shows "drop_bit 29 t0 OR push_bit 3 t1 = word_of_nat (8 * L div 2 ^ 32)" "push_bit 3 t0 = word_of_nat (8 * L)"
proof -
  have b: "bit L j = (if j < 32 then bit t0 j else bit t1 (j - 32))" if "j < 64" for j
  proof -
    have "push_bit 32 (unat t1) AND unat t0 = 0"
      by (intro bit_eqI) (auto simp: bit_simps dest: bit_imp_le_length)
    then have "unat t1 * 2 ^ 32 + unat t0 = push_bit 32 (unat t1) OR unat t0"
      using disjunctive_add_eq_or [of "push_bit 32 (unat t1)" "unat t0"] by (simp add: push_bit_eq_mult)
    then have "take_bit 64 L = push_bit 32 (unat t1) OR unat t0" using assms by (simp add: take_bit_eq_mod)
    moreover have "bit L j = bit (take_bit 64 L) j" using that by (simp add: bit_take_bit_iff)
    ultimately show ?thesis
      by (auto simp: bit_or_iff bit_push_bit_iff bit_unsigned_iff dest: bit_imp_le_length)
  qed
  have "8 * L div 2 ^ 32 = drop_bit 29 L" by (simp add: drop_bit_eq_div)
  then show "drop_bit 29 t0 OR push_bit 3 t1 = word_of_nat (8 * L div 2 ^ 32)"
    by (intro bit_word_eqI) (auto simp: bit_simps b dest: bit_imp_le_length)
  have "8 * L = push_bit 3 L" by (simp add: push_bit_eq_mult)
  then show "push_bit 3 t0 = word_of_nat (8 * L)"
    by (intro bit_word_eqI) (auto simp: bit_simps b)
qed


text \<open>What the length bytes have to be for the context's two length words.\<close>

lemma pad_absorbs:
  assumes a: "absorbed p iv ctx m" and m: "length m < 2 ^ 61"
    and put: "put_length (word_of_nat (8 * length m div 2 ^ 32)) (word_of_nat (8 * length m)) = lb (8 * length m)"
    and lb: "length (lb (8 * length m)) = 8"
  shows "\<exists>ctx'. hash_pad p put_length ctx = Some ctx' \<and>
    hash_state ctx' = foldl p iv (chunks (std_pad lb m)) \<and> hash_context.more ctx' = hash_context.more ctx"
proof -
  have c: "unat (total1 ctx) * 2 ^ 32 + unat (total0 ctx) = length m mod 2 ^ 64"
    using a by (simp add: absorbed_def)
  have "unat (total0 ctx) mod 64 = (unat (total1 ctx) * 2 ^ 32 + unat (total0 ctx)) mod 64"
    by (simp add: mod_add_left_eq [symmetric])
  also have "\<dots> = length m mod 64" unfolding c by (simp add: mod_mod_cancel)
  finally have l: "unat (total0 ctx AND 0x3F) = length m mod 64" by (simp add: unat_and_63)
  define padn where "padn = (if length m mod 64 < 56 then 56 - length m mod 64 else 120 - length m mod 64)"
  have pad_length: "0 < (if r < 56 then 56 - r else 120 - r)" "(if r < 56 then 56 - r else 120 - r) \<le> 64"
    "(if r < 56 then 56 - r else 120 - r) - 1 = (119 - r) mod 64"
    "(r + (if r < 56 then 56 - r else 120 - r) + 8) mod 64 = 0" if "r < 64" for r :: nat
    using that by (auto simp: mod_if)
  have "length m mod 64 < 64" by simp
  note pos = pad_length(1,2) [OF this, folded padn_def] and k = pad_length(3) [OF this, folded padn_def]
    and whole = pad_length(4) [OF this, folded padn_def]
  have pad: "m @ take padn hash_padding @ lb (8 * length m) = std_pad lb m"
    using pos k by (cases padn) (auto simp: std_pad_def hash_padding_def min_def)
  obtain c1 where c1: "hash_update p ctx (take padn hash_padding) = Some c1"
    "absorbed p iv c1 (m @ take padn hash_padding)" "hash_context.more c1 = hash_context.more ctx"
    using update_absorbs [OF a, of "take padn hash_padding"] pos(2) by (auto simp: hash_padding_def min_def)
  obtain c2 where c2: "hash_update p c1 (lb (8 * length m)) = Some c2"
    "absorbed p iv c2 ((m @ take padn hash_padding) @ lb (8 * length m))" "hash_context.more c2 = hash_context.more c1"
    using update_absorbs [OF c1(2), of "lb (8 * length m)"] lb by auto
  have "length (std_pad lb m) mod 64 = 0"
  proof -
    have "length (std_pad lb m) = length m + padn + 8"
      using pad [symmetric] lb pos by (simp add: hash_padding_def)
    also have "\<dots> mod 64 = (length m mod 64 + padn + 8) mod 64" by (simp add: mod_add_left_eq add.assoc)
    also have "\<dots> = 0" by (rule whole)
    finally show ?thesis .
  qed
  with c2(2) have "hash_state c2 = foldl p iv (chunks (std_pad lb m))"
    by (simp add: absorbed_def pad blocks_loop_chunks)
  moreover have "hash_pad p put_length ctx = Some c2"
    unfolding hash_pad_def Let_def l bit_length_words [OF c] put padn_def [symmetric] c1(1)
    by (simp add: c2(1))
  ultimately show ?thesis using c1(3) c2(3) by auto
qed

subsection \<open>Numbers as bytes\<close>

text \<open>\<open>n\<close> in \<open>k\<close> bytes, most or least significant byte first, as the standards write numbers.\<close>

definition big_endian :: "nat \<Rightarrow> nat \<Rightarrow> bytes" where
  "big_endian k n = map (\<lambda>i. word_of_nat (n div 256 ^ i)) (rev [0..<k])"

definition little_endian :: "nat \<Rightarrow> nat \<Rightarrow> bytes" where
  "little_endian k n = map (\<lambda>i. word_of_nat (n div 256 ^ i)) [0..<k]"

lemma byte_of_word:
  fixes w :: "32 word"
  shows "(ucast (drop_bit (8 * i) w) :: byte) = word_of_nat (unat w div 256 ^ i)"
proof -
  have "unat w div 256 ^ i = drop_bit (8 * i) (unat w)" by (simp add: drop_bit_eq_div power_mult)
  then show ?thesis by (intro bit_word_eqI) (auto simp: bit_simps)
qed

lemma byte_of_word_of_nat:
  "i < 4 \<Longrightarrow> (ucast (drop_bit (8 * i) (word_of_nat k :: 32 word)) :: byte) = word_of_nat (k div 256 ^ i)"
proof -
  assume "i < 4"
  moreover have "k div 256 ^ i = drop_bit (8 * i) k" by (simp add: drop_bit_eq_div power_mult)
  ultimately show ?thesis by (intro bit_word_eqI) (auto simp: bit_simps)
qed

lemma endian_append:
  "big_endian 8 n = big_endian 4 (n div 2 ^ 32) @ big_endian 4 n"
  "little_endian 8 n = little_endian 4 n @ little_endian 4 (n div 2 ^ 32)"
  by (simp_all add: big_endian_def little_endian_def upt_rec div_mult2_eq [symmetric])

lemma length_endian [simp]: "length (big_endian k n) = k" "length (little_endian k n) = k"
  by (simp_all add: big_endian_def little_endian_def)

lemma word_of_bytes:
  fixes a b c d :: byte
  shows "(ucast a :: 32 word) * 2 ^ 24 + ucast b * 2 ^ 16 + ucast c * 2 ^ 8 + ucast d =
    push_bit 24 (ucast a) OR push_bit 16 (ucast b) OR push_bit 8 (ucast c) OR ucast d"
proof -
  have "push_bit 24 (ucast a) AND push_bit 16 (ucast b :: 32 word) = 0"
    "(push_bit 24 (ucast a) OR push_bit 16 (ucast b)) AND push_bit 8 (ucast c :: 32 word) = 0"
    "(push_bit 24 (ucast a) OR push_bit 16 (ucast b) OR push_bit 8 (ucast c)) AND (ucast d :: 32 word) = 0"
    by (intro bit_word_eqI; auto simp: bit_simps dest: bit_imp_le_length)+
  from this [THEN disjunctive_add_eq_or]
  have "push_bit 24 (ucast a) + push_bit 16 (ucast b) + push_bit 8 (ucast c) + ucast d =
    (push_bit 24 (ucast a) OR push_bit 16 (ucast b) OR push_bit 8 (ucast c) OR ucast d :: 32 word)"
    by (simp only: or.assoc)
  then show ?thesis by (simp only: push_bit_eq_mult)
qed

subsection \<open>Hashing in pieces\<close>

fun feed :: "('c \<Rightarrow> bytes \<Rightarrow> 'c option) \<Rightarrow> 'c \<Rightarrow> bytes list \<Rightarrow> 'c option" where
  "feed update ctx [] = Some ctx"
| "feed update ctx (piece # pieces) = do { ctx \<leftarrow> update ctx piece; feed update ctx pieces }"

text \<open>
  What the users of a hash rely on (\<open>utils_hmac_sha256\<close>, the download of a firmware in pieces): a
  context stands for the bytes it was given, and finishing it gives their digest.
\<close>

locale digest_stream =
  fixes start :: 'c
    and update :: "'c \<Rightarrow> bytes \<Rightarrow> 'c option"
    and finish :: "'c \<Rightarrow> 'd option"
    and holds :: "'c \<Rightarrow> bytes \<Rightarrow> bool"
    and digest :: "bytes \<Rightarrow> 'd"
  assumes start_law: "holds start []"
    and update_law: "\<lbrakk>holds c m; length x < 2 ^ 32\<rbrakk> \<Longrightarrow> \<exists>c'. update c x = Some c' \<and> holds c' (m @ x)"
    and finish_law: "\<lbrakk>holds c m; length m < 2 ^ 61\<rbrakk> \<Longrightarrow> finish c = Some (digest m)"
begin

lemma feed_holds:
  "\<lbrakk>holds c m; \<forall>x\<in>set xs. length x < 2 ^ 32\<rbrakk> \<Longrightarrow> \<exists>c'. feed update c xs = Some c' \<and> holds c' (m @ concat xs)"
proof (induction xs arbitrary: c m)
  case (Cons x xs)
  from update_law [OF Cons.prems(1), of x] Cons.prems(2)
  obtain c' where c': "update c x = Some c'" "holds c' (m @ x)" by auto
  with Cons.IH [OF c'(2)] Cons.prems(2) show ?case by simp
qed simp

lemma pieces:
  "\<lbrakk>\<forall>x\<in>set xs. length x < 2 ^ 32; length (concat xs) < 2 ^ 61\<rbrakk> \<Longrightarrow>
    Option.bind (feed update start xs) finish = Some (digest (concat xs))"
  using feed_holds [OF start_law, of xs] finish_law by auto

end

end
