(* ===== verification/Utils_Sha2.thy ===== *)
theory Utils_Sha2
  imports Hash_Stream
begin

text \<open>
  SHA-256 and HMAC-SHA-256 (\<^verbatim>\<open>src/utils/utils_sha2.c\<close>, the variant the file selects with
  \<open>INFRA_SHA256_SMALLER\<close>), and the proof that they compute the functions of FIPS 180-4 and RFC 2104.

  An \<open>output\<close> array is a list of 32 bytes.  \<open>W\<close> has no content when the block function starts; it is
  the list of the entries written so far, which the loop writes in order.
\<close>

record sha256_context = hash_context +
  is224 :: int

definition get_uint32_be :: "bytes \<Rightarrow> nat \<Rightarrow> 32 word" where
  "get_uint32_be b i = push_bit 24 (ucast (b ! i)) OR push_bit 16 (ucast (b ! (i + 1)))
     OR push_bit 8 (ucast (b ! (i + 2))) OR ucast (b ! (i + 3))"

definition put_uint32_be :: "32 word \<Rightarrow> bytes" where
  "put_uint32_be n = [ucast (drop_bit 24 n), ucast (drop_bit 16 n), ucast (drop_bit 8 n), ucast n]"

definition utils_sha256_init :: sha256_context where
  "utils_sha256_init = \<lparr>total0 = 0, total1 = 0, hash_state = replicate 8 0, hash_buffer = replicate 64 0, is224 = 0\<rparr>"

text \<open>\<open>utils_sha256_zeroize\<close> over the whole context; NULL is \<open>None\<close>.\<close>

definition utils_sha256_free :: "sha256_context option \<Rightarrow> sha256_context option" where
  "utils_sha256_free ctx = map_option (\<lambda>_. utils_sha256_init) ctx"

definition sha256_iv :: "32 word list" where
  "sha256_iv = [0x6A09E667, 0xBB67AE85, 0x3C6EF372, 0xA54FF53A, 0x510E527F, 0x9B05688C, 0x1F83D9AB, 0x5BE0CD19]"

definition utils_sha256_starts :: "sha256_context \<Rightarrow> sha256_context" where
  "utils_sha256_starts ctx = ctx\<lparr>total0 := 0, total1 := 0, hash_state := sha256_iv, is224 := 0\<rparr>"

definition sha256_K :: "32 word list" where
  "sha256_K = [
    0x428A2F98, 0x71374491, 0xB5C0FBCF, 0xE9B5DBA5, 0x3956C25B, 0x59F111F1, 0x923F82A4, 0xAB1C5ED5,
    0xD807AA98, 0x12835B01, 0x243185BE, 0x550C7DC3, 0x72BE5D74, 0x80DEB1FE, 0x9BDC06A7, 0xC19BF174,
    0xE49B69C1, 0xEFBE4786, 0x0FC19DC6, 0x240CA1CC, 0x2DE92C6F, 0x4A7484AA, 0x5CB0A9DC, 0x76F988DA,
    0x983E5152, 0xA831C66D, 0xB00327C8, 0xBF597FC7, 0xC6E00BF3, 0xD5A79147, 0x06CA6351, 0x14292967,
    0x27B70A85, 0x2E1B2138, 0x4D2C6DFC, 0x53380D13, 0x650A7354, 0x766A0ABB, 0x81C2C92E, 0x92722C85,
    0xA2BFE8A1, 0xA81A664B, 0xC24B8B70, 0xC76C51A3, 0xD192E819, 0xD6990624, 0xF40E3585, 0x106AA070,
    0x19A4C116, 0x1E376C08, 0x2748774C, 0x34B0BCB5, 0x391C0CB3, 0x4ED8AA4A, 0x5B9CCA4F, 0x682E6FF3,
    0x748F82EE, 0x78A5636F, 0x84C87814, 0x8CC70208, 0x90BEFFFA, 0xA4506CEB, 0xBEF9A3F7, 0xC67178F2]"

definition SHR :: "32 word \<Rightarrow> nat \<Rightarrow> 32 word" where
  "SHR x n = drop_bit n (x AND 0xFFFFFFFF)"

definition ROTR :: "32 word \<Rightarrow> nat \<Rightarrow> 32 word" where
  "ROTR x n = SHR x n OR push_bit (32 - n) x"

definition S0 :: "32 word \<Rightarrow> 32 word" where "S0 x = ROTR x 7 XOR ROTR x 18 XOR SHR x 3"
definition S1 :: "32 word \<Rightarrow> 32 word" where "S1 x = ROTR x 17 XOR ROTR x 19 XOR SHR x 10"
definition S2 :: "32 word \<Rightarrow> 32 word" where "S2 x = ROTR x 2 XOR ROTR x 13 XOR ROTR x 22"
definition S3 :: "32 word \<Rightarrow> 32 word" where "S3 x = ROTR x 6 XOR ROTR x 11 XOR ROTR x 25"

definition F0 :: "32 word \<Rightarrow> 32 word \<Rightarrow> 32 word \<Rightarrow> 32 word" where
  "F0 x y z = (x AND y) OR (z AND (x OR y))"

definition F1 :: "32 word \<Rightarrow> 32 word \<Rightarrow> 32 word \<Rightarrow> 32 word" where
  "F1 x y z = z XOR (x AND (y XOR z))"

definition sha256_R :: "32 word list \<Rightarrow> nat \<Rightarrow> 32 word" where
  "sha256_R W t = S1 (W ! (t - 2)) + W ! (t - 7) + S0 (W ! (t - 15)) + W ! (t - 16)"

text \<open>The macro \<open>P\<close> on \<open>A[0], \<dots>, A[7]\<close>.\<close>

definition sha256_P :: "32 word list \<Rightarrow> 32 word \<Rightarrow> 32 word \<Rightarrow> 32 word list" where
  "sha256_P A x k =
     (let temp1 = A ! 7 + S3 (A ! 4) + F1 (A ! 4) (A ! 5) (A ! 6) + k + x;
          temp2 = S2 (A ! 0) + F0 (A ! 0) (A ! 1) (A ! 2)
      in A[3 := A ! 3 + temp1, 7 := temp1 + temp2])"

text \<open>One turn of the loop: an entry of \<open>W\<close>, a round, and the shift of \<open>A\<close>.\<close>

definition sha256_round ::
  "bytes \<Rightarrow> nat \<Rightarrow> 32 word list \<times> 32 word list \<Rightarrow> 32 word list \<times> 32 word list" where
  "sha256_round data i = (\<lambda>(A, W).
     let W = W @ [if i < 16 then get_uint32_be data (4 * i) else sha256_R W i];
         A = sha256_P A (W ! i) (sha256_K ! i);
         temp1 = A ! 7;
         A = A[7 := A ! 6];
         A = A[6 := A ! 5];
         A = A[5 := A ! 4];
         A = A[4 := A ! 3];
         A = A[3 := A ! 2];
         A = A[2 := A ! 1];
         A = A[1 := A ! 0]
     in (A[0 := temp1], W))"

definition utils_sha256_process :: block_function where
  "utils_sha256_process state data =
     (let (A, W) = fold (sha256_round data) [0..<64] (state, []) in map2 (+) state A)"

definition utils_sha256_update :: "sha256_context \<Rightarrow> bytes \<Rightarrow> sha256_context option" where
  "utils_sha256_update = hash_update utils_sha256_process"

definition utils_sha256_finish :: "sha256_context \<Rightarrow> bytes \<Rightarrow> (bytes \<times> sha256_context) option" where
  "utils_sha256_finish ctx output = do {
     ctx \<leftarrow> hash_pad utils_sha256_process (\<lambda>high low. put_uint32_be high @ put_uint32_be low) ctx;
     (output, n) \<leftarrow> put_bytes (output, 0) (concat (map (\<lambda>i. put_uint32_be (hash_state ctx ! i)) [0..<7]));
     (output, n) \<leftarrow> (if is224 ctx = 0 then put_bytes (output, 28) (put_uint32_be (hash_state ctx ! 7))
                    else Some (output, n));
     Some (output, ctx) }"

definition utils_sha256 :: "bytes \<Rightarrow> bytes \<Rightarrow> bytes option" where
  "utils_sha256 input output = do {
     let ctx = utils_sha256_starts utils_sha256_init;
     ctx \<leftarrow> utils_sha256_update ctx input;
     (output, ctx) \<leftarrow> utils_sha256_finish ctx output;
     Some output }"

text \<open>
  \<open>k_ipad\<close> and \<open>k_opad\<close>: the key in an array of 64 zeros, then the loop of exclusive ors.
\<close>

definition hmac_pad :: "bytes \<Rightarrow> byte \<Rightarrow> bytes option" where
  "hmac_pad key pad = do {
     (k, _) \<leftarrow> put_bytes (replicate 64 0, 0) key;
     Some (fold (\<lambda>i k. k[i := k ! i XOR pad]) [0..<64] k) }"

text \<open>A NULL pointer is \<open>None\<close>; the result is the content of \<open>output\<close> afterwards.\<close>

definition utils_hmac_sha256 :: "bytes option \<Rightarrow> bytes option \<Rightarrow> bytes option \<Rightarrow> bytes option option" where
  "utils_hmac_sha256 msg key output = (case (msg, key, output) of
     (Some msg, Some key, Some output) \<Rightarrow>
       if length key > 64 then Some (Some output)
       else do {
         k_ipad \<leftarrow> hmac_pad key 0x36;
         k_opad \<leftarrow> hmac_pad key 0x5c;
         let context = utils_sha256_starts utils_sha256_init;
         context \<leftarrow> utils_sha256_update context k_ipad;
         context \<leftarrow> utils_sha256_update context msg;
         (output, context) \<leftarrow> utils_sha256_finish context output;
         let context = utils_sha256_starts utils_sha256_init;
         context \<leftarrow> utils_sha256_update context k_opad;
         context \<leftarrow> utils_sha256_update context (take 32 output);
         (output, context) \<leftarrow> utils_sha256_finish context output;
         Some (Some output) }
   | _ \<Rightarrow> Some output)"

subsection \<open>FIPS 180-4\<close>

text \<open>
  The constants of the standard are the first 32 bits of the fractional parts of the square roots
  of the first 8 primes and of the cube roots of the first 64.  \<open>int_root n x\<close> is the integer part of
  the \<open>n\<close>-th root of \<open>x\<close>, for a root below \<open>2^40\<close>.
\<close>

definition int_root :: "nat \<Rightarrow> nat \<Rightarrow> nat" where
  "int_root n x = fold (\<lambda>i r. if (r + 2 ^ i) ^ n \<le> x then r + 2 ^ i else r) (rev [0..<40]) 0"

definition fips_primes :: "nat list" where
  "fips_primes = [
    2, 3, 5, 7, 11, 13, 17, 19, 23, 29, 31, 37, 41, 43, 47, 53,
    59, 61, 67, 71, 73, 79, 83, 89, 97, 101, 103, 107, 109, 113, 127, 131,
    137, 139, 149, 151, 157, 163, 167, 173, 179, 181, 191, 193, 197, 199, 211, 223,
    227, 229, 233, 239, 241, 251, 257, 263, 269, 271, 277, 281, 283, 293, 307, 311]"

definition fips_constant :: "nat \<Rightarrow> nat \<Rightarrow> 32 word" where
  "fips_constant n p = word_of_nat (int_root n (p * 2 ^ (32 * n)))"

definition fips_iv :: "32 word list" where
  "fips_iv = map (fips_constant 2) (take 8 fips_primes)"

definition fips_K :: "nat \<Rightarrow> 32 word" where
  "fips_K t = fips_constant 3 (fips_primes ! t)"

definition fips_Ch :: "32 word \<Rightarrow> 32 word \<Rightarrow> 32 word \<Rightarrow> 32 word" where
  "fips_Ch x y z = (x AND y) XOR (NOT x AND z)"

definition fips_Maj :: "32 word \<Rightarrow> 32 word \<Rightarrow> 32 word \<Rightarrow> 32 word" where
  "fips_Maj x y z = (x AND y) XOR (x AND z) XOR (y AND z)"

text \<open>The four sums of rotations: two of three rotations, two of two rotations and a shift.\<close>

definition fips_Sigma :: "nat \<Rightarrow> nat \<Rightarrow> nat \<Rightarrow> 32 word \<Rightarrow> 32 word" where
  "fips_Sigma a b c x = word_rotr a x XOR word_rotr b x XOR word_rotr c x"

definition fips_sigma :: "nat \<Rightarrow> nat \<Rightarrow> nat \<Rightarrow> 32 word \<Rightarrow> 32 word" where
  "fips_sigma a b c x = word_rotr a x XOR word_rotr b x XOR drop_bit c x"

text \<open>The message schedule of a block.\<close>

fun fips_W :: "bytes \<Rightarrow> nat \<Rightarrow> 32 word" where
  "fips_W M t =
     (if t < 16 then foldl (\<lambda>n b. n * 256 + ucast b) 0 (take 4 (drop (4 * t) M))
      else fips_sigma 17 19 10 (fips_W M (t - 2)) + fips_W M (t - 7)
         + fips_sigma 7 18 3 (fips_W M (t - 15)) + fips_W M (t - 16))"

declare fips_W.simps [simp del]

type_synonym working = "32 word \<times> 32 word \<times> 32 word \<times> 32 word \<times> 32 word \<times> 32 word \<times> 32 word \<times> 32 word"

definition fips_round :: "bytes \<Rightarrow> nat \<Rightarrow> working \<Rightarrow> working" where
  "fips_round M t = (\<lambda>(a, b, c, d, e, f, g, h).
     let T1 = h + fips_Sigma 6 11 25 e + fips_Ch e f g + fips_K t + fips_W M t;
         T2 = fips_Sigma 2 13 22 a + fips_Maj a b c
     in (T1 + T2, a, b, c, d + T1, e, f, g))"

definition fips_compress :: "32 word list \<Rightarrow> bytes \<Rightarrow> 32 word list" where
  "fips_compress H M =
     (case fold (fips_round M) [0..<64] (H ! 0, H ! 1, H ! 2, H ! 3, H ! 4, H ! 5, H ! 6, H ! 7) of
        (a, b, c, d, e, f, g, h) \<Rightarrow> map2 (+) H [a, b, c, d, e, f, g, h])"

definition fips_sha256 :: "bytes \<Rightarrow> bytes" where
  "fips_sha256 m = concat (map (\<lambda>w. big_endian 4 (unat w))
     (foldl fips_compress fips_iv (chunks (std_pad (big_endian 8) m))))"

text \<open>RFC 2104, for a key of at most a block and for a longer one.\<close>

definition rfc_hmac :: "bytes \<Rightarrow> bytes \<Rightarrow> bytes" where
  "rfc_hmac key m =
     (let K = (if length key > 64 then fips_sha256 key else key);
          pad = (\<lambda>b. map (\<lambda>k. k XOR b) (K @ replicate (64 - length K) 0))
      in fips_sha256 (pad 0x5c @ fips_sha256 (pad 0x36 @ m)))"

subsection \<open>The constants\<close>

lemma int_root_step:
  fixes r x q :: nat
  assumes "0 < n" "r ^ n \<le> x" "x < (r + 1) ^ n" "q * 2 ^ Suc i \<le> r" "r < (q + 1) * 2 ^ Suc i"
  shows "(if (q * 2 ^ Suc i + 2 ^ i) ^ n \<le> x then q * 2 ^ Suc i + 2 ^ i else q * 2 ^ Suc i) = r div 2 ^ i * 2 ^ i"
proof -
  have "(q * 2 ^ Suc i + 2 ^ i) ^ n \<le> x \<longleftrightarrow> q * 2 ^ Suc i + 2 ^ i \<le> r"
  proof
    assume "(q * 2 ^ Suc i + 2 ^ i) ^ n \<le> x"
    with assms(3) have "(q * 2 ^ Suc i + 2 ^ i) ^ n < (r + 1) ^ n" by linarith
    then show "q * 2 ^ Suc i + 2 ^ i \<le> r" using power_less_imp_less_base [of _ n "r + 1"] by fastforce
  next
    assume "q * 2 ^ Suc i + 2 ^ i \<le> r"
    then have "(q * 2 ^ Suc i + 2 ^ i) ^ n \<le> r ^ n" by (simp add: power_mono)
    with assms(2) show "(q * 2 ^ Suc i + 2 ^ i) ^ n \<le> x" by linarith
  qed
  moreover have "r div 2 ^ i = (if q * 2 ^ Suc i + 2 ^ i \<le> r then 2 * q + 1 else 2 * q)"
    using assms(4,5) by (auto intro!: div_nat_eqI simp: algebra_simps)
  ultimately show ?thesis by (simp add: algebra_simps)
qed

lemma int_root_bits:
  fixes r x :: nat
  assumes "0 < n" "r ^ n \<le> x" "x < (r + 1) ^ n"
  shows "fold (\<lambda>i r. if (r + 2 ^ i) ^ n \<le> x then r + 2 ^ i else r) (rev [0..<k]) (r div 2 ^ k * 2 ^ k) = r"
proof (induction k)
  case (Suc k)
  have q: "r div 2 ^ Suc k * 2 ^ Suc k \<le> r" "r < (r div 2 ^ Suc k + 1) * 2 ^ Suc k"
    by (simp_all add: dividend_less_div_times add.commute div_times_less_eq_dividend del: power_Suc)
  from int_root_step [OF assms q] Suc show ?case by (simp del: power_Suc)
qed simp

lemma int_root_eq:
  assumes "0 < n" "r ^ n \<le> x" "x < (r + 1) ^ n" "r < 2 ^ 40"
  shows "int_root n x = r"
  using int_root_bits [OF assms(1-3), of 40] assms(4) by (simp add: int_root_def)

lemma fips_constants:
  assumes "0 < n" "list_all2 (\<lambda>p r. r ^ n \<le> p * 2 ^ (32 * n) \<and> p * 2 ^ (32 * n) < (r + 1) ^ n \<and> r < 2 ^ 40) ps rs"
  shows "map (fips_constant n) ps = map word_of_nat rs"
  using assms(2) by induction (auto simp: fips_constant_def int_root_eq [OF assms(1)])

lemma sha256_iv: "sha256_iv = fips_iv"
proof -
  have "map (fips_constant 2) (take 8 fips_primes) = map word_of_nat [
    6074000999, 7439101573, 9603838834, 11363415354,
    14244795007, 15485724812, 17708603819, 18721328409]"
    by (rule fips_constants) (simp_all add: fips_primes_def)
  then show ?thesis by (simp add: sha256_iv_def fips_iv_def)
qed

lemma sha256_K: "sha256_K = map (fips_constant 3) fips_primes"
proof -
  have "map (fips_constant 3) fips_primes = map word_of_nat [
    5411319704, 6194414737, 7344290767, 8215976869, 9551921755, 10098905585,
    11043570340, 11460697813, 12214315672, 13195500289, 13492127166, 14311783875,
    14809980276, 15046980094, 15499789991, 16133124468, 16720292289, 16907126662,
    17444216262, 17784676812, 17950125167, 18429019306, 18734950876, 19175934170,
    19734090066, 20001703533, 20132865992, 20390182855, 20516441075, 20764397895,
    21588763473, 21813078375, 22141143685, 22248366392, 22769593852, 22871018771,
    23170020180, 23461497531, 23651862830, 23931792517, 24205322401, 24295138891,
    24734567280, 24820601251, 24990902297, 25075189284, 25569408389, 26045227120,
    26200031510, 26276752392, 26428864332, 26653801653, 26727943347, 27092625994,
    27306805839, 27517677555, 27725365998, 27793908591, 27997534228, 28131656200,
    28198240250, 28526537963, 28973835255, 29099129074]"
    by (rule fips_constants) (simp_all add: fips_primes_def)
  then show ?thesis by (simp add: sha256_K_def)
qed

subsection \<open>The block function\<close>

lemma SHR: "SHR x n = drop_bit n x"
proof -
  have "(0xFFFFFFFF :: 32 word) = mask 32" by (simp add: mask_eq_exp_minus_1)
  then show ?thesis by (simp only: SHR_def take_bit_eq_mask [symmetric]) (simp add: take_bit_word_eq_self)
qed

lemma ROTR:
  assumes "0 < n" "n < 32"
  shows "ROTR x n = word_rotr n x"
proof (rule bit_word_eqI)
  fix i assume "i < LENGTH(32)"
  moreover from this assms have "(i + n) mod 32 = (if i + n < 32 then i + n else i + n - 32)"
    by (simp add: mod_if)
  ultimately show "bit (ROTR x n) i = bit (word_rotr n x) i"
    using assms
    by (cases "i + n < 32") (auto simp: ROTR_def SHR bit_simps bit_word_rotr_iff add.commute dest: bit_imp_le_length)
qed

lemma sha256_functions:
  "S0 = fips_sigma 7 18 3" "S1 = fips_sigma 17 19 10" "S2 = fips_Sigma 2 13 22" "S3 = fips_Sigma 6 11 25"
  "F0 = fips_Maj" "F1 = fips_Ch"
  by (auto intro!: ext bit_word_eqI simp: S0_def S1_def S2_def S3_def ROTR SHR fips_sigma_def fips_Sigma_def
    F0_def F1_def fips_Maj_def fips_Ch_def bit_simps)

lemma get_uint32_be:
  assumes "i + 4 \<le> length data"
  shows "get_uint32_be data i = foldl (\<lambda>n b. n * 256 + ucast b) 0 (take 4 (drop i data))"
proof -
  have "take 4 (drop i data) = [data ! i, data ! (i + 1), data ! (i + 2), data ! (i + 3)]"
    using assms by (auto intro!: nth_equalityI simp: less_Suc_eq numeral_eq_Suc)
  then show ?thesis by (simp add: get_uint32_be_def algebra_simps flip: word_of_bytes)
qed

lemma put_bytes_of: "put_uint32_be w = map (\<lambda>i. ucast (drop_bit (8 * i) w)) (rev [0..<4])"
  by (simp add: put_uint32_be_def upt_rec)

lemma put_uint32_be: "put_uint32_be w = big_endian 4 (unat w)"
  by (simp add: put_bytes_of big_endian_def byte_of_word)

lemma put_uint32_be_of_nat: "put_uint32_be (word_of_nat k) = big_endian 4 k"
  by (simp add: put_bytes_of big_endian_def byte_of_word_of_nat)

definition working_list :: "working \<Rightarrow> 32 word list" where
  "working_list = (\<lambda>(a, b, c, d, e, f, g, h). [a, b, c, d, e, f, g, h])"

lemma length_fips_primes: "length fips_primes = 64"
  by (simp add: fips_primes_def)

lemma sha256_round:
  assumes "i < 64" "length data = 64"
  shows "sha256_round data i (working_list v, map (fips_W data) [0..<i]) =
    (working_list (fips_round data i v), map (fips_W data) [0..<Suc i])"
proof -
  have K: "sha256_K ! i = fips_K i" using assms(1) by (simp add: sha256_K fips_K_def nth_map length_fips_primes)
  have "(if i < 16 then get_uint32_be data (4 * i) else sha256_R (map (fips_W data) [0..<i]) i) = fips_W data i"
    using assms by (subst fips_W.simps) (simp add: get_uint32_be sha256_R_def sha256_functions)
  moreover obtain a b c d e f g h where "v = (a, b, c, d, e, f, g, h)" by (metis surj_pair)
  ultimately show ?thesis
    by (simp add: sha256_round_def working_list_def fips_round_def sha256_P_def Let_def K nth_append
      sha256_functions add.assoc)
qed

lemma sha256_rounds:
  assumes "k \<le> 64" "length data = 64"
  shows "fold (sha256_round data) [0..<k] (working_list v, []) =
    (working_list (fold (fips_round data) [0..<k] v), map (fips_W data) [0..<k])"
  using assms(1)
proof (induction k)
  case (Suc k)
  then show ?case using sha256_round [of k data] assms(2) by simp
qed simp

lemma sha256_process:
  assumes "length H = 8" "length data = 64"
  shows "utils_sha256_process H data = fips_compress H data"
proof -
  define v where "v = (H ! 0, H ! 1, H ! 2, H ! 3, H ! 4, H ! 5, H ! 6, H ! 7)"
  have "H = working_list v"
    using assms(1) by (auto intro!: nth_equalityI simp: working_list_def v_def less_Suc_eq numeral_eq_Suc)
  then have "fold (sha256_round data) [0..<64] (H, []) =
    (working_list (fold (fips_round data) [0..<64] v), map (fips_W data) [0..<64])"
    using sha256_rounds [of 64 data v] assms(2) by simp
  then show ?thesis
    unfolding utils_sha256_process_def fips_compress_def v_def [symmetric]
    by (simp add: working_list_def split: prod.split)
qed

lemma sha256_blocks:
  "foldl utils_sha256_process fips_iv (chunks m) = foldl fips_compress fips_iv (chunks m)"
proof (rule foldl_block_cong [where n = 8])
  show "utils_sha256_process s x = fips_compress s x" if "length s = 8" "x \<in> set (chunks m)" for s x
    using that by (intro sha256_process) (auto simp: chunks_def)
qed (auto simp: fips_compress_def fips_iv_def fips_primes_def split: prod.split)

lemma length_sha256_blocks: "length (foldl fips_compress fips_iv bs) = 8"
proof -
  have "length s = 8 \<Longrightarrow> length (foldl fips_compress s bs) = 8" for s
    by (induction bs arbitrary: s) (auto simp: fips_compress_def split: prod.split)
  then show ?thesis by (simp add: fips_iv_def fips_primes_def)
qed

subsection \<open>Contexts\<close>

definition sha256_holds :: "sha256_context \<Rightarrow> bytes \<Rightarrow> bool" where
  "sha256_holds ctx m \<longleftrightarrow> absorbed utils_sha256_process fips_iv ctx m \<and> is224 ctx = 0"

lemma sha256_starts: "sha256_holds (utils_sha256_starts utils_sha256_init) []"
  by (simp add: sha256_holds_def absorbed_def utils_sha256_starts_def utils_sha256_init_def sha256_iv
    blocks_loop.simps [of _ _ "[]"])

lemma is224_more: "hash_context.more c' = hash_context.more c \<Longrightarrow> is224 c' = is224 c"
  by (cases c, cases c') simp

lemma sha256_update:
  assumes "sha256_holds c m" "length x < 2 ^ 32"
  shows "\<exists>c'. utils_sha256_update c x = Some c' \<and> sha256_holds c' (m @ x)"
  using update_absorbs [of utils_sha256_process fips_iv c m x] assms
  by (auto simp: sha256_holds_def utils_sha256_update_def dest: is224_more)

lemma concat_digest:
  "length H = 8 \<Longrightarrow> concat (map (\<lambda>i. put_uint32_be (H ! i)) [0..<7]) @ put_uint32_be (H ! 7) =
    concat (map (\<lambda>w. big_endian 4 (unat w)) H)"
proof -
  assume "length H = 8"
  then have "H = map ((!) H) [0..<8]" by (metis map_nth)
  also have "\<dots> = map ((!) H) [0..<7] @ [H ! 7]" by (simp add: upt_rec numeral_eq_Suc)
  finally have "concat (map (\<lambda>w. big_endian 4 (unat w)) H) =
    concat (map (\<lambda>w. big_endian 4 (unat w)) (map ((!) H) [0..<7] @ [H ! 7]))" by simp
  then show ?thesis by (simp add: put_uint32_be comp_def)
qed

lemma length_fips_sha256 [simp]: "length (fips_sha256 m) = 32"
  by (simp add: fips_sha256_def length_concat length_sha256_blocks comp_def sum_list_triv)

lemma sha256_finish:
  assumes h: "sha256_holds c m" and m: "length m < 2 ^ 61" and out: "length output = 32"
  shows "\<exists>c'. utils_sha256_finish c output = Some (fips_sha256 m, c')"
proof -
  let ?put = "\<lambda>high low. put_uint32_be high @ put_uint32_be low"
  let ?H = "foldl fips_compress fips_iv (chunks (std_pad (big_endian 8) m))"
  have a: "absorbed utils_sha256_process fips_iv c m" using h by (simp add: sha256_holds_def)
  have put: "?put (word_of_nat (8 * length m div 2 ^ 32)) (word_of_nat (8 * length m)) = big_endian 8 (8 * length m)"
    by (simp only: put_uint32_be_of_nat endian_append)
  obtain c' where c': "hash_pad utils_sha256_process ?put c = Some c'" "hash_state c' = ?H"
    "hash_context.more c' = hash_context.more c"
    using pad_absorbs [where put_length = ?put and lb = "big_endian 8", OF a m put length_endian(1)] by (auto simp: sha256_blocks)
  have "is224 c' = 0" using is224_more [OF c'(3)] h by (simp add: sha256_holds_def)
  moreover have "length (concat (map (\<lambda>i. put_uint32_be (?H ! i)) [0..<7])) = 28"
    by (simp add: length_concat comp_def put_uint32_be_def sum_list_triv)
  ultimately show ?thesis
    using out concat_digest [OF length_sha256_blocks, of "chunks (std_pad (big_endian 8) m)"]
    by (simp add: utils_sha256_finish_def c' put_bytes_def fips_sha256_def put_uint32_be_def [of "_ ! 7"])
qed

interpretation sha256: digest_stream "utils_sha256_starts utils_sha256_init" utils_sha256_update
  "\<lambda>c. map_option fst (utils_sha256_finish c (replicate 32 0))" sha256_holds fips_sha256
proof
  show "map_option fst (utils_sha256_finish c (replicate 32 0)) = Some (fips_sha256 m)"
    if "sha256_holds c m" "length m < 2 ^ 61" for c m
    using sha256_finish [OF that, of "replicate 32 0"] by auto
qed (simp_all only: sha256_starts sha256_update)

text \<open>
  C33: Hashing: for an input of any length a call can pass, \<open>utils_sha256\<close> writes exactly the SHA-256
  digest of FIPS 180-4 (its padding, message schedule, rounds, constants and byte order) to the
  output.
\<close>

theorem utils_sha256_is_fips:
  assumes "length input < 2 ^ 32" "length digest = 32"
  shows "utils_sha256 input digest = Some (fips_sha256 input)"
proof -
  obtain c where "utils_sha256_update (utils_sha256_starts utils_sha256_init) input = Some c" "sha256_holds c input"
    using sha256_update [OF sha256_starts assms(1)] by auto
  with sha256_finish [of c input digest] assms show ?thesis by (auto simp: utils_sha256_def)
qed

theorem utils_sha256_is_fips_witness:
  "utils_sha256 [0x61, 0x62, 0x63] (replicate 32 0) = Some (fips_sha256 [0x61, 0x62, 0x63])"
  by (rule utils_sha256_is_fips) simp_all

lemma xor_loop:
  "n \<le> length k \<Longrightarrow> fold (\<lambda>i k. k[i := k ! i XOR pad]) [0..<n] k = map (\<lambda>b. b XOR pad) (take n k) @ drop n k"
proof (induction n)
  case (Suc n)
  then show ?case
    by (simp add: take_Suc_conv_app_nth list_update_append nth_append Cons_nth_drop_Suc [symmetric])
qed simp

lemma hmac_pad:
  assumes "length key \<le> 64"
  shows "hmac_pad key pad = Some (map (\<lambda>k. k XOR pad) (key @ replicate (64 - length key) 0))"
proof -
  have "fold (\<lambda>i k. k[i := k ! i XOR pad]) [0..<64] (key @ replicate (64 - length key) 0) =
    map (\<lambda>k. k XOR pad) (key @ replicate (64 - length key) 0)"
    using assms xor_loop [of 64 "key @ replicate (64 - length key) 0" pad] by simp
  then show ?thesis using assms by (simp add: hmac_pad_def put_bytes_def)
qed

lemma sha256_two_pieces:
  assumes "length x < 2 ^ 32" "length y < 2 ^ 32" "length out = 32"
  shows "\<exists>c c1 c2. utils_sha256_update (utils_sha256_starts utils_sha256_init) x = Some c \<and>
    utils_sha256_update c y = Some c1 \<and> utils_sha256_finish c1 out = Some (fips_sha256 (x @ y), c2)"
proof -
  obtain c where c: "utils_sha256_update (utils_sha256_starts utils_sha256_init) x = Some c" "sha256_holds c x"
    using sha256_update [OF sha256_starts assms(1)] by auto
  obtain c1 where c1: "utils_sha256_update c y = Some c1" "sha256_holds c1 (x @ y)"
    using sha256_update [OF c(2) assms(2)] by auto
  with c assms sha256_finish [OF c1(2) _ assms(3)] show ?thesis by auto
qed

text \<open>
  C34: Message authentication: with a key of at most 64 bytes \<open>utils_hmac_sha256\<close> writes the HMAC of
  RFC 2104 over SHA-256.  With a longer key, where the RFC hashes the key, it returns without
  writing anything, and it has no result code that would tell.
\<close>

theorem utils_hmac_sha256_is_rfc:
  assumes "length msg < 2 ^ 32" "length digest = 32"
  shows "utils_hmac_sha256 (Some msg) (Some key) (Some digest) =
    Some (Some (if length key \<le> 64 then rfc_hmac key msg else digest))"
proof (cases "length key \<le> 64")
  case True
  let ?i = "map (\<lambda>k. k XOR 0x36) (key @ replicate (64 - length key) 0)"
  let ?o = "map (\<lambda>k. k XOR 0x5c) (key @ replicate (64 - length key) 0)"
  have l: "length ?i < 2 ^ 32" "length ?o < 2 ^ 32" using True by simp_all
  obtain c c1 c2 where "utils_sha256_update (utils_sha256_starts utils_sha256_init) ?i = Some c"
    "utils_sha256_update c msg = Some c1" "utils_sha256_finish c1 digest = Some (fips_sha256 (?i @ msg), c2)"
    using sha256_two_pieces [OF l(1) assms] by blast
  moreover obtain d d1 d2 where "utils_sha256_update (utils_sha256_starts utils_sha256_init) ?o = Some d"
    "utils_sha256_update d (fips_sha256 (?i @ msg)) = Some d1"
    "utils_sha256_finish d1 (fips_sha256 (?i @ msg)) = Some (fips_sha256 (?o @ fips_sha256 (?i @ msg)), d2)"
    using sha256_two_pieces [OF l(2), of "fips_sha256 (?i @ msg)" "fips_sha256 (?i @ msg)"] by auto
  ultimately show ?thesis
    using True by (simp add: utils_hmac_sha256_def hmac_pad Let_def rfc_hmac_def)
qed (simp add: utils_hmac_sha256_def)

theorem utils_hmac_sha256_is_rfc_witness:
  "utils_hmac_sha256 (Some [0x61]) (Some (replicate 65 0)) (Some (replicate 32 7)) = Some (Some (replicate 32 7)) \<and>
   utils_hmac_sha256 (Some [0x61]) (Some [1, 2]) (Some (replicate 32 7)) = Some (Some (rfc_hmac [1, 2] [0x61]))"
  using utils_hmac_sha256_is_rfc [of "[0x61]" "replicate 32 7" "replicate 65 0"]
    utils_hmac_sha256_is_rfc [of "[0x61]" "replicate 32 7" "[1, 2]"] by simp

end
