(* ===== verification/Utils_Md5.thy ===== *)
theory Utils_Md5
  imports Hash_Stream
begin

text \<open>
  MD5 (\<^verbatim>\<open>src/utils/utils_md5.c\<close>), with which the SDK checks a downloaded firmware, and the proof
  that the code, fed in pieces, computes the digest of RFC 1321.

  The macro \<open>F\<close>, redefined before each of the four rounds, is \<open>md5_F1\<close> to \<open>md5_F4\<close>.  The 64 lines
  \<open>P(\<dots>)\<close> come in groups of four, which assign \<open>A\<close>, \<open>D\<close>, \<open>C\<close> and \<open>B\<close> in turn: \<open>md5_quarter\<close>.
\<close>

type_synonym md5_context = hash_context
type_synonym md5_vars = "32 word \<times> 32 word \<times> 32 word \<times> 32 word"

definition get_uint32_le :: "bytes \<Rightarrow> nat \<Rightarrow> 32 word" where
  "get_uint32_le b i = ucast (b ! i) OR push_bit 8 (ucast (b ! (i + 1)))
     OR push_bit 16 (ucast (b ! (i + 2))) OR push_bit 24 (ucast (b ! (i + 3)))"

definition put_uint32_le :: "32 word \<Rightarrow> bytes" where
  "put_uint32_le n = [ucast (n AND 0xFF), ucast (drop_bit 8 n AND 0xFF), ucast (drop_bit 16 n AND 0xFF),
     ucast (drop_bit 24 n AND 0xFF)]"

definition utils_md5_init :: md5_context where
  "utils_md5_init = \<lparr>total0 = 0, total1 = 0, hash_state = replicate 4 0, hash_buffer = replicate 64 0\<rparr>"

definition utils_md5_free :: "md5_context option \<Rightarrow> md5_context option" where
  "utils_md5_free ctx = map_option (\<lambda>_. utils_md5_init) ctx"

definition utils_md5_clone :: "md5_context \<Rightarrow> md5_context \<Rightarrow> md5_context" where
  "utils_md5_clone dst src = src"

definition md5_iv :: "32 word list" where
  "md5_iv = [0x67452301, 0xEFCDAB89, 0x98BADCFE, 0x10325476]"

definition utils_md5_starts :: "md5_context \<Rightarrow> md5_context" where
  "utils_md5_starts ctx = ctx\<lparr>total0 := 0, total1 := 0, hash_state := md5_iv\<rparr>"

definition md5_S :: "32 word \<Rightarrow> nat \<Rightarrow> 32 word" where
  "md5_S x n = push_bit n x OR drop_bit (32 - n) (x AND 0xFFFFFFFF)"

definition md5_F1 :: "32 word \<Rightarrow> 32 word \<Rightarrow> 32 word \<Rightarrow> 32 word" where
  "md5_F1 x y z = z XOR (x AND (y XOR z))"

definition md5_F2 :: "32 word \<Rightarrow> 32 word \<Rightarrow> 32 word \<Rightarrow> 32 word" where
  "md5_F2 x y z = y XOR (z AND (x XOR y))"

definition md5_F3 :: "32 word \<Rightarrow> 32 word \<Rightarrow> 32 word \<Rightarrow> 32 word" where
  "md5_F3 x y z = x XOR y XOR z"

definition md5_F4 :: "32 word \<Rightarrow> 32 word \<Rightarrow> 32 word \<Rightarrow> 32 word" where
  "md5_F4 x y z = y XOR (x OR NOT z)"

text \<open>The new value of the first argument of \<open>P\<close>.\<close>

definition md5_P ::
  "(32 word \<Rightarrow> 32 word \<Rightarrow> 32 word \<Rightarrow> 32 word) \<Rightarrow> (nat \<Rightarrow> 32 word) \<Rightarrow>
    32 word \<Rightarrow> 32 word \<Rightarrow> 32 word \<Rightarrow> 32 word \<Rightarrow> nat \<times> nat \<times> 32 word \<Rightarrow> 32 word" where
  "md5_P F X a b c d = (\<lambda>(k, s, t). let a = a + (F b c d + X k + t) in md5_S a s + b)"

definition md5_quarter ::
  "(32 word \<Rightarrow> 32 word \<Rightarrow> 32 word \<Rightarrow> 32 word) \<Rightarrow> (nat \<Rightarrow> 32 word) \<Rightarrow> (nat \<times> nat \<times> 32 word) list \<Rightarrow>
    md5_vars \<Rightarrow> md5_vars" where
  "md5_quarter F X p = (\<lambda>(A, B, C, D).
     let A = md5_P F X A B C D (p ! 0);
         D = md5_P F X D A B C (p ! 1);
         C = md5_P F X C D A B (p ! 2);
         B = md5_P F X B C D A (p ! 3)
     in (A, B, C, D))"

definition md5_round1 :: "(nat \<Rightarrow> 32 word) \<Rightarrow> md5_vars \<Rightarrow> md5_vars" where
  "md5_round1 x v = fold (md5_quarter md5_F1 x) [
    [(0, 7, 0xD76AA478), (1, 12, 0xE8C7B756), (2, 17, 0x242070DB), (3, 22, 0xC1BDCEEE)],
    [(4, 7, 0xF57C0FAF), (5, 12, 0x4787C62A), (6, 17, 0xA8304613), (7, 22, 0xFD469501)],
    [(8, 7, 0x698098D8), (9, 12, 0x8B44F7AF), (10, 17, 0xFFFF5BB1), (11, 22, 0x895CD7BE)],
    [(12, 7, 0x6B901122), (13, 12, 0xFD987193), (14, 17, 0xA679438E), (15, 22, 0x49B40821)]] v"

definition md5_round2 :: "(nat \<Rightarrow> 32 word) \<Rightarrow> md5_vars \<Rightarrow> md5_vars" where
  "md5_round2 x v = fold (md5_quarter md5_F2 x) [
    [(1, 5, 0xF61E2562), (6, 9, 0xC040B340), (11, 14, 0x265E5A51), (0, 20, 0xE9B6C7AA)],
    [(5, 5, 0xD62F105D), (10, 9, 0x02441453), (15, 14, 0xD8A1E681), (4, 20, 0xE7D3FBC8)],
    [(9, 5, 0x21E1CDE6), (14, 9, 0xC33707D6), (3, 14, 0xF4D50D87), (8, 20, 0x455A14ED)],
    [(13, 5, 0xA9E3E905), (2, 9, 0xFCEFA3F8), (7, 14, 0x676F02D9), (12, 20, 0x8D2A4C8A)]] v"

definition md5_round3 :: "(nat \<Rightarrow> 32 word) \<Rightarrow> md5_vars \<Rightarrow> md5_vars" where
  "md5_round3 x v = fold (md5_quarter md5_F3 x) [
    [(5, 4, 0xFFFA3942), (8, 11, 0x8771F681), (11, 16, 0x6D9D6122), (14, 23, 0xFDE5380C)],
    [(1, 4, 0xA4BEEA44), (4, 11, 0x4BDECFA9), (7, 16, 0xF6BB4B60), (10, 23, 0xBEBFBC70)],
    [(13, 4, 0x289B7EC6), (0, 11, 0xEAA127FA), (3, 16, 0xD4EF3085), (6, 23, 0x04881D05)],
    [(9, 4, 0xD9D4D039), (12, 11, 0xE6DB99E5), (15, 16, 0x1FA27CF8), (2, 23, 0xC4AC5665)]] v"

definition md5_round4 :: "(nat \<Rightarrow> 32 word) \<Rightarrow> md5_vars \<Rightarrow> md5_vars" where
  "md5_round4 x v = fold (md5_quarter md5_F4 x) [
    [(0, 6, 0xF4292244), (7, 10, 0x432AFF97), (14, 15, 0xAB9423A7), (5, 21, 0xFC93A039)],
    [(12, 6, 0x655B59C3), (3, 10, 0x8F0CCC92), (10, 15, 0xFFEFF47D), (1, 21, 0x85845DD1)],
    [(8, 6, 0x6FA87E4F), (15, 10, 0xFE2CE6E0), (6, 15, 0xA3014314), (13, 21, 0x4E0811A1)],
    [(4, 6, 0xF7537E82), (11, 10, 0xBD3AF235), (2, 15, 0x2AD7D2BB), (9, 21, 0xEB86D391)]] v"


definition utils_md5_process :: block_function where
  "utils_md5_process state data =
     (let X = (\<lambda>i. get_uint32_le data (4 * i));
          (A, B, C, D) = md5_round4 X (md5_round3 X (md5_round2 X (md5_round1 X
            (state ! 0, state ! 1, state ! 2, state ! 3))))
      in [state ! 0 + A, state ! 1 + B, state ! 2 + C, state ! 3 + D])"

definition utils_md5_update :: "md5_context \<Rightarrow> bytes \<Rightarrow> md5_context option" where
  "utils_md5_update = hash_update utils_md5_process"

definition utils_md5_finish :: "md5_context \<Rightarrow> (bytes \<times> md5_context) option" where
  "utils_md5_finish ctx = do {
     ctx \<leftarrow> hash_pad utils_md5_process (\<lambda>high low. put_uint32_le low @ put_uint32_le high) ctx;
     Some (put_uint32_le (hash_state ctx ! 0) @ put_uint32_le (hash_state ctx ! 1) @
           put_uint32_le (hash_state ctx ! 2) @ put_uint32_le (hash_state ctx ! 3), ctx) }"

definition utils_md5 :: "bytes \<Rightarrow> bytes option" where
  "utils_md5 input = do {
     ctx \<leftarrow> utils_md5_update (utils_md5_starts utils_md5_init) input;
     (digest, ctx) \<leftarrow> utils_md5_finish ctx;
     Some digest }"

definition utils_hb2hex :: "byte \<Rightarrow> byte" where
  "utils_hb2hex hb = (let hb = hb AND 0xF in if hb < 10 then 0x30 + hb else hb - 10 + 0x61)"

text \<open>The string of 32 digits and its terminator.\<close>

definition utils_md5_finish_hb2hex :: "md5_context \<Rightarrow> (bytes \<times> md5_context) option" where
  "utils_md5_finish_hb2hex md5 = do {
     (buf_out, md5) \<leftarrow> utils_md5_finish md5;
     Some (concat (map (\<lambda>i. [utils_hb2hex (drop_bit 4 (buf_out ! i)), utils_hb2hex (buf_out ! i)]) [0..<16]) @ [0], md5) }"

subsection \<open>RFC 1321\<close>

text \<open>
  Step \<open>i\<close> of 64: its function, the word of the block and the rotation it uses, and its constant,
  the integer part of \<open>2^32 * abs (sin (i + 1))\<close>, given as the table of the RFC.
\<close>

definition rfc_function :: "nat \<Rightarrow> 32 word \<Rightarrow> 32 word \<Rightarrow> 32 word \<Rightarrow> 32 word" where
  "rfc_function i x y z =
     (if i < 16 then (x AND y) OR (NOT x AND z)
      else if i < 32 then (x AND z) OR (y AND NOT z)
      else if i < 48 then x XOR y XOR z
      else y XOR (x OR NOT z))"

definition rfc_word :: "nat \<Rightarrow> nat" where
  "rfc_word i = (if i < 16 then i else if i < 32 then 5 * i + 1 else if i < 48 then 3 * i + 5 else 7 * i) mod 16"

definition rfc_rotation :: "nat \<Rightarrow> nat" where
  "rfc_rotation i = [[7, 12, 17, 22], [5, 9, 14, 20], [4, 11, 16, 23], [6, 10, 15, 21]] ! (i div 16) ! (i mod 4)"

definition rfc_sine :: "32 word list" where
  "rfc_sine = [
    0xD76AA478, 0xE8C7B756, 0x242070DB, 0xC1BDCEEE, 0xF57C0FAF, 0x4787C62A, 0xA8304613, 0xFD469501,
    0x698098D8, 0x8B44F7AF, 0xFFFF5BB1, 0x895CD7BE, 0x6B901122, 0xFD987193, 0xA679438E, 0x49B40821,
    0xF61E2562, 0xC040B340, 0x265E5A51, 0xE9B6C7AA, 0xD62F105D, 0x02441453, 0xD8A1E681, 0xE7D3FBC8,
    0x21E1CDE6, 0xC33707D6, 0xF4D50D87, 0x455A14ED, 0xA9E3E905, 0xFCEFA3F8, 0x676F02D9, 0x8D2A4C8A,
    0xFFFA3942, 0x8771F681, 0x6D9D6122, 0xFDE5380C, 0xA4BEEA44, 0x4BDECFA9, 0xF6BB4B60, 0xBEBFBC70,
    0x289B7EC6, 0xEAA127FA, 0xD4EF3085, 0x04881D05, 0xD9D4D039, 0xE6DB99E5, 0x1FA27CF8, 0xC4AC5665,
    0xF4292244, 0x432AFF97, 0xAB9423A7, 0xFC93A039, 0x655B59C3, 0x8F0CCC92, 0xFFEFF47D, 0x85845DD1,
    0x6FA87E4F, 0xFE2CE6E0, 0xA3014314, 0x4E0811A1, 0xF7537E82, 0xBD3AF235, 0x2AD7D2BB, 0xEB86D391]"

definition rfc_block_word :: "bytes \<Rightarrow> nat \<Rightarrow> 32 word" where
  "rfc_block_word M k = foldr (\<lambda>b n. ucast b + n * 256) (take 4 (drop (4 * k) M)) 0"

text \<open>A step computes a new second variable and moves the others on.\<close>

definition rfc_step :: "(nat \<Rightarrow> 32 word) \<Rightarrow> nat \<Rightarrow> md5_vars \<Rightarrow> md5_vars" where
  "rfc_step X i = (\<lambda>(a, b, c, d).
     (d, b + word_rotl (rfc_rotation i) (a + rfc_function i b c d + X (rfc_word i) + rfc_sine ! i), b, c))"

definition rfc_compress :: "32 word list \<Rightarrow> bytes \<Rightarrow> 32 word list" where
  "rfc_compress H M = (case fold (rfc_step (rfc_block_word M)) [0..<64] (H ! 0, H ! 1, H ! 2, H ! 3) of
     (a, b, c, d) \<Rightarrow> map2 (+) H [a, b, c, d])"

definition rfc_md5 :: "bytes \<Rightarrow> bytes" where
  "rfc_md5 m = concat (map (\<lambda>w. little_endian 4 (unat w))
     (foldl rfc_compress [0x67452301, 0xEFCDAB89, 0x98BADCFE, 0x10325476] (chunks (std_pad (little_endian 8) m))))"

text \<open>A digest in lower-case hexadecimal digits.\<close>

definition hex_string :: "bytes \<Rightarrow> string" where
  "hex_string bs = concat (map (\<lambda>b. [''0123456789abcdef'' ! (unat b div 16), ''0123456789abcdef'' ! (unat b mod 16)]) bs)"

subsection \<open>The block function\<close>

lemma md5_S:
  assumes "0 < n" "n < 32"
  shows "md5_S x n = word_rotl n x"
proof -
  have "(0xFFFFFFFF :: 32 word) = mask 32" by (simp add: mask_eq_exp_minus_1)
  then have m: "x AND 0xFFFFFFFF = x" by (simp only: take_bit_eq_mask [symmetric]) (simp add: take_bit_word_eq_self)
  show ?thesis
  proof (rule bit_word_eqI)
    fix i assume i: "i < LENGTH(32)"
    have "(i + (32 - n)) mod 32 = (if i < n then 32 + i - n else i - n)"
      using i assms by (auto simp: mod_if)
    then show "bit (md5_S x n) i = bit (word_rotl n x) i"
      using i assms by (auto simp: md5_S_def m bit_simps bit_word_rotl_iff dest: bit_imp_le_length)
  qed
qed

lemma md5_functions:
  "md5_F1 = (\<lambda>x y z. (x AND y) OR (NOT x AND z))" "md5_F2 = (\<lambda>x y z. (x AND z) OR (y AND NOT z))"
  by (auto intro!: ext bit_word_eqI simp: md5_F1_def md5_F2_def bit_simps)

text \<open>The entries of a group are the parameters of four steps of the RFC.\<close>

definition quarter_ok :: "(32 word \<Rightarrow> 32 word \<Rightarrow> 32 word \<Rightarrow> 32 word) \<Rightarrow> nat \<Rightarrow> (nat \<times> nat \<times> 32 word) list \<Rightarrow> bool" where
  "quarter_ok F i p \<longleftrightarrow> list_all (\<lambda>j. rfc_function (i + j) = F \<and>
     p ! j = (rfc_word (i + j), rfc_rotation (i + j), rfc_sine ! (i + j)) \<and>
     0 < rfc_rotation (i + j) \<and> rfc_rotation (i + j) < 32) [0, 1, 2, 3]"

fun quarters_ok ::
  "(32 word \<Rightarrow> 32 word \<Rightarrow> 32 word \<Rightarrow> 32 word) \<Rightarrow> nat \<Rightarrow> (nat \<times> nat \<times> 32 word) list list \<Rightarrow> bool" where
  "quarters_ok F i [] = True"
| "quarters_ok F i (p # ps) = (quarter_ok F i p \<and> quarters_ok F (i + 4) ps)"

lemma md5_quarter:
  assumes "quarter_ok F i p"
  shows "md5_quarter F X p v = fold (rfc_step X) [i, i + 1, i + 2, i + 3] v"
  using assms
  by (cases v) (simp add: quarter_ok_def md5_quarter_def rfc_step_def md5_P_def Let_def md5_S
    del: One_nat_def; simp only: add.assoc add.commute add.left_commute)

lemma md5_quarters:
  "quarters_ok F i ps \<Longrightarrow> fold (md5_quarter F X) ps v = fold (rfc_step X) [i..<i + 4 * length ps] v"
proof (induction ps arbitrary: i v)
  case (Cons p ps)
  have "[i..<i + 4 * length (p # ps)] = [i, i + 1, i + 2, i + 3] @ [i + 4..<i + 4 + 4 * length ps]"
    using upt_add_eq_append [of i "i + 4" "4 * length ps"] by (simp add: add.assoc upt_rec [of _ "i + 4"])
  moreover have "quarter_ok F i p" "quarters_ok F (i + 4) ps" using Cons.prems by simp_all
  ultimately show ?case by (simp only: fold_append fold_simps comp_apply Cons.IH md5_quarter)
qed simp

lemma md5_rounds:
  "md5_round1 X v = fold (rfc_step X) [0..<16] v"
  "md5_round2 X v = fold (rfc_step X) [16..<32] v"
  "md5_round3 X v = fold (rfc_step X) [32..<48] v"
  "md5_round4 X v = fold (rfc_step X) [48..<64] v"
proof -
  note ok = quarter_ok_def rfc_function_def rfc_word_def rfc_rotation_def rfc_sine_def md5_functions md5_F3_def md5_F4_def fun_eq_iff
  show "md5_round1 X v = fold (rfc_step X) [0..<16] v"
    unfolding md5_round1_def by (subst md5_quarters [where i = 0]) (simp_all add: ok)
  show "md5_round2 X v = fold (rfc_step X) [16..<32] v"
    unfolding md5_round2_def by (subst md5_quarters [where i = 16]) (simp_all add: ok)
  show "md5_round3 X v = fold (rfc_step X) [32..<48] v"
    unfolding md5_round3_def by (subst md5_quarters [where i = 32]) (simp_all add: ok)
  show "md5_round4 X v = fold (rfc_step X) [48..<64] v"
    unfolding md5_round4_def by (subst md5_quarters [where i = 48]) (simp_all add: ok)
qed

lemma get_uint32_le:
  assumes "4 * k + 4 \<le> length data"
  shows "get_uint32_le data (4 * k) = rfc_block_word data k"
proof -
  have "take 4 (drop (4 * k) data) = [data ! (4 * k), data ! (4 * k + 1), data ! (4 * k + 2), data ! (4 * k + 3)]"
    using assms by (auto intro!: nth_equalityI simp: less_Suc_eq numeral_eq_Suc)
  moreover have "get_uint32_le data (4 * k) = push_bit 24 (ucast (data ! (4 * k + 3))) OR push_bit 16 (ucast (data ! (4 * k + 2)))
     OR push_bit 8 (ucast (data ! (4 * k + 1))) OR ucast (data ! (4 * k))"
    by (simp only: get_uint32_le_def or.assoc or.commute or.left_commute)
  ultimately show ?thesis
    by (simp only: word_of_bytes [symmetric] rfc_block_word_def) (simp add: algebra_simps)
qed

lemma rfc_word_bound: "rfc_word i < 16"
  by (simp add: rfc_word_def)

lemma md5_process:
  assumes "length H = 4" "length data = 64"
  shows "utils_md5_process H data = rfc_compress H data"
proof -
  let ?X = "\<lambda>i. get_uint32_le data (4 * i)" and ?v = "(H ! 0, H ! 1, H ! 2, H ! 3)"
  have step: "rfc_step ?X i = rfc_step (rfc_block_word data) i" for i
    using rfc_word_bound [of i] assms(2) by (simp add: rfc_step_def get_uint32_le)
  have "md5_round4 ?X (md5_round3 ?X (md5_round2 ?X (md5_round1 ?X ?v))) =
    fold (rfc_step ?X) ([0..<16] @ [16..<32] @ [32..<48] @ [48..<64]) ?v"
    by (simp only: md5_rounds fold_append comp_apply)
  also have "[0..<16] @ [16..<32] @ [32..<48] @ [48..<64] = [0..<64]"
    by code_simp
  finally have r: "md5_round4 ?X (md5_round3 ?X (md5_round2 ?X (md5_round1 ?X ?v))) =
    fold (rfc_step (rfc_block_word data)) [0..<64] ?v"
    by (simp only: step)
  have "map2 (+) H [a, b, c, d] = [H ! 0 + a, H ! 1 + b, H ! 2 + c, H ! 3 + d]" for a b c d
    using assms(1) by (cases H; cases "tl H"; cases "tl (tl H)"; cases "tl (tl (tl H))") auto
  moreover obtain a b c d where "fold (rfc_step (rfc_block_word data)) [0..<64] ?v = (a, b, c, d)" by (metis surj_pair)
  ultimately show ?thesis by (simp only: utils_md5_process_def rfc_compress_def Let_def r prod.case)
qed

lemma length_rfc_compress: "length H = 4 \<Longrightarrow> length (rfc_compress H M) = 4"
  by (simp add: rfc_compress_def split: prod.split)

lemma md5_blocks:
  assumes "length H = 4"
  shows "foldl utils_md5_process H (chunks m) = foldl rfc_compress H (chunks m)"
proof (rule foldl_block_cong [where n = 4])
  show "utils_md5_process s x = rfc_compress s x" if "length s = 4" "x \<in> set (chunks m)" for s x
    using that by (intro md5_process) (auto simp: chunks_def)
qed (simp_all add: assms length_rfc_compress)

lemma length_md5_blocks: "length H = 4 \<Longrightarrow> length (foldl rfc_compress H bs) = 4"
  by (induction bs arbitrary: H) (simp_all add: length_rfc_compress)

subsection \<open>Contexts\<close>

definition md5_holds :: "md5_context \<Rightarrow> bytes \<Rightarrow> bool" where
  "md5_holds ctx m = absorbed utils_md5_process md5_iv ctx m"

lemma md5_starts: "md5_holds (utils_md5_starts utils_md5_init) []"
  by (simp add: md5_holds_def absorbed_def utils_md5_starts_def utils_md5_init_def blocks_loop.simps [of _ _ "[]"])

lemma md5_update:
  assumes "md5_holds c m" "length x < 2 ^ 32"
  shows "\<exists>c'. utils_md5_update c x = Some c' \<and> md5_holds c' (m @ x)"
  using update_absorbs [of utils_md5_process md5_iv c m x] assms
  by (auto simp: md5_holds_def utils_md5_update_def)

lemma put_le_bytes: "put_uint32_le w = map (\<lambda>i. ucast (drop_bit (8 * i) w)) [0..<4]"
proof -
  have "ucast (v AND 0xFF) = (ucast v :: byte)" for v :: "32 word"
  proof -
    have "(0xFF :: 32 word) = mask 8" by (simp add: mask_eq_exp_minus_1)
    then have "v AND 0xFF = take_bit 8 v" by (simp only: take_bit_eq_mask)
    then show ?thesis by (intro bit_word_eqI) (auto simp: bit_simps)
  qed
  then show ?thesis by (simp add: put_uint32_le_def upt_rec)
qed

lemma put_uint32_le: "put_uint32_le w = little_endian 4 (unat w)"
  by (simp add: put_le_bytes little_endian_def byte_of_word)

lemma put_uint32_le_of_nat: "put_uint32_le (word_of_nat k) = little_endian 4 k"
  by (simp add: put_le_bytes little_endian_def byte_of_word_of_nat)

lemma md5_finish:
  assumes h: "md5_holds c m" and m: "length m < 2 ^ 61"
  shows "\<exists>c'. utils_md5_finish c = Some (rfc_md5 m, c')"
proof -
  let ?put = "\<lambda>high low. put_uint32_le low @ put_uint32_le high"
  let ?H = "foldl rfc_compress md5_iv (chunks (std_pad (little_endian 8) m))"
  have a: "absorbed utils_md5_process md5_iv c m" using h by (simp add: md5_holds_def)
  have put: "?put (word_of_nat (8 * length m div 2 ^ 32)) (word_of_nat (8 * length m)) = little_endian 8 (8 * length m)"
    by (simp only: put_uint32_le_of_nat endian_append)
  have iv: "length md5_iv = 4" by (simp add: md5_iv_def)
  obtain c' where c': "hash_pad utils_md5_process ?put c = Some c'" "hash_state c' = ?H"
    using pad_absorbs [where put_length = ?put and lb = "little_endian 8", OF a m put length_endian(2)]
    by (auto simp: md5_blocks [OF iv])
  have "?H = [?H ! 0, ?H ! 1, ?H ! 2, ?H ! 3]"
    using length_md5_blocks [OF iv] by (auto intro!: nth_equalityI simp: less_Suc_eq numeral_eq_Suc)
  then have "rfc_md5 m = concat (map (\<lambda>w. little_endian 4 (unat w)) [?H ! 0, ?H ! 1, ?H ! 2, ?H ! 3])"
    unfolding rfc_md5_def md5_iv_def by (rule arg_cong)
  moreover have "utils_md5_finish c = Some (concat (map (\<lambda>w. little_endian 4 (unat w)) [?H ! 0, ?H ! 1, ?H ! 2, ?H ! 3]), c')"
    unfolding utils_md5_finish_def c' Option.bind.simps by (simp add: put_uint32_le c')
  ultimately show ?thesis by simp
qed

text \<open>The hexadecimal digits as bytes of a C string.\<close>

lemma hex_digit: "utils_hb2hex b = of_char (''0123456789abcdef'' ! (unat b mod 16))"
proof -
  have "unat (b AND 0xF) = unat b mod 16"
  proof -
    have "(0xF :: byte) = mask 4" by (simp add: mask_eq_exp_minus_1)
    then have "unat (b AND 0xF) = unat (take_bit 4 b)" by (simp only: take_bit_eq_mask)
    also have "\<dots> = take_bit 4 (unat b)" by (rule unsigned_take_bit_eq)
    finally show ?thesis by (simp add: take_bit_eq_mod)
  qed
  moreover have "list_all (\<lambda>n. (let hb = word_of_nat n in if hb < 10 then 0x30 + hb else hb - 10 + 0x61 :: byte) =
    of_char (''0123456789abcdef'' ! n)) [0..<16]"
    by code_simp
  moreover have "b AND 0xF = word_of_nat (unat (b AND 0xF))" by simp
  ultimately show ?thesis by (simp only: utils_hb2hex_def list_all_iff) (metis (no_types, lifting) atLeastLessThan_upt
    atLeastLessThan_iff mod_less_divisor zero_le zero_less_numeral)
qed

lemma high_digit: "unat (drop_bit 4 (b :: byte)) mod 16 = unat b div 16"
proof -
  have "unat (drop_bit 4 b) = unat b div 16" by (simp add: drop_bit_eq_div unat_div_distrib)
  moreover have "unat b < 256" using unsigned_less [of b, where ?'a = nat] by simp
  ultimately show ?thesis by simp
qed

lemma length_rfc_md5 [simp]: "length (rfc_md5 m) = 16"
  by (simp add: rfc_md5_def length_concat comp_def sum_list_triv length_md5_blocks)

lemma md5_finish_hb2hex:
  assumes "md5_holds c m" "length m < 2 ^ 61"
  shows "\<exists>c'. utils_md5_finish_hb2hex c = Some (map of_char (hex_string (rfc_md5 m)) @ [0], c')"
proof -
  have "concat (map (\<lambda>i. [utils_hb2hex (drop_bit 4 (rfc_md5 m ! i)), utils_hb2hex (rfc_md5 m ! i)]) [0..<16]) =
    concat (map (\<lambda>b. [utils_hb2hex (drop_bit 4 b), utils_hb2hex b]) (map ((!) (rfc_md5 m)) [0..<length (rfc_md5 m)]))"
    by (simp only: length_rfc_md5 map_map comp_def)
  also have "\<dots> = map of_char (hex_string (rfc_md5 m))"
    by (simp only: map_nth hex_digit high_digit hex_string_def map_concat map_map comp_def list.map)
  finally show ?thesis
    using md5_finish [OF assms] by (auto simp: utils_md5_finish_hb2hex_def)
qed

interpretation md5: digest_stream "utils_md5_starts utils_md5_init" utils_md5_update
  "\<lambda>c. map_option fst (utils_md5_finish_hb2hex c)" md5_holds "\<lambda>m. map of_char (hex_string (rfc_md5 m)) @ [0]"
proof
  show "map_option fst (utils_md5_finish_hb2hex c) = Some (map of_char (hex_string (rfc_md5 m)) @ [0])"
    if "md5_holds c m" "length m < 2 ^ 61" for c m
    using md5_finish_hb2hex [OF that] by auto
qed (simp_all only: md5_starts md5_update)

text \<open>
  C35: Firmware check sum: bytes that reach an MD5 context in any pieces, as a download delivers them,
  end in the 32 lower-case hexadecimal digits of the MD5 digest of RFC 1321 of the whole, with the
  terminator of a C string.
\<close>

theorem md5_of_pieces:
  assumes "\<forall>x\<in>set pieces. length x < 2 ^ 32" "length (concat pieces) < 2 ^ 61"
  shows "Option.bind (feed utils_md5_update (utils_md5_starts utils_md5_init) pieces)
      (\<lambda>c. map_option fst (utils_md5_finish_hb2hex c)) =
    Some (map of_char (hex_string (rfc_md5 (concat pieces))) @ [0])"
  by (rule md5.pieces [OF assms])

theorem md5_of_pieces_witness:
  "Option.bind (feed utils_md5_update (utils_md5_starts utils_md5_init) [[0x61], [], [0x62, 0x63]])
      (\<lambda>c. map_option fst (utils_md5_finish_hb2hex c)) =
    Some (map of_char (hex_string (rfc_md5 [0x61, 0x62, 0x63])) @ [0])"
  using md5_of_pieces [of "[[0x61], [], [0x62, 0x63]]"] by simp

end
