(* ===== verification/Json_Parser.thy ===== *)
theory Json_Parser
  imports Prelude
begin

text \<open>
  The JSON reader (\<^verbatim>\<open>src/utils/json_parser.c\<close> and the \<open>*_for_each_*\<close> macros of
  \<^verbatim>\<open>src/utils/json_parser.h\<close>).

  A \<open>char *\<close> into the text is a position in the array that holds it, a NULL pointer is \<open>None\<close>.  Every
  character is read with a bounds check, so a scan that leaves the array has no result.  The code
  knows the end of its text by the NUL alone.  Lengths and the depth of nesting are natural numbers
  here and of type \<open>int\<close> in the code; they are the same for every text of less than 2^31 bytes.
\<close>

datatype json_type = JSNONE | JSSTRING | JSOBJECT | JSARRAY | JSNUMBER | JSBOOLEAN | JSNULL
datatype json_parse_code = JSON_PARSE_ERR | JSON_PARSE_OK | JSON_PARSE_FINISH

abbreviation (input) JSON_RESULT_ERR :: int where "JSON_RESULT_ERR \<equiv> -1"
abbreviation (input) JSON_RESULT_OK :: int where "JSON_RESULT_OK \<equiv> 0"

text \<open>A C string literal.\<close>

definition lit :: "string \<Rightarrow> bytes" where
  "lit s = map of_char s"

subsection \<open>\<open>strlen\<close>, \<open>strchr\<close>, \<open>strncmp\<close> on an array\<close>

text \<open>A read succeeds only inside the array, so a scan upwards ends.\<close>

lemma arr_get_Some [simp]: "arr_get a i = Some x \<longleftrightarrow> i < length a \<and> x = a ! i"
  by (auto simp: arr_get_def)

function strlen_at :: "bytes \<Rightarrow> nat \<Rightarrow> nat option" where
  "strlen_at mem i = (case arr_get mem i of
     None \<Rightarrow> None
   | Some c \<Rightarrow> if c = 0 then Some 0 else map_option Suc (strlen_at mem (Suc i)))"
  by pat_completeness auto
termination by (relation "measure (\<lambda>(mem, i). length mem - i)") auto

function strchr_at :: "bytes \<Rightarrow> nat \<Rightarrow> byte \<Rightarrow> nat option option" where
  "strchr_at mem i ch = (case arr_get mem i of
     None \<Rightarrow> None
   | Some c \<Rightarrow> if c = ch then Some (Some i) else if c = 0 then Some None else strchr_at mem (Suc i) ch)"
  by pat_completeness auto
termination by (relation "measure (\<lambda>(mem, i, _). length mem - i)") auto

declare strlen_at.simps [simp del] strchr_at.simps [simp del]

text \<open>\<open>!strncmp(p, s, strlen(s))\<close>: the characters of \<open>s\<close>, none of them NUL, at \<open>p\<close>.\<close>

fun strncmp_eq :: "bytes \<Rightarrow> nat \<Rightarrow> bytes \<Rightarrow> bool option" where
  "strncmp_eq mem i [] = Some True"
| "strncmp_eq mem i (c # cs) = (case arr_get mem i of
     None \<Rightarrow> None
   | Some b \<Rightarrow> if b = c then strncmp_eq mem (Suc i) cs else Some False)"

subsection \<open>\<open>json_get_object\<close>\<close>

function json_get_object :: "json_type \<Rightarrow> bytes \<Rightarrow> nat \<Rightarrow> nat option option" where
  "json_get_object type mem str = (case arr_get mem str of
     None \<Rightarrow> None
   | Some c \<Rightarrow>
       if c = 0 then Some None
       else if c = 0x20 then json_get_object type mem (Suc str)
       else Some (if c = (if type = JSOBJECT then 0x7B else 0x5B) then Some str else None))"
  by pat_completeness auto
termination by (relation "measure (\<lambda>(_, mem, str). length mem - str)") auto

declare json_get_object.simps [simp del]

subsection \<open>\<open>json_get_next_object\<close>\<close>

text \<open>The outputs of the function; a NULL \<open>next\<close> ends the iteration.\<close>

record json_item =
  item_next :: "nat option"
  item_key :: "nat option"
  item_klen :: nat
  item_val :: "nat option"
  item_vlen :: nat
  item_type :: json_type

definition is_digit :: "byte \<Rightarrow> bool" where
  "is_digit c \<longleftrightarrow> 0x30 \<le> c \<and> c \<le> 0x39"

text \<open>The first loop: the type and the position of the value, and where the scan goes on.\<close>

function find_value :: "bytes \<Rightarrow> nat \<Rightarrow> (json_type \<times> nat option \<times> nat) option" where
  "find_value mem pos = (case arr_get mem pos of
     None \<Rightarrow> None
   | Some c \<Rightarrow>
       if c = 0 then Some (JSNONE, None, pos)
       else if c = 0x22 then Some (JSSTRING, Some (pos + 1), pos + 1)
       else if c = 0x7B then Some (JSOBJECT, Some pos, pos + 1)
       else if c = 0x5B then Some (JSARRAY, Some pos, pos + 1)
       else if c = 0x2D \<or> is_digit c then Some (JSNUMBER, Some pos, pos + 1)
       else if c = 0x74 \<or> c = 0x54 \<or> c = 0x66 \<or> c = 0x46 then Some (JSBOOLEAN, Some pos, pos)
       else if c = 0x6E \<or> c = 0x4E then Some (JSNULL, Some pos, pos)
       else find_value mem (pos + 1))"
  by pat_completeness auto
termination by (relation "measure (\<lambda>(mem, pos). length mem - pos)") auto

declare find_value.simps [simp del]

definition strncmp_either :: "bytes \<Rightarrow> nat \<Rightarrow> bytes \<Rightarrow> bytes \<Rightarrow> bool option" where
  "strncmp_either mem i s1 s2 = do { b \<leftarrow> strncmp_eq mem i s1; if b then Some True else strncmp_eq mem i s2 }"

text \<open>The test for a boolean and for a null at the value: its length, 0 when it is neither.\<close>

definition boolean_length :: "bytes \<Rightarrow> nat \<Rightarrow> nat option" where
  "boolean_length mem v = do {
     len \<leftarrow> strlen_at mem v;
     c \<leftarrow> arr_get mem v;
     t \<leftarrow> (if (c = 0x74 \<or> c = 0x54) \<and> len \<ge> 4 then strncmp_either mem v (lit ''true'') (lit ''TRUE'') else Some False);
     if t then Some 4
     else do {
       f \<leftarrow> (if (c = 0x66 \<or> c = 0x46) \<and> len \<ge> 5 then strncmp_either mem v (lit ''false'') (lit ''FALSE'') else Some False);
       Some (if f then 5 else 0) } }"

definition null_length :: "bytes \<Rightarrow> nat \<Rightarrow> nat option" where
  "null_length mem v = do {
     nlen \<leftarrow> strlen_at mem v;
     c \<leftarrow> arr_get mem v;
     b \<leftarrow> (if (c = 0x6E \<or> c = 0x4E) \<and> nlen \<ge> 4 then strncmp_either mem v (lit ''null'') (lit ''NULL'') else Some False);
     Some (if b then 4 else 0) }"

fun mark_open :: "json_type \<Rightarrow> byte" where
  "mark_open JSSTRING = 0x22" | "mark_open JSOBJECT = 0x7B" | "mark_open JSARRAY = 0x5B"
| "mark_open JSNUMBER = 0x30" | "mark_open _ = 0"

fun mark_close :: "json_type \<Rightarrow> byte" where
  "mark_close JSSTRING = 0x22" | "mark_close JSOBJECT = 0x7D" | "mark_close JSARRAY = 0x5D"
| "mark_close JSNUMBER = 0x20" | "mark_close _ = 0"

text \<open>The second loop: the length of the value, 0 when the text ends first.\<close>

function value_length :: "bytes \<Rightarrow> json_type \<Rightarrow> nat \<Rightarrow> nat \<Rightarrow> nat \<Rightarrow> nat option" where
  "value_length mem type v pos depth = (case arr_get mem pos of
     None \<Rightarrow> None
   | Some c \<Rightarrow>
       if c = 0 \<or> type = JSNONE then Some 0
       else if type = JSBOOLEAN then
         (case boolean_length mem v of
            None \<Rightarrow> None
          | Some len \<Rightarrow> if len \<noteq> 0 then Some len else value_length mem type v (pos + 1) depth)
       else if type = JSNULL then
         (case null_length mem v of
            None \<Rightarrow> None
          | Some len \<Rightarrow> if len \<noteq> 0 then Some len else value_length mem type v (pos + 1) depth)
       else if type = JSNUMBER then
         (if \<not> is_digit c \<and> c \<noteq> 0x2E then Some (pos - v) else value_length mem type v (pos + 1) depth)
       else if c = mark_close type then
         (if depth = 0 then Some (pos - v + (if type = JSSTRING then 0 else 1))
          else value_length mem type v (pos + 1) (depth - 1))
       else if c = mark_open type then value_length mem type v (pos + 1) (depth + 1)
       else value_length mem type v (pos + 1) depth)"
  by pat_completeness auto
termination by (relation "measure (\<lambda>(mem, _, _, pos, _). length mem - pos)") auto

declare value_length.simps [simp del]

text \<open>The value from a position on, and the outputs; a NULL position skips both loops.\<close>

definition json_get_value ::
  "bytes \<Rightarrow> nat option \<Rightarrow> nat option \<times> nat \<Rightarrow> json_item option" where
  "json_get_value mem pos key = do {
     (type, v, pos') \<leftarrow> (case pos of None \<Rightarrow> Some (JSNONE, None, 0) | Some p \<Rightarrow> find_value mem p);
     len \<leftarrow> (case v of None \<Rightarrow> Some 0 | Some v \<Rightarrow> value_length mem type v pos' 0);
     Some \<lparr>item_next = map_option (\<lambda>v. v + len + (if type = JSSTRING then 1 else 0)) v,
           item_key = fst key, item_klen = snd key, item_val = v, item_vlen = len, item_type = type\<rparr> }"

text \<open>The result \<open>Some None\<close> is the early \<open>return 0\<close>, which leaves the outputs alone.\<close>

definition json_get_next_object :: "json_type \<Rightarrow> bytes \<Rightarrow> nat \<Rightarrow> json_item option option" where
  "json_get_next_object type mem str =
     (if type = JSOBJECT then do {
        quote \<leftarrow> strchr_at mem str 0x22;
        case quote of None \<Rightarrow> Some None
        | Some q \<Rightarrow> do {
            let name = q + 1;
            quote \<leftarrow> strchr_at mem name 0x22;
            case quote of None \<Rightarrow> Some None
            | Some q \<Rightarrow> do {
                colon \<leftarrow> strchr_at mem q 0x3A;
                map_option Some (json_get_value mem colon (Some name, q - name)) } } }
      else map_option Some (json_get_value mem (Some str) (None, 0)))"

subsection \<open>Where the scans end\<close>

lemma strchr_at_Some:
  "strchr_at mem i ch = Some (Some j) \<Longrightarrow> i \<le> j \<and> j < length mem \<and> mem ! j = ch"
proof (induction mem i ch rule: strchr_at.induct)
  case (1 mem i ch)
  show ?case
  proof (cases "i < length mem \<and> mem ! i \<noteq> ch \<and> mem ! i \<noteq> 0")
    case True
    with 1 have "Suc i \<le> j \<and> j < length mem \<and> mem ! j = ch" by (simp add: strchr_at.simps [of mem i] arr_get_def)
    then show ?thesis by simp
  next
    case False
    with "1.prems" show ?thesis by (auto simp: strchr_at.simps [of mem i] arr_get_def split: if_splits)
  qed
qed

lemma find_value_Some:
  "find_value mem i = Some (type, v, q) \<Longrightarrow> i \<le> q \<and> (\<forall>p. v = Some p \<longrightarrow> i \<le> p \<and> p \<le> q)"
proof (induction mem i rule: find_value.induct)
  case (1 mem i)
  have IH: "i \<le> q \<and> (\<forall>p. v = Some p \<longrightarrow> i \<le> p \<and> p \<le> q)"
    if rest: "find_value mem (Suc i) = Some (type, v, q)" and c: "i < length mem"
      "mem ! i \<notin> {0, 0x22, 0x7B, 0x5B, 0x2D, 0x74, 0x54, 0x66, 0x46, 0x6E, 0x4E}" "\<not> is_digit (mem ! i)"
  proof -
    have "Suc i \<le> q \<and> (\<forall>p. v = Some p \<longrightarrow> Suc i \<le> p \<and> p \<le> q)"
      using "1.IH" [of "mem ! i"] rest c by (simp add: arr_get_def)
    then show ?thesis by auto
  qed
  from "1.prems" have "i < length mem" by (simp add: find_value.simps [of mem i] arr_get_def split: if_splits)
  with "1.prems" show ?case
    unfolding find_value.simps [of mem i] arr_get_def if_P [OF \<open>i < length mem\<close>] option.case
    by (cases v) (auto split: if_splits dest: IH simp: IH)
qed

text \<open>Every item of an object lies after the position the search for it started from.\<close>

lemma json_next_after:
  assumes "json_get_next_object JSOBJECT mem pos = Some (Some item)" "item_next item = Some p"
  shows "pos < p"
proof -
  obtain q q' colon where q: "strchr_at mem pos 0x22 = Some (Some q)" "strchr_at mem (q + 1) 0x22 = Some (Some q')"
    "strchr_at mem q' 0x3A = Some colon" "json_get_value mem colon (Some (q + 1), q' - (q + 1)) = Some item"
    using assms(1) by (auto simp: json_get_next_object_def Let_def bind_eq_Some_conv split: option.splits)
  then have le: "pos \<le> q" "q < q'" using strchr_at_Some [OF q(1)] strchr_at_Some [OF q(2)] by simp_all
  obtain c where c: "colon = Some c" using q(4) assms(2) by (cases colon) (auto simp: json_get_value_def)
  then have "q' \<le> c" using q(3) strchr_at_Some by blast
  moreover have "c \<le> p"
    using q(4) assms(2) unfolding c json_get_value_def
    by (auto simp: bind_eq_Some_conv split: option.splits dest!: find_value_Some)
  ultimately show ?thesis using le by simp
qed

subsection \<open>\<open>json_parse_name_value\<close>\<close>

type_synonym 's json_parse_cb = "bytes \<Rightarrow> json_item \<Rightarrow> 's \<Rightarrow> (json_parse_code \<times> 's) option"

text \<open>\<open>json_object_for_each_kv\<close> with the body of the parser, from a position that is not NULL.\<close>

function json_for_each_kv :: "bytes \<Rightarrow> 's json_parse_cb \<Rightarrow> nat \<Rightarrow> int \<Rightarrow> 's \<Rightarrow> (int \<times> 's) option" where
  "json_for_each_kv mem pfnCB pos ret s = (case arr_get mem pos of
     None \<Rightarrow> None
   | Some c \<Rightarrow>
       if c = 0 then Some (ret, s)
       else (case json_get_next_object JSOBJECT mem pos of
         None \<Rightarrow> None
       | Some None \<Rightarrow> Some (ret, s)
       | Some (Some item) \<Rightarrow> (case item_next item of
           None \<Rightarrow> Some (ret, s)
         | Some p \<Rightarrow>
             if item_key item \<noteq> None \<and> item_klen item \<noteq> 0 \<and> item_val item \<noteq> None \<and> item_vlen item \<noteq> 0
             then (case pfnCB mem item s of
                 None \<Rightarrow> None
               | Some (code, s) \<Rightarrow>
                   if code = JSON_PARSE_FINISH then Some (JSON_RESULT_OK, s)
                   else json_for_each_kv mem pfnCB p JSON_RESULT_OK s)
             else json_for_each_kv mem pfnCB p ret s)))"
  by pat_completeness auto
termination
  by (relation "measure (\<lambda>(mem, _, pos, _, _). length mem - pos)") (auto dest!: json_next_after)

declare json_for_each_kv.simps [simp del]

text \<open>
  The result code, the text afterwards and the data of the callback.  The character after the
  given length is replaced by NUL and put back under the condition, tested again, that the length
  differs from \<open>strlen\<close>.
\<close>

definition json_parse_name_value ::
  "bytes \<Rightarrow> nat option \<Rightarrow> nat \<Rightarrow> 's json_parse_cb option \<Rightarrow> 's \<Rightarrow> (int \<times> bytes \<times> 's) option" where
  "json_parse_name_value mem p_cJsonStr iStrLen pfnCB s = (case (p_cJsonStr, pfnCB) of
     (Some str, Some cb) \<Rightarrow>
       if iStrLen = 0 then Some (JSON_RESULT_ERR, mem, s)
       else do {
         len \<leftarrow> strlen_at mem str;
         (mem, last_char) \<leftarrow> (if iStrLen \<noteq> len then do {
             last_char \<leftarrow> arr_get mem (str + iStrLen);
             mem \<leftarrow> arr_set mem (str + iStrLen) 0;
             Some (mem, last_char) }
           else Some (mem, 0));
         object \<leftarrow> json_get_object JSOBJECT mem str;
         (ret, s) \<leftarrow> (case object of
             None \<Rightarrow> Some (JSON_RESULT_ERR, s)
           | Some pos \<Rightarrow> json_for_each_kv mem cb pos JSON_RESULT_ERR s);
         len \<leftarrow> strlen_at mem str;
         mem \<leftarrow> (if iStrLen \<noteq> len then arr_set mem (str + iStrLen) last_char else Some mem);
         Some (ret, mem, s) }
   | _ \<Rightarrow> Some (JSON_RESULT_ERR, mem, s))"

subsection \<open>\<open>json_get_value_by_name\<close>\<close>

record JSON_NV =
  pN :: bytes
  vLen :: nat
  vType :: json_type
  pV :: "nat option"

definition json_get_value_by_name_cb :: "JSON_NV json_parse_cb" where
  "json_get_value_by_name_cb mem item nv = do {
     k \<leftarrow> item_key item;
     same \<leftarrow> strncmp_eq mem k (pN nv);
     Some (if same
           then (JSON_PARSE_FINISH, nv\<lparr>pV := item_val item, vLen := item_vlen item, vType := item_type item\<rparr>)
           else (JSON_PARSE_OK, nv)) }"

text \<open>
  The last two arguments say whether the caller passes a pointer for the length and for the type;
  the results for them are \<open>None\<close> when nothing is written.
\<close>

definition json_get_value_by_name ::
  "bytes \<Rightarrow> nat \<Rightarrow> nat \<Rightarrow> bytes \<Rightarrow> bool \<Rightarrow> bool \<Rightarrow>
    (nat option \<times> nat option \<times> json_type option \<times> bytes) option" where
  "json_get_value_by_name mem p_cJsonStr iStrLen p_cName len_given type_given = do {
     let stNV = \<lparr>pN = p_cName, vLen = 0, vType = JSSTRING, pV = None\<rparr>;
     (ret, mem, stNV) \<leftarrow> json_parse_name_value mem (Some p_cJsonStr) iStrLen (Some json_get_value_by_name_cb) stNV;
     Some (if ret = JSON_RESULT_OK
           then (if type_given \<and> vType stNV = JSNULL then None else pV stNV,
                 if len_given then Some (vLen stNV) else None,
                 if type_given then Some (vType stNV) else None, mem)
           else (pV stNV, None, None, mem)) }"

end
