(* ===== verification/Json_Props.thy ===== *)
theory Json_Props
  imports Json_Parser
begin

text \<open>
  What the JSON reader does on the texts it is meant for.  A value of type \<open>json\<close> is printed without
  blanks; it is \<open>readable\<close> when its strings and keys keep clear of the characters the reader counts
  inside them (it knows no escapes), and its numbers are digits, a sign and points.
\<close>

datatype json = JString bytes | JNumber bytes | JBool bool | JNull
  | JObject "(bytes \<times> json) list" | JArray "json list"

fun commas :: "bytes list \<Rightarrow> bytes" where
  "commas [] = []"
| "commas [x] = x"
| "commas (x # xs) = x @ 0x2C # commas xs"

fun json_text :: "json \<Rightarrow> bytes" where
  "json_text (JString s) = 0x22 # s @ [0x22]"
| "json_text (JNumber n) = n"
| "json_text (JBool b) = lit (if b then ''true'' else ''false'')"
| "json_text JNull = lit ''null''"
| "json_text (JObject kvs) = 0x7B # commas (map (\<lambda>(k, v). 0x22 # k @ [0x22, 0x3A] @ json_text v) kvs) @ [0x7D]"
| "json_text (JArray vs) = 0x5B # commas (map json_text vs) @ [0x5D]"

definition plain_string :: "bytes \<Rightarrow> bool" where
  "plain_string s \<longleftrightarrow> set s \<inter> {0, 0x22, 0x7B, 0x7D, 0x5B, 0x5D} = {}"

fun readable :: "json \<Rightarrow> bool" where
  "readable (JString s) = plain_string s"
| "readable (JNumber n) = (n \<noteq> [] \<and> (hd n = 0x2D \<or> is_digit (hd n)) \<and> list_all (\<lambda>c. is_digit c \<or> c = 0x2E) (tl n))"
| "readable (JBool b) = True"
| "readable JNull = True"
| "readable (JObject kvs) = list_all (\<lambda>(k, v). plain_string k \<and> readable v) kvs"
| "readable (JArray vs) = list_all readable vs"

fun json_type_of :: "json \<Rightarrow> json_type" where
  "json_type_of (JString _) = JSSTRING" | "json_type_of (JNumber _) = JSNUMBER"
| "json_type_of (JBool _) = JSBOOLEAN" | "json_type_of JNull = JSNULL"
| "json_type_of (JObject _) = JSOBJECT" | "json_type_of (JArray _) = JSARRAY"

text \<open>What a reader gets for a value: the characters of a string, the text of anything else.\<close>

fun payload :: "json \<Rightarrow> bytes" where
  "payload (JString s) = s"
| "payload v = json_text v"

definition pair_text :: "bytes \<times> json \<Rightarrow> bytes" where
  "pair_text kv = 0x22 # fst kv @ [0x22, 0x3A] @ json_text (snd kv)"

lemma json_text_object: "json_text (JObject kvs) = 0x7B # commas (map pair_text kvs) @ [0x7D]"
  by (simp add: pair_text_def [abs_def] case_prod_unfold)

subsection \<open>Scans over a printed text\<close>

lemma arr_get_append [simp]: "arr_get (pre @ x # xs) (length pre) = Some x"
  by (simp add: arr_get_def)

lemma strchr_at_here [simp]: "strchr_at (pre @ ch # xs) (length pre) ch = Some (Some (length pre))"
  by (simp add: strchr_at.simps del: arr_get_Some)

lemma strchr_at_skip:
  "ch \<notin> set xs \<Longrightarrow> 0 \<notin> set xs \<Longrightarrow>
    strchr_at (pre @ xs @ ch # ys) (length pre) ch = Some (Some (length pre + length xs))"
proof (induction xs arbitrary: pre)
  case (Cons x xs)
  with Cons.IH [of "pre @ [x]"] show ?case
    by (auto simp: strchr_at.simps [of "pre @ x # _" "length pre"] simp del: arr_get_Some)
qed simp

text \<open>The nesting depth after a piece of text, if the mark that ends the value is not in it.\<close>

fun depth_after :: "json_type \<Rightarrow> bytes \<Rightarrow> nat \<Rightarrow> nat option" where
  "depth_after type [] d = Some d"
| "depth_after type (c # cs) d =
     (if c = 0 then None
      else if c = mark_close type then (if d = 0 then None else depth_after type cs (d - 1))
      else if c = mark_open type then depth_after type cs (d + 1)
      else depth_after type cs d)"

lemma depth_after_append [simp]:
  "depth_after type (xs @ ys) d = Option.bind (depth_after type xs d) (depth_after type ys)"
  by (induction xs arbitrary: d) simp_all

lemma value_length_skip:
  assumes "type \<in> {JSSTRING, JSOBJECT, JSARRAY}"
  shows "depth_after type xs d = Some d' \<Longrightarrow>
    value_length (pre @ xs @ ys) type v (length pre) d = value_length (pre @ xs @ ys) type v (length pre + length xs) d'"
proof (induction xs arbitrary: pre d)
  case (Cons x xs)
  with Cons.IH [of _ "pre @ [x]"] assms show ?case
    by (auto simp: value_length.simps [of "pre @ x # _" _ _ "length pre"] simp del: arr_get_Some split: if_splits)
qed simp

lemma plain_depth:
  assumes "type \<in> {JSSTRING, JSOBJECT, JSARRAY}"
  shows "plain_string s \<Longrightarrow> depth_after type s d = Some d"
  using assms by (induction s) (auto simp: plain_string_def)

lemma plain_lit:
  "plain_string (lit ''true'')" "plain_string (lit ''false'')" "plain_string (lit ''null'')"
  by (simp_all add: plain_string_def lit_def)

lemma plain_number: "readable (JNumber n) \<Longrightarrow> plain_string n"
  by (cases n) (auto simp: plain_string_def is_digit_def list_all_iff word_le_nat_alt)

lemma commas_depth:
  assumes "type \<in> {JSOBJECT, JSARRAY}"
  shows "\<forall>x\<in>set xs. \<forall>d. depth_after type x d = Some d \<Longrightarrow> depth_after type (commas xs) d = Some d"
  using assms by (induction xs rule: commas.induct) auto

text \<open>The braces and brackets of a printed value are balanced.\<close>

lemma readable_depth:
  assumes "type \<in> {JSOBJECT, JSARRAY}"
  shows "readable v \<Longrightarrow> depth_after type (json_text v) d = Some d"
proof (induction v arbitrary: d)
  case (JString s)
  then have "depth_after type s d = Some d" for d using assms by (intro plain_depth) auto
  with assms show ?case by auto
next
  case (JNumber n)
  then show ?case using assms plain_depth [OF _ plain_number] by auto
next
  case (JBool b)
  then show ?case using assms plain_depth plain_lit by auto
next
  case JNull
  then show ?case using assms plain_depth plain_lit by auto
next
  case (JObject kvs)
  have "depth_after type (pair_text kv) d = Some d" if "kv \<in> set kvs" for kv d
  proof -
    obtain k v where kv: "kv = (k, v)" by fastforce
    have "depth_after type k d = Some d"
      using JObject.prems that assms kv by (intro plain_depth) (auto simp: list_all_iff)
    moreover have "depth_after type (json_text v) d = Some d"
      using JObject.IH [of kv v] JObject.prems that kv by (auto simp: list_all_iff)
    ultimately show ?thesis using assms kv by (auto simp: pair_text_def)
  qed
  then have "depth_after type (commas (map pair_text kvs)) e = Some e" for e
    by (intro commas_depth [OF assms]) auto
  with assms show ?case by (auto simp: json_text_object simp del: json_text.simps)
next
  case (JArray vs)
  then have "depth_after type (commas (map json_text vs)) e = Some e" for e
    by (intro commas_depth [OF assms]) (auto simp: list_all_iff)
  with assms show ?case by auto
qed

lemma array_depth: "readable (JArray vs) \<Longrightarrow> depth_after JSARRAY (commas (map json_text vs)) d = Some d"
  by (intro commas_depth) (auto simp: list_all_iff readable_depth)

lemma object_depth:
  assumes "readable (JObject kvs)"
  shows "depth_after JSOBJECT (commas (map pair_text kvs)) d = Some d"
proof (rule commas_depth)
  have "depth_after JSOBJECT (pair_text (k, v)) d = Some d" if "(k, v) \<in> set kvs" for k v d
  proof -
    have "depth_after JSOBJECT k d = Some d" for d
      using assms that by (intro plain_depth) (auto simp: list_all_iff)
    then show ?thesis using readable_depth [of JSOBJECT v] assms that by (auto simp: pair_text_def list_all_iff)
  qed
  then show "\<forall>x\<in>set (map pair_text kvs). \<forall>d. depth_after JSOBJECT x d = Some d" by auto
qed simp

subsection \<open>Reading one value\<close>

lemma strlen_at_ge:
  "0 \<notin> set xs \<Longrightarrow> strlen_at (pre @ xs @ ys) (length pre) = map_option ((+) (length xs)) (strlen_at (pre @ xs @ ys) (length pre + length xs))"
proof (induction xs arbitrary: pre)
  case Nil
  show ?case by (cases "strlen_at (pre @ ys) (length pre)") simp_all
next
  case (Cons x xs)
  with Cons.IH [of "pre @ [x]"] show ?case
    by (auto simp: strlen_at.simps [of "pre @ x # _" "length pre"] option.map_comp comp_def simp del: arr_get_Some)
qed

lemma strlen_at_defined: "0 \<in> set ys \<Longrightarrow> \<exists>n. strlen_at (pre @ ys) (length pre) = Some n"
proof (induction ys arbitrary: pre)
  case (Cons y ys)
  show ?case
  proof (cases "y = 0")
    case False
    with Cons.IH [of "pre @ [y]"] Cons.prems show ?thesis
      by (auto simp: strlen_at.simps [of "pre @ y # _" "length pre"] simp del: arr_get_Some)
  qed (simp add: strlen_at.simps [of "pre @ 0 # _" "length pre"] del: arr_get_Some)
qed simp

lemma strncmp_eq_here [simp]: "strncmp_eq (pre @ xs @ ys) (length pre) xs = Some True"
proof (induction xs arbitrary: pre)
  case (Cons x xs)
  from Cons.IH [of "pre @ [x]"] show ?case by (simp del: arr_get_Some)
qed simp

lemma strncmp_eq_False:
  "\<lbrakk>0 \<in> set ys; 0 \<notin> set xs; take (length xs) ys \<noteq> xs\<rbrakk> \<Longrightarrow> strncmp_eq (pre @ ys) (length pre) xs = Some False"
proof (induction xs arbitrary: pre ys)
  case (Cons x xs)
  then obtain y ys' where ys: "ys = y # ys'" by (cases ys) auto
  show ?case
  proof (cases "y = x")
    case True
    with Cons.prems ys have "0 \<in> set ys'" "take (length xs) ys' \<noteq> xs" by auto
    with Cons.IH [of ys' "pre @ [y]"] Cons.prems True show ?thesis by (simp add: ys del: arr_get_Some)
  qed (simp add: ys del: arr_get_Some)
qed simp

text \<open>How a printed value begins, which is what the reader goes by.\<close>

lemma find_value_readable:
  assumes "readable v"
  shows "find_value (pre @ json_text v @ ys) (length pre) =
    (let n = length pre in case v of
       JString _ \<Rightarrow> Some (JSSTRING, Some (n + 1), n + 1)
     | JBool _ \<Rightarrow> Some (JSBOOLEAN, Some n, n)
     | JNull \<Rightarrow> Some (JSNULL, Some n, n)
     | _ \<Rightarrow> Some (json_type_of v, Some n, n + 1))"
proof (cases v)
  case (JNumber n)
  with assms obtain c cs where n: "n = c # cs" "c = 0x2D \<or> is_digit c" by (cases n) auto
  then have "c \<notin> {0, 0x22, 0x7B, 0x5B}" by (auto simp: is_digit_def word_le_nat_alt)
  with n JNumber show ?thesis by (auto simp: find_value.simps Let_def simp del: arr_get_Some)
qed (auto simp: find_value.simps lit_def is_digit_def Let_def simp del: arr_get_Some)

text \<open>The character after a value.\<close>

definition delimiter :: "byte \<Rightarrow> bool" where
  "delimiter d \<longleftrightarrow> d = 0x2C \<or> d = 0x7D \<or> d = 0x5D"

lemma value_length_number:
  "\<lbrakk>list_all (\<lambda>c. is_digit c \<or> c = 0x2E) cs; delimiter d\<rbrakk> \<Longrightarrow>
    value_length (pre @ cs @ d # ys) JSNUMBER v (length pre) 0 = Some (length pre + length cs - v)"
proof (induction cs arbitrary: pre)
  case Nil
  then show ?case by (auto simp: value_length.simps delimiter_def is_digit_def simp del: arr_get_Some)
next
  case (Cons c cs)
  then have "c \<noteq> 0" "is_digit c \<or> c = 0x2E" by (auto simp: is_digit_def)
  with Cons.IH [of "pre @ [c]"] Cons.prems show ?case
    by (auto simp: value_length.simps [of "pre @ c # _" _ _ "length pre"] simp del: arr_get_Some)
qed

lemma literal_room:
  assumes "0 \<in> set ys" "0 \<notin> set xs"
  shows "\<exists>n. strlen_at (pre @ xs @ ys) (length pre) = Some n \<and> length xs \<le> n"
proof -
  obtain n where "strlen_at ((pre @ xs) @ ys) (length (pre @ xs)) = Some n"
    using strlen_at_defined [OF assms(1)] by blast
  with strlen_at_ge [OF assms(2), of pre ys] have "strlen_at (pre @ xs @ ys) (length pre) = Some (length xs + n)" by simp
  then show ?thesis by simp
qed

lemma boolean_length_readable:
  assumes "0 \<in> set ys"
  shows "boolean_length (pre @ json_text (JBool b) @ ys) (length pre) = Some (if b then 4 else 5)"
proof (cases b)
  case True
  obtain n where "strlen_at (pre @ lit ''true'' @ ys) (length pre) = Some n" "length (lit ''true'') \<le> n"
    using literal_room [OF assms, of "lit ''true''" pre] by (auto simp: lit_def)
  with True strncmp_eq_here [of pre "lit ''true''" ys] show ?thesis
    by (auto simp: boolean_length_def strncmp_either_def lit_def simp del: arr_get_Some strncmp_eq.simps)
next
  case False
  obtain n where "strlen_at (pre @ lit ''false'' @ ys) (length pre) = Some n" "length (lit ''false'') \<le> n"
    using literal_room [OF assms, of "lit ''false''" pre] by (auto simp: lit_def)
  with False strncmp_eq_here [of pre "lit ''false''" ys] show ?thesis
    by (auto simp: boolean_length_def strncmp_either_def lit_def simp del: arr_get_Some strncmp_eq.simps)
qed

lemma null_length_readable:
  assumes "0 \<in> set ys"
  shows "null_length (pre @ lit ''null'' @ ys) (length pre) = Some 4"
proof -
  obtain n where "strlen_at (pre @ lit ''null'' @ ys) (length pre) = Some n" "length (lit ''null'') \<le> n"
    using literal_room [OF assms, of "lit ''null''" pre] by (auto simp: lit_def)
  with strncmp_eq_here [of pre "lit ''null''" ys] show ?thesis
    by (auto simp: null_length_def strncmp_either_def lit_def simp del: arr_get_Some strncmp_eq.simps)
qed

lemma value_length_composite:
  assumes "type \<in> {JSOBJECT, JSARRAY}" "depth_after type xs 0 = Some 0"
  shows "value_length (pre @ x # xs @ mark_close type # ys) type (length pre) (length pre + 1) 0 = Some (length xs + 2)"
  using assms value_length_skip [of type xs 0 0 "pre @ [x]" "mark_close type # ys" "length pre"]
    arr_get_append [of "pre @ x # xs" "mark_close type" ys]
  by (auto simp: value_length.simps [of _ _ _ "Suc (length pre + length xs)"] simp del: arr_get_Some arr_get_append)

text \<open>The position of the payload, and the length found for it.\<close>

definition payload_at :: "json \<Rightarrow> nat" where
  "payload_at v = (if json_type_of v = JSSTRING then 1 else 0)"

lemma json_get_value_readable:
  assumes "readable v" "delimiter d" "0 \<in> set ys"
  shows "json_get_value (pre @ json_text v @ d # ys) (Some (length pre)) key =
    Some \<lparr>item_next = Some (length pre + length (json_text v)), item_key = fst key, item_klen = snd key,
      item_val = Some (length pre + payload_at v), item_vlen = length (payload v), item_type = json_type_of v\<rparr>"
proof (cases v)
  case (JString s)
  with assms have d: "depth_after JSSTRING s 0 = Some 0" by (intro plain_depth) simp_all
  have "value_length (pre @ 0x22 # s @ 0x22 # d # ys) JSSTRING (Suc (length pre)) (Suc (length pre)) 0 = Some (length s)"
    using value_length_skip [OF _ d, of "pre @ [0x22]" "0x22 # d # ys"] arr_get_append [of "pre @ 0x22 # s" "0x22" "d # ys"]
    by (simp add: value_length.simps [of _ _ _ "Suc (length pre + length s)"] del: arr_get_Some arr_get_append)
  with JString assms find_value_readable [OF assms(1), of pre "d # ys"] show ?thesis
    by (simp add: json_get_value_def payload_at_def Let_def)
next
  case (JNumber n)
  with assms obtain c cs where n: "n = c # cs" "list_all (\<lambda>c. is_digit c \<or> c = 0x2E) cs" by (cases n) auto
  with value_length_number [OF n(2) assms(2), of "pre @ [c]" ys "length pre"] JNumber
    find_value_readable [OF assms(1), of pre "d # ys"] show ?thesis
    by (simp add: json_get_value_def payload_at_def Let_def)
next
  case (JBool b)
  have "value_length (pre @ json_text v @ d # ys) JSBOOLEAN (length pre) (length pre) 0 = Some (length (json_text v))"
    using boolean_length_readable [of "d # ys" pre b] assms(3) JBool
    by (auto simp: value_length.simps [of _ _ _ "length pre"] lit_def simp del: arr_get_Some)
  with JBool find_value_readable [OF assms(1), of pre "d # ys"] show ?thesis
    by (simp add: json_get_value_def payload_at_def Let_def)
next
  case JNull
  have "value_length (pre @ json_text v @ d # ys) JSNULL (length pre) (length pre) 0 = Some (length (json_text v))"
    using null_length_readable [of "d # ys" pre] assms(3) JNull
    by (auto simp: value_length.simps [of _ _ _ "length pre"] lit_def simp del: arr_get_Some)
  with JNull find_value_readable [OF assms(1), of pre "d # ys"] show ?thesis
    by (simp add: json_get_value_def payload_at_def Let_def)
next
  case (JObject kvs)
  with assms have "depth_after JSOBJECT (commas (map pair_text kvs)) 0 = Some 0" by (intro object_depth) simp
  with value_length_composite [of JSOBJECT "commas (map pair_text kvs)" pre "0x7B" "d # ys"]
    find_value_readable [OF assms(1), of pre "d # ys"] JObject show ?thesis
    by (simp add: json_get_value_def payload_at_def Let_def json_text_object del: json_text.simps)
next
  case (JArray vs)
  with assms have "depth_after JSARRAY (commas (map json_text vs)) 0 = Some 0" by (intro array_depth) simp
  with value_length_composite [of JSARRAY "commas (map json_text vs)" pre "0x5B" "d # ys"]
    find_value_readable [OF assms(1), of pre "d # ys"] JArray show ?thesis
    by (simp add: json_get_value_def payload_at_def Let_def)
qed

subsection \<open>Reading an object\<close>

text \<open>The item for a pair whose separator (the brace or the comma before it) is at a position.\<close>

definition item_at :: "nat \<Rightarrow> bytes \<times> json \<Rightarrow> json_item" where
  "item_at pos kv =
     \<lparr>item_next = Some (pos + 1 + length (pair_text kv)), item_key = Some (pos + 2), item_klen = length (fst kv),
      item_val = Some (pos + 2 + length (fst kv) + 2 + payload_at (snd kv)), item_vlen = length (payload (snd kv)),
      item_type = json_type_of (snd kv)\<rparr>"

lemma item_at_fields [simp]:
  "item_klen (item_at pos kv) = length (fst kv)" "item_vlen (item_at pos kv) = length (payload (snd kv))"
  "item_key (item_at pos kv) = Some (pos + 2)" "item_type (item_at pos kv) = json_type_of (snd kv)"
  "item_val (item_at pos kv) = Some (pos + 2 + length (fst kv) + 2 + payload_at (snd kv))"
  by (simp_all add: item_at_def)

fun items_at :: "nat \<Rightarrow> (bytes \<times> json) list \<Rightarrow> json_item list" where
  "items_at pos [] = []"
| "items_at pos (kv # kvs) = item_at pos kv # items_at (pos + 1 + length (pair_text kv)) kvs"

lemma json_next_item:
  assumes k: "plain_string (fst kv)" and v: "readable (snd kv)" and d: "delimiter d" "0 \<in> set ys"
    and c: "c = 0x7B \<or> c = 0x2C"
  shows "json_get_next_object JSOBJECT (pre @ c # pair_text kv @ d # ys) (length pre) = Some (Some (item_at (length pre) kv))"
proof -
  obtain k v where kv: "kv = (k, v)" by fastforce
  let ?m = "pre @ c # 0x22 # k @ 0x22 # 0x3A # json_text v @ d # ys"
  have q1: "strchr_at ?m (length pre) 0x22 = Some (Some (length pre + 1))"
    using strchr_at_skip [of "0x22" "[c]" pre "k @ 0x22 # 0x3A # json_text v @ d # ys"] c by auto
  have "0x22 \<notin> set k" "0 \<notin> set k" using k kv by (auto simp: plain_string_def)
  then have q2: "strchr_at ?m (Suc (Suc (length pre))) 0x22 = Some (Some (Suc (Suc (length pre + length k))))"
    using strchr_at_skip [of "0x22" k "pre @ [c, 0x22]" "0x3A # json_text v @ d # ys"] by simp
  have q3: "strchr_at ?m (Suc (Suc (length pre + length k))) 0x3A = Some (Some (Suc (Suc (Suc (length pre + length k)))))"
    using strchr_at_skip [of "0x3A" "[0x22]" "pre @ c # 0x22 # k" "json_text v @ d # ys"] by simp
  have "json_get_value (pre @ c # 0x22 # k @ 0x22 # 0x3A # json_text v @ d # ys) (Some (Suc (Suc (Suc (length pre + length k))))) key =
    json_get_value ((pre @ c # 0x22 # k @ [0x22, 0x3A]) @ json_text v @ d # ys)
      (Some (length (pre @ c # 0x22 # k @ [0x22, 0x3A]))) key" for key
    using arr_get_append [of "pre @ c # 0x22 # k @ [0x22]" "0x3A" "json_text v @ d # ys"]
    by (simp add: json_get_value_def find_value.simps [of _ "Suc (Suc (Suc (length pre + length k)))"] is_digit_def
        del: arr_get_Some arr_get_append)
  with q1 q2 q3 json_get_value_readable [OF v d, of "pre @ c # 0x22 # k @ [0x22, 0x3A]"] show ?thesis
    by (simp add: json_get_next_object_def kv pair_text_def item_at_def Let_def)
qed

text \<open>The body of the iteration over given items, and then what \<open>rest\<close> does.\<close>

fun run_items ::
  "bytes \<Rightarrow> 's json_parse_cb \<Rightarrow> json_item list \<Rightarrow> int \<Rightarrow> 's \<Rightarrow> (int \<Rightarrow> 's \<Rightarrow> (int \<times> 's) option) \<Rightarrow> (int \<times> 's) option" where
  "run_items mem cb [] ret s rest = rest ret s"
| "run_items mem cb (item # items) ret s rest =
     (if item_klen item \<noteq> 0 \<and> item_vlen item \<noteq> 0 then (case cb mem item s of
        None \<Rightarrow> None
      | Some (code, s) \<Rightarrow> if code = JSON_PARSE_FINISH then Some (0, s) else run_items mem cb items 0 s rest)
      else run_items mem cb items ret s rest)"

lemma json_for_each_items:
  assumes "readable (JObject kvs)" "kvs \<noteq> []" "0 \<in> set ys" "c = 0x7B \<or> c = 0x2C"
    and mem: "mem = pre @ c # commas (map pair_text kvs) @ 0x7D # ys"
  shows "json_for_each_kv mem cb (length pre) ret s =
    run_items mem cb (items_at (length pre) kvs) ret s
      (json_for_each_kv mem cb (length pre + 1 + length (commas (map pair_text kvs))))"
  using assms
proof (induction kvs arbitrary: pre c ret s)
  case (Cons kv kvs)
  then have kv: "plain_string (fst kv)" "readable (snd kv)" by (auto simp: case_prod_unfold)
  obtain d rest where rest: "commas (map pair_text (kv # kvs)) @ 0x7D # ys = pair_text kv @ d # rest"
    "delimiter d" "0 \<in> set rest"
    and tail: "kvs = [] \<or> d = 0x2C \<and> rest = commas (map pair_text kvs) @ 0x7D # ys"
    using Cons.prems(3) by (cases kvs) (auto simp: delimiter_def)
  have item: "json_get_next_object JSOBJECT mem (length pre) = Some (Some (item_at (length pre) kv))"
    using json_next_item [OF kv rest(2,3) Cons.prems(4)] Cons.prems(5) rest(1) by simp
  have first: "arr_get mem (length pre) = Some c" "c \<noteq> 0" using Cons.prems(4,5) by auto
  let ?p = "length pre + 1 + length (pair_text kv)"
  have go: "json_for_each_kv mem cb ?p ret s = run_items mem cb (items_at ?p kvs) ret s
      (json_for_each_kv mem cb (length pre + 1 + length (commas (map pair_text (kv # kvs)))))" for ret s
  proof (cases "kvs = []")
    case False
    with tail have "mem = (pre @ c # pair_text kv) @ 0x2C # commas (map pair_text kvs) @ 0x7D # ys"
      using Cons.prems(5) rest(1) by simp
    from Cons.IH [OF _ False Cons.prems(3) _ this] Cons.prems(1) False show ?thesis
      by (cases kvs) (simp_all add: add.assoc)
  qed simp
  show ?case
    using item first go by (simp add: json_for_each_kv.simps [of mem cb "length pre"] item_at_def del: arr_get_Some split: option.split prod.split)
qed simp

lemma json_for_each_end:
  "json_for_each_kv (pre @ 0x7D # 0 # post) cb (length pre) ret s = Some (ret, s)"
proof -
  have "strchr_at (pre @ 0x7D # 0 # post) (length pre) 0x22 = Some None"
    using arr_get_append [of "pre @ [0x7D]" 0 post]
    by (simp add: strchr_at.simps [of _ "length pre"] strchr_at.simps [of _ "Suc (length pre)"]
        del: arr_get_Some)
  then show ?thesis
    by (simp add: json_for_each_kv.simps json_get_next_object_def del: arr_get_Some)
qed

lemma json_get_object_here: "json_get_object JSOBJECT (pre @ 0x7B # ys) (length pre) = Some (Some (length pre))"
  by (simp add: json_get_object.simps del: arr_get_Some)

lemma depth_after_no_nul: "depth_after type xs d = Some d' \<Longrightarrow> 0 \<notin> set xs"
  by (induction xs arbitrary: d) (auto split: if_splits)

lemma readable_no_nul: "readable (JObject kvs) \<Longrightarrow> 0 \<notin> set (json_text (JObject kvs))"
  using readable_depth [of JSOBJECT "JObject kvs" 0] depth_after_no_nul by blast

lemma strlen_at_text: "0 \<notin> set xs \<Longrightarrow> strlen_at (pre @ xs @ 0 # post) (length pre) = Some (length xs)"
  using strlen_at_ge [of xs pre "0 # post"] arr_get_append [of "pre @ xs" 0 post]
  by (simp add: strlen_at.simps [of _ "length pre + length xs"] del: arr_get_Some arr_get_append)

text \<open>The parser on the text of an object, in an array that goes on after its terminator.\<close>

lemma json_parse_object:
  assumes "readable (JObject kvs)" "kvs \<noteq> []"
  shows "json_parse_name_value (pre @ json_text (JObject kvs) @ 0 # post) (Some (length pre))
      (length (json_text (JObject kvs))) (Some cb) s =
    map_option (\<lambda>(ret, s). (ret, pre @ json_text (JObject kvs) @ 0 # post, s))
      (run_items (pre @ json_text (JObject kvs) @ 0 # post) cb (items_at (length pre) kvs) JSON_RESULT_ERR s
        (\<lambda>ret s. Some (ret, s)))"
proof -
  let ?m = "pre @ json_text (JObject kvs) @ 0 # post"
  have m: "?m = pre @ 0x7B # commas (map pair_text kvs) @ 0x7D # 0 # post" by (simp add: json_text_object del: json_text.simps)
  have e: "json_for_each_kv ?m cb (length pre + 1 + length (commas (map pair_text kvs))) = (\<lambda>ret s. Some (ret, s))"
    using json_for_each_end [of "pre @ 0x7B # commas (map pair_text kvs)" post cb] unfolding m by (auto intro!: ext)
  have "json_for_each_kv ?m cb (length pre) JSON_RESULT_ERR s =
    run_items ?m cb (items_at (length pre) kvs) JSON_RESULT_ERR s (\<lambda>ret s. Some (ret, s))"
    using json_for_each_items [OF assms _ _ m, of cb] unfolding e by auto
  moreover have "json_get_object JSOBJECT ?m (length pre) = Some (Some (length pre))"
    unfolding m by (rule json_get_object_here)
  moreover have "strlen_at ?m (length pre) = Some (length (json_text (JObject kvs)))"
    using readable_no_nul [OF assms(1)] by (rule strlen_at_text)
  moreover have "json_text (JObject kvs) \<noteq> []" by simp
  ultimately show ?thesis
    by (auto simp: json_parse_name_value_def map_conv_bind_option comp_def case_prod_unfold simp del: json_text.simps)
qed

subsection \<open>What a reader of an object gets\<close>

text \<open>The callback that collects what it is shown, and what it should be shown.\<close>

definition collect_item :: "(bytes \<times> bytes \<times> json_type) list json_parse_cb" where
  "collect_item mem item s = do {
     k \<leftarrow> item_key item;
     v \<leftarrow> item_val item;
     Some (JSON_PARSE_OK, s @ [(take (item_klen item) (drop k mem), take (item_vlen item) (drop v mem), item_type item)]) }"

definition json_entries :: "(bytes \<times> json) list \<Rightarrow> (bytes \<times> bytes \<times> json_type) list" where
  "json_entries kvs = map (\<lambda>(k, v). (k, payload v, json_type_of v)) kvs"

text \<open>The code passes over pairs with an empty key or an empty string for a value.\<close>

definition shown_entries :: "(bytes \<times> json) list \<Rightarrow> (bytes \<times> bytes \<times> json_type) list" where
  "shown_entries kvs = map (\<lambda>(k, v). (k, payload v, json_type_of v)) (filter (\<lambda>(k, v). k \<noteq> [] \<and> payload v \<noteq> []) kvs)"

lemma take_payload: "take (length (payload v)) (drop (payload_at v) (json_text v @ ys)) = payload v"
  by (cases v) (simp_all add: payload_at_def)

lemma item_texts:
  assumes "mem = pre @ c # pair_text kv @ ys"
  shows "take (length (fst kv)) (drop (length pre + 2) mem) = fst kv"
    "take (length (payload (snd kv))) (drop (length pre + 2 + length (fst kv) + 2 + payload_at (snd kv)) mem) = payload (snd kv)"
proof -
  show "take (length (fst kv)) (drop (length pre + 2) mem) = fst kv"
    using assms by (simp add: pair_text_def)
  have m: "mem = (pre @ c # 0x22 # fst kv @ [0x22, 0x3A]) @ json_text (snd kv) @ ys"
    using assms by (simp add: pair_text_def)
  have "length pre + 2 + length (fst kv) + 2 + payload_at (snd kv) =
    payload_at (snd kv) + length (pre @ c # 0x22 # fst kv @ [0x22, 0x3A])" by simp
  then have "drop (length pre + 2 + length (fst kv) + 2 + payload_at (snd kv)) mem =
    drop (payload_at (snd kv)) (drop (length (pre @ c # 0x22 # fst kv @ [0x22, 0x3A])) mem)"
    by (simp only: drop_drop)
  also have "drop (length (pre @ c # 0x22 # fst kv @ [0x22, 0x3A])) mem = json_text (snd kv) @ ys"
    using m by (metis append_eq_conv_conj)
  finally show "take (length (payload (snd kv))) (drop (length pre + 2 + length (fst kv) + 2 + payload_at (snd kv)) mem) =
    payload (snd kv)"
    by (simp only: take_payload)
qed

lemma collect_item_at:
  assumes "mem = pre @ c # pair_text kv @ ys"
  shows "collect_item mem (item_at (length pre) kv) s =
    Some (JSON_PARSE_OK, s @ [(fst kv, payload (snd kv), json_type_of (snd kv))])"
  by (simp only: collect_item_def item_at_def json_item.simps Option.bind.simps item_texts [OF assms])

lemma collect_items:
  assumes "mem = pre @ c # commas (map pair_text kvs) @ ys"
  shows "run_items mem collect_item (items_at (length pre) kvs) ret s (\<lambda>ret s. Some (ret, s)) =
    Some (if shown_entries kvs = [] then ret else JSON_RESULT_OK, s @ shown_entries kvs)"
  using assms
proof (induction kvs arbitrary: pre c ret s)
  case (Cons kv kvs)
  obtain d rest where "mem = pre @ c # pair_text kv @ rest" and tail: "kvs = [] \<or> rest = d # commas (map pair_text kvs) @ ys"
    using Cons.prems by (cases kvs) auto
  note item = collect_item_at [OF this(1)]
  have go: "run_items mem collect_item (items_at (length pre + 1 + length (pair_text kv)) kvs) ret s (\<lambda>ret s. Some (ret, s)) =
    Some (if shown_entries kvs = [] then ret else JSON_RESULT_OK, s @ shown_entries kvs)" for ret s
  proof (cases "kvs = []")
    case False
    with tail \<open>mem = pre @ c # pair_text kv @ rest\<close>
    have "mem = (pre @ c # pair_text kv) @ d # commas (map pair_text kvs) @ ys" by simp
    from Cons.IH [OF this] show ?thesis by simp
  qed (simp add: shown_entries_def)
  show ?case
    using go by (simp add: item shown_entries_def case_prod_unfold)
qed (simp add: shown_entries_def)

lemma json_object_shown:
  assumes "readable (JObject kvs)"
  shows "json_parse_name_value (json_text (JObject kvs) @ [0]) (Some 0) (length (json_text (JObject kvs))) (Some collect_item) [] =
    Some (if shown_entries kvs = [] then JSON_RESULT_ERR else JSON_RESULT_OK, json_text (JObject kvs) @ [0], shown_entries kvs)"
proof (cases "kvs = []")
  case True
  have "json_parse_name_value [0x7B, 0x7D, 0] (Some 0) 2 (Some collect_item) [] =
    Some (JSON_RESULT_ERR, [0x7B, 0x7D, 0], [])"
    by (simp add: json_parse_name_value_def strlen_at.simps json_get_object.simps json_for_each_kv.simps
        json_get_next_object_def strchr_at.simps arr_get_def)
  with True show ?thesis by (simp add: shown_entries_def numeral_2_eq_2)
next
  case False
  have "json_text (JObject kvs) @ [0] = [] @ 0x7B # commas (map pair_text kvs) @ [0x7D, 0]"
    by (simp add: json_text_object del: json_text.simps)
  from collect_items [OF this, of JSON_RESULT_ERR "[]"] json_parse_object [OF assms False, of "[]" "[]" collect_item "[]"]
  show ?thesis by (simp del: json_text.simps)
qed

lemma empty_pairs_passed_over:
  "json_parse_name_value (lit ''{\"\":1,\"a\":\"\"}'' @ [0]) (Some 0) (length (lit ''{\"\":1,\"a\":\"\"}'')) (Some collect_item) [] =
    Some (JSON_RESULT_ERR, lit ''{\"\":1,\"a\":\"\"}'' @ [0], [])"
  using json_object_shown [of "[([], JNumber (lit ''1'')), (lit ''a'', JString [])]"]
  by (simp add: lit_def plain_string_def is_digit_def shown_entries_def)

text \<open>
  C36: JSON round trip: iterating over the printed text of an object shows the callback exactly the
  pairs of the object, in their order, each with the characters of its key, those of its value and
  the type of the value, and leaves the text as it was; for an object without pairs the result is an
  error.  The keys and the string values of the object are not empty (the code passes over a pair
  with an empty one), and no string or key in it holds a quote, a brace, a bracket or a NUL
  (the code knows no escapes and counts braces inside strings).
\<close>

theorem json_object_round_trip:
  assumes "readable (JObject kvs)" "\<forall>(k, v) \<in> set kvs. k \<noteq> [] \<and> v \<noteq> JString []"
  shows "json_parse_name_value (json_text (JObject kvs) @ [0]) (Some 0) (length (json_text (JObject kvs))) (Some collect_item) [] =
    Some (if kvs = [] then JSON_RESULT_ERR else JSON_RESULT_OK, json_text (JObject kvs) @ [0], json_entries kvs)"
proof -
  have "payload v \<noteq> []" if "(k, v) \<in> set kvs" for k v
  proof (cases v)
    case (JNumber n)
    have "list_all (\<lambda>(k, v). plain_string k \<and> readable v) kvs" using assms(1) by simp
    then have "readable v" using that unfolding list_all_iff by blast
    with JNumber show ?thesis by simp
  qed (use that assms(2) in \<open>auto simp: lit_def\<close>)
  then have "filter (\<lambda>(k, v). k \<noteq> [] \<and> payload v \<noteq> []) kvs = kvs"
    using assms(2) by (intro filter_True) auto
  then have "shown_entries kvs = json_entries kvs" by (simp add: shown_entries_def json_entries_def)
  moreover have "json_entries kvs = [] \<longleftrightarrow> kvs = []" by (simp add: json_entries_def)
  ultimately show ?thesis using json_object_shown [OF assms(1)] by (simp del: json_text.simps)
qed

theorem json_object_round_trip_witness:
  "json_parse_name_value (lit ''{\"a\":\"x\",\"n\":{\"b\":[1]}}'' @ [0]) (Some 0)
      (length (lit ''{\"a\":\"x\",\"n\":{\"b\":[1]}}'')) (Some collect_item) [] =
    Some (0, lit ''{\"a\":\"x\",\"n\":{\"b\":[1]}}'' @ [0], [(lit ''a'', lit ''x'', JSSTRING), (lit ''n'', lit ''{\"b\":[1]}'', JSOBJECT)])"
  using json_object_round_trip [of "[(lit ''a'', JString (lit ''x'')), (lit ''n'', JObject [(lit ''b'', JArray [JNumber (lit ''1'')])])]"]
  by (simp add: lit_def plain_string_def is_digit_def json_entries_def)

end
