(* ===== verification/Json_Token.thy ===== *)
theory Json_Token
  imports Json_Parser Hal_World
begin

text \<open>
  Values by path (\<^verbatim>\<open>src/utils/json_token.c\<close>): a key such as \<open>Payload.Version\<close> is followed from
  object to object.  The text is a C string in an array, a key a list of its characters; the
  result is a fresh C string, or NULL.
\<close>

text \<open>\<open>strchr(key_iter, '.')\<close>: the first part and what follows the point.\<close>

definition split_at_dot :: "bytes \<Rightarrow> (bytes \<times> bytes) option" where
  "split_at_dot key =
     (if 0x2E \<in> set key
      then Some (takeWhile (\<lambda>c. c \<noteq> 0x2E) key, tl (dropWhile (\<lambda>c. c \<noteq> 0x2E) key)) else None)"

lemma split_at_dot_shorter [simp]: "split_at_dot key = Some (first, rest) \<Longrightarrow> length rest < length key"
proof -
  assume "split_at_dot key = Some (first, rest)"
  then have "0x2E \<in> set key" "rest = tl (dropWhile (\<lambda>c. c \<noteq> 0x2E) key)" by (auto simp: split_at_dot_def split: if_splits)
  moreover from this have "dropWhile (\<lambda>c. c \<noteq> 0x2E) key \<noteq> []" by (simp add: dropWhile_eq_Nil_conv)
  moreover have "length (dropWhile (\<lambda>c. c \<noteq> 0x2E) key) \<le> length key" by (rule length_dropWhile_le)
  ultimately show ?thesis by (cases "dropWhile (\<lambda>c. c \<noteq> 0x2E) key") auto
qed

text \<open>
  The loop over the points of the key: the object of the last one and the rest of the key, or
  \<open>None\<close> for the early \<open>return NULL\<close>.  The copy of a part of the key is not checked: when there is no memory
  for it, \<open>strncpy\<close> writes to NULL.
\<close>

function json_descend ::
  "bytes \<Rightarrow> nat \<Rightarrow> bytes \<Rightarrow> 'a world_scheme \<Rightarrow> ((nat \<times> bytes) option \<times> bytes \<times> 'a world_scheme) option" where
  "json_descend mem src_iter key_iter w = (case split_at_dot key_iter of
     None \<Rightarrow> Some (Some (src_iter, key_iter), mem, w)
   | Some (key_next, rest) \<Rightarrow> (let (ok, w) = HAL_Malloc w in
       if \<not> ok then None
       else (case Option.bind (strlen_at mem src_iter) (\<lambda>len. json_get_value_by_name mem src_iter len key_next True False) of
           None \<Rightarrow> None
         | Some (value, value_len, _, mem) \<Rightarrow> (case value of
             None \<Rightarrow> Some (None, mem, w)
           | Some src_iter \<Rightarrow> json_descend mem src_iter rest w))))"
  by pat_completeness auto
termination by (relation "measure (\<lambda>(_, _, key, _). length key)") auto

declare json_descend.simps [simp del]

text \<open>
  \<open>HAL_Snprintf(ret, value_len + 1, "%s", value)\<close> copies at most \<open>value_len\<close> characters of the string
  at \<open>value\<close>.
\<close>

definition copy_value :: "bytes \<Rightarrow> nat \<Rightarrow> nat \<Rightarrow> bytes option" where
  "copy_value mem value value_len = do {
     len \<leftarrow> strlen_at mem value;
     Some (take (min len value_len) (drop value mem)) }"

definition LITE_json_value_of ::
  "bytes \<Rightarrow> bytes \<Rightarrow> nat \<Rightarrow> 'a world_scheme \<Rightarrow> (bytes option \<times> bytes \<times> 'a world_scheme) option" where
  "LITE_json_value_of key mem src w = do {
     (found, mem, w) \<leftarrow> json_descend mem src key w;
     case found of
       None \<Rightarrow> Some (None, mem, w)
     | Some (src_iter, key_iter) \<Rightarrow> do {
         len \<leftarrow> strlen_at mem src_iter;
         (value, value_len, _, mem) \<leftarrow> json_get_value_by_name mem src_iter len key_iter True False;
         case value of
           None \<Rightarrow> Some (None, mem, w)
         | Some value \<Rightarrow>
             let (ok, w) = HAL_Malloc w in
             if \<not> ok then Some (None, mem, w)
             else do {
               n \<leftarrow> value_len;
               ret \<leftarrow> copy_value mem value n;
               Some (Some ret, mem, w) } } }"

end
