(* ===== verification/Json_Lookup.thy ===== *)
theory Json_Lookup
  imports Json_Props Json_Token
begin

text \<open>
  Looking a value up by its name or by a path of names: which pair is found, where its value lies,
  and what comes back.
\<close>

subsection \<open>By name\<close>

text \<open>
  The pair the code finds: the first whose key begins with the name (not: is the name), among
  those it does not pass over.
\<close>

definition prefix_find :: "bytes \<Rightarrow> (bytes \<times> json) list \<Rightarrow> json option" where
  "prefix_find name kvs = map_option snd
     (find (\<lambda>(k, v). k \<noteq> [] \<and> payload v \<noteq> [] \<and> take (length name) k = name) kvs)"

definition plain_name :: "bytes \<Rightarrow> bool" where
  "plain_name name \<longleftrightarrow> set name \<inter> {0, 0x22, 0x2E} = {}"

lemma strncmp_eq_key:
  assumes "plain_name name" "plain_string k"
  shows "strncmp_eq (pre @ k @ 0x22 # ys) (length pre) name = Some (take (length name) k = name)"
  using assms
proof (induction name arbitrary: pre k)
  case (Cons c name)
  show ?case
  proof (cases k)
    case Nil
    then show ?thesis using Cons.prems by (auto simp: plain_name_def simp del: arr_get_Some)
  next
    case k: (Cons x k')
    with Cons.IH [of k' "pre @ [x]"] Cons.prems show ?thesis
      by (auto simp: plain_name_def plain_string_def simp del: arr_get_Some)
  qed
qed simp

text \<open>Where the reader leaves the name-value record, for the items of an object.\<close>

definition found_at :: "bytes \<Rightarrow> nat \<Rightarrow> json \<Rightarrow> bytes \<Rightarrow> bool" where
  "found_at mem p v ys \<longleftrightarrow> (\<exists>pre. mem = pre @ json_text v @ ys \<and> p = length pre + payload_at v)"

lemma find_items:
  assumes "readable (JObject kvs)" "plain_name (pN nv)" "mem = pre @ c # commas (map pair_text kvs) @ ys"
  shows "case prefix_find (pN nv) kvs of
     None \<Rightarrow> \<exists>ret'. run_items mem json_get_value_by_name_cb (items_at (length pre) kvs) ret nv rest = rest ret' nv
   | Some v \<Rightarrow> \<exists>p zs. run_items mem json_get_value_by_name_cb (items_at (length pre) kvs) ret nv rest =
        Some (JSON_RESULT_OK, nv\<lparr>pV := Some p, vLen := length (payload v), vType := json_type_of v\<rparr>) \<and>
        found_at mem p v (zs @ ys) \<and> readable v \<and> payload v \<noteq> [] \<and> 0 \<notin> set zs"
  using assms
proof (induction kvs arbitrary: pre c ret)
  case Nil
  then show ?case by (auto simp: prefix_find_def)
next
  case (Cons kv kvs)
  obtain zs where d: "mem = pre @ c # pair_text kv @ zs @ ys"
    and tail: "kvs = [] \<and> zs = [] \<or> zs = 0x2C # commas (map pair_text kvs)"
    using Cons.prems(3) by (cases kvs) auto
  have kv: "plain_string (fst kv)" "readable (snd kv)" "readable (JObject kvs)"
    using Cons.prems(1) by (auto simp: case_prod_unfold)
  have zs: "0 \<notin> set zs" using tail depth_after_no_nul [OF object_depth [OF kv(3), of 0]] by auto
  have cmp: "strncmp_eq mem (length pre + 2) (pN nv) = Some (take (length (pN nv)) (fst kv) = pN nv)"
    using strncmp_eq_key [OF Cons.prems(2) kv(1), of "pre @ [c, 0x22]"] d by (simp add: pair_text_def)
  have found: "found_at mem (length pre + 2 + length (fst kv) + 2 + payload_at (snd kv)) (snd kv) (zs @ ys)"
    unfolding found_at_def
    by (rule exI [of _ "pre @ c # 0x22 # fst kv @ [0x22, 0x3A]"]) (simp add: d pair_text_def)
  show ?case
  proof (cases "fst kv \<noteq> [] \<and> payload (snd kv) \<noteq> [] \<and> take (length (pN nv)) (fst kv) = pN nv")
    case True
    with cmp found kv zs show ?thesis
      by (auto simp: prefix_find_def json_get_value_by_name_cb_def case_prod_unfold)
  next
    case False
    then have find: "prefix_find (pN nv) (kv # kvs) = prefix_find (pN nv) kvs"
      by (auto simp: prefix_find_def case_prod_unfold)
    have step: "\<exists>ret'. run_items mem json_get_value_by_name_cb (items_at (length pre) (kv # kvs)) ret nv rest =
      run_items mem json_get_value_by_name_cb (items_at (length pre + 1 + length (pair_text kv)) kvs) ret' nv rest"
      using False cmp by (auto simp: json_get_value_by_name_cb_def)
    show ?thesis
    proof (cases "kvs = []")
      case True
      with step find show ?thesis by (auto simp: prefix_find_def)
    next
      case ne: False
      with tail d have "mem = (pre @ c # pair_text kv) @ 0x2C # commas (map pair_text kvs) @ ys" by simp
      note IH = Cons.IH [OF kv(3) Cons.prems(2) this]
      obtain ret' where "run_items mem json_get_value_by_name_cb (items_at (length pre) (kv # kvs)) ret nv rest =
        run_items mem json_get_value_by_name_cb (items_at (length (pre @ c # pair_text kv)) kvs) ret' nv rest"
        using step by auto
      then show ?thesis unfolding find using IH [of ret'] by (simp only:)
    qed
  qed
qed

lemma json_get_value_found:
  assumes kvs: "readable (JObject kvs)" and name: "plain_name name" and rest: "0 \<notin> set rest"
    and v: "prefix_find name kvs = Some v"
    and mem: "mem = pre @ json_text (JObject kvs) @ rest @ 0 # post"
  shows "\<exists>p zs. Option.bind (strlen_at mem (length pre)) (\<lambda>len. json_get_value_by_name mem (length pre) len name True False) =
      Some (Some p, Some (length (payload v)), None, mem) \<and> found_at mem p v (zs @ 0 # post) \<and> readable v \<and> 0 \<notin> set zs"
proof -
  define nv where "nv = \<lparr>pN = name, vLen = 0, vType = JSSTRING, pV = None\<rparr>"
  have ne: "kvs \<noteq> []" using v by (auto simp: prefix_find_def)
  have m: "mem = pre @ 0x7B # commas (map pair_text kvs) @ 0x7D # rest @ 0 # post"
    by (simp add: mem json_text_object del: json_text.simps)
  have len: "strlen_at mem (length pre) = Some (length (json_text (JObject kvs)) + length rest)"
    using strlen_at_text [of "json_text (JObject kvs) @ rest" pre post] readable_no_nul [OF kvs] rest
    by (simp add: mem del: json_text.simps)
  have "json_for_each_kv mem json_get_value_by_name_cb (length pre) JSON_RESULT_ERR nv =
    run_items mem json_get_value_by_name_cb (items_at (length pre) kvs) JSON_RESULT_ERR nv
      (json_for_each_kv mem json_get_value_by_name_cb (length pre + 1 + length (commas (map pair_text kvs))))"
    by (rule json_for_each_items [OF kvs ne _ _ m]) auto
  moreover obtain p zs where run: "run_items mem json_get_value_by_name_cb (items_at (length pre) kvs) JSON_RESULT_ERR nv
      (json_for_each_kv mem json_get_value_by_name_cb (length pre + 1 + length (commas (map pair_text kvs)))) =
      Some (JSON_RESULT_OK, nv\<lparr>pV := Some p, vLen := length (payload v), vType := json_type_of v\<rparr>)"
    and p: "found_at mem p v (zs @ 0x7D # rest @ 0 # post)" "readable v" "0 \<notin> set zs"
    using find_items [OF kvs _ m, of nv JSON_RESULT_ERR] name v by (force simp: nv_def)
  moreover have "json_get_object JSOBJECT mem (length pre) = Some (Some (length pre))"
    unfolding m by (rule json_get_object_here)
  moreover have "length (json_text (JObject kvs)) + length rest \<noteq> 0" by simp
  ultimately have "Option.bind (strlen_at mem (length pre)) (\<lambda>len. json_get_value_by_name mem (length pre) len name True False) =
      Some (Some p, Some (length (payload v)), None, mem)"
    using len by (simp add: json_get_value_by_name_def json_parse_name_value_def nv_def [symmetric] del: json_text.simps)
  moreover have "found_at mem p v ((zs @ 0x7D # rest) @ 0 # post)" "0 \<notin> set (zs @ 0x7D # rest)" using p rest by simp_all
  ultimately show ?thesis using p(2) by blast
qed

text \<open>The copy of a value that was found.\<close>

lemma copy_value_found:
  assumes "found_at mem p v (zs @ 0 # post)" "readable v"
  shows "copy_value mem p (length (payload v)) = Some (payload v)"
proof -
  obtain pre where m: "mem = pre @ json_text v @ zs @ 0 # post" and p: "p = length pre + payload_at v"
    using assms(1) by (auto simp: found_at_def)
  obtain pre' ys where split: "mem = pre' @ payload v @ ys" "length pre' = p" "0 \<in> set ys"
  proof (cases v)
    case (JString s)
    show thesis by (rule that [of "pre @ [0x22]" "0x22 # zs @ 0 # post"]) (use m p JString in \<open>simp_all add: payload_at_def\<close>)
  qed (rule that [of pre "zs @ 0 # post"], use m p in \<open>simp_all add: payload_at_def\<close>)+
  have "0 \<notin> set (payload v)"
    using depth_after_no_nul [OF readable_depth [OF _ assms(2), of JSOBJECT 0]] by (cases v) auto
  from literal_room [OF split(3) this, of pre'] split show ?thesis by (auto simp: copy_value_def)
qed

subsection \<open>By path\<close>

fun prefix_path :: "bytes list \<Rightarrow> json \<Rightarrow> json option" where
  "prefix_path [] v = Some v"
| "prefix_path (name # names) (JObject kvs) = Option.bind (prefix_find name kvs) (prefix_path names)"
| "prefix_path (name # names) v = None"

text \<open>
  What a path leads to: at every level the pair with the name as its key (the first one, should
  there be several).  The code finds it where no other key of the object begins with the name and
  the value is not the empty string.
\<close>

fun json_path :: "bytes list \<Rightarrow> json \<Rightarrow> json option" where
  "json_path [] v = Some v"
| "json_path (name # names) (JObject kvs) = Option.bind (map_of kvs name) (json_path names)"
| "json_path (name # names) v = None"

fun json_clear :: "bytes list \<Rightarrow> json \<Rightarrow> bool" where
  "json_clear [] v = (payload v \<noteq> [])"
| "json_clear (name # names) (JObject kvs) = (name \<noteq> [] \<and>
     list_all (\<lambda>(k, u). take (length name) k = name \<longrightarrow> k = name) kvs \<and>
     (case map_of kvs name of None \<Rightarrow> True | Some u \<Rightarrow> json_clear names u))"
| "json_clear (name # names) v = True"

lemma prefix_find_key:
  assumes "name \<noteq> []" "list_all (\<lambda>(k, u). take (length name) k = name \<longrightarrow> k = name) kvs"
    and "map_of kvs name = Some v" "payload v \<noteq> []"
  shows "prefix_find name kvs = Some v"
  using assms by (induction kvs) (auto simp: prefix_find_def split: if_splits)

lemma json_path_prefix:
  "json_path names v = Some u \<Longrightarrow> json_clear names v \<Longrightarrow> prefix_path names v = Some u"
proof (induction names v rule: json_path.induct)
  case (2 name names kvs)
  then obtain w where w: "map_of kvs name = Some w" "json_path names w = Some u" by (auto simp: bind_eq_Some_conv)
  with 2 have p: "prefix_path names w = Some u" by simp
  have "payload w \<noteq> []"
  proof (cases "names = []")
    case False
    with w(2) obtain kvs' where "w = JObject kvs'" by (cases names; cases w) auto
    then show ?thesis by simp
  qed (use 2 w in simp)
  with 2 w p show ?case using prefix_find_key [of name kvs w] by simp
qed simp_all

fun dotted :: "bytes list \<Rightarrow> bytes" where
  "dotted [] = []"
| "dotted [name] = name"
| "dotted (name # names) = name @ 0x2E # dotted names"

lemma split_at_dot_simps:
  "plain_name name \<Longrightarrow> split_at_dot name = None"
  "plain_name name \<Longrightarrow> split_at_dot (name @ 0x2E # rest) = Some (name, rest)"
proof -
  assume "plain_name name"
  then have "0x2E \<notin> set name" by (simp add: plain_name_def)
  moreover from this have "takeWhile (\<lambda>c. c \<noteq> 0x2E) (name @ 0x2E # rest) = name"
    "dropWhile (\<lambda>c. c \<noteq> 0x2E) (name @ 0x2E # rest) = 0x2E # rest"
    by (induction name) auto
  ultimately show "split_at_dot name = None" "split_at_dot (name @ 0x2E # rest) = Some (name, rest)"
    by (simp_all add: split_at_dot_def)
qed

lemma json_descend_path:
  assumes "\<forall>n\<in>set names. plain_name n" "names \<noteq> []" "readable (JObject kvs)" "0 \<notin> set rest" "mallocs w = []"
    and "prefix_path names (JObject kvs) = Some v"
    and "mem = pre @ json_text (JObject kvs) @ rest @ 0 # post"
  shows "\<exists>pre' kvs' rest'. json_descend mem (length pre) (dotted names) w = Some (Some (length pre', last names), mem, w) \<and>
    mem = pre' @ json_text (JObject kvs') @ rest' @ 0 # post \<and> readable (JObject kvs') \<and> 0 \<notin> set rest' \<and>
    prefix_find (last names) kvs' = Some v"
  using assms
proof (induction names arbitrary: pre kvs rest)
  case (Cons name names)
  obtain u where u: "prefix_find name kvs = Some u" "prefix_path names u = Some v"
    using Cons.prems(6) by (auto simp: bind_eq_Some_conv)
  show ?case
  proof (cases "names = []")
    case True
    have "json_descend mem (length pre) name w = Some (Some (length pre, name), mem, w)"
      using Cons.prems(1) by (simp add: json_descend.simps split_at_dot_simps)
    then show ?thesis
      using True u Cons.prems by (intro exI [of _ pre] exI [of _ kvs] exI [of _ rest]) (simp del: json_text.simps)
  next
    case False
    then obtain kvs' where kvs': "u = JObject kvs'" using u(2) by (cases names; cases u) auto
    obtain p zs where p: "Option.bind (strlen_at mem (length pre)) (\<lambda>len. json_get_value_by_name mem (length pre) len name True False) =
        Some (Some p, Some (length (payload u)), None, mem)" "found_at mem p u (zs @ 0 # post)" "readable u" "0 \<notin> set zs"
      using json_get_value_found [OF Cons.prems(3) _ Cons.prems(4) u(1) Cons.prems(7)] Cons.prems(1) by auto
    from p(2) obtain pre' where pre': "mem = pre' @ json_text (JObject kvs') @ zs @ 0 # post" "p = length pre'"
      by (auto simp: found_at_def kvs' payload_at_def)
    have "dotted (name # names) = name @ 0x2E # dotted names" using False by (cases names) auto
    then have "json_descend mem (length pre) (dotted (name # names)) w = json_descend mem p (dotted names) w"
      using p(1) Cons.prems(1,5) by (simp add: json_descend.simps [of mem "length pre"] split_at_dot_simps HAL_Malloc_def)
    with Cons.IH [OF _ False _ p(4) Cons.prems(5) _ pre'(1)] Cons.prems(1) p(3) kvs' u(2) pre'(2) False
    show ?thesis by simp
  qed
qed simp

lemma json_value_at:
  assumes "readable (JObject kvs)" "names \<noteq> []" "\<forall>n\<in>set names. plain_name n"
    and "prefix_path names (JObject kvs) = Some v" "mallocs w = []"
    and mem: "mem = json_text (JObject kvs) @ 0 # post"
  shows "LITE_json_value_of (dotted names) mem 0 w = Some (Some (payload v), mem, w)"
proof -
  have m: "mem = [] @ json_text (JObject kvs) @ [] @ 0 # post" using mem by simp
  obtain pre kvs' rest where d: "json_descend mem 0 (dotted names) w = Some (Some (length pre, last names), mem, w)"
    "mem = pre @ json_text (JObject kvs') @ rest @ 0 # post" "readable (JObject kvs')" "0 \<notin> set rest"
    "prefix_find (last names) kvs' = Some v"
    using json_descend_path [OF assms(3,2,1) _ assms(5,4) m] by auto
  have "plain_name (last names)" using assms(2,3) by simp
  from json_get_value_found [OF d(3) this d(4,5,2)] obtain p zs
    where p: "Option.bind (strlen_at mem (length pre)) (\<lambda>len. json_get_value_by_name mem (length pre) len (last names) True False) =
      Some (Some p, Some (length (payload v)), None, mem)" "found_at mem p v (zs @ 0 # post)" "readable v"
    by blast
  with copy_value_found [OF p(2,3)] d(1) assms(5) show ?thesis
    by (auto simp: LITE_json_value_of_def HAL_Malloc_def bind_eq_Some_conv simp del: json_text.simps)
qed

text \<open>
  C37: Lookup by path: in the text of an object, following a path of names to a value that is there
  yields a fresh copy of exactly that value (the characters of a string, the text of anything
  else), and changes nothing, provided memory does not run out.  The strings and keys of the object
  hold no quote, brace, bracket or NUL, in the objects on the way no other key begins with the
  name that is looked up, and the value is not the empty string.
\<close>

theorem json_value_of_path:
  assumes "readable (JObject kvs)" "names \<noteq> []" "\<forall>n\<in>set names. plain_name n"
    and "json_path names (JObject kvs) = Some v" "json_clear names (JObject kvs)" "mallocs w = []"
  shows "LITE_json_value_of (dotted names) (json_text (JObject kvs) @ [0]) 0 w =
    Some (Some (payload v), json_text (JObject kvs) @ [0], w)"
  by (rule json_value_at [OF assms(1-3) json_path_prefix [OF assms(4,5)] assms(6)]) simp

theorem json_value_of_path_witness:
  "LITE_json_value_of (lit ''Payload.Version'') (lit ''{\"Method\":\"x\",\"Payload\":{\"Module\":\"m\",\"Version\":\"1.2\"}}'' @ [0]) 0
      \<lparr>clock = 0, ticks = [], ssl_rx = [], ssl_tx = [], tls_up = [], mallocs = [], held = {}, handle = 0, wire = []\<rparr> =
    Some (Some (lit ''1.2''), lit ''{\"Method\":\"x\",\"Payload\":{\"Module\":\"m\",\"Version\":\"1.2\"}}'' @ [0],
      \<lparr>clock = 0, ticks = [], ssl_rx = [], ssl_tx = [], tls_up = [], mallocs = [], held = {}, handle = 0, wire = []\<rparr>)"
  using json_value_of_path [of "[(lit ''Method'', JString (lit ''x'')),
      (lit ''Payload'', JObject [(lit ''Module'', JString (lit ''m'')), (lit ''Version'', JString (lit ''1.2''))])]"
      "[lit ''Payload'', lit ''Version'']" "JString (lit ''1.2'')"
      "\<lparr>clock = 0, ticks = [], ssl_rx = [], ssl_tx = [], tls_up = [], mallocs = [], held = {}, handle = 0, wire = []\<rparr>"]
  by (simp add: lit_def plain_string_def plain_name_def)

subsection \<open>Where the reader goes wrong\<close>

text \<open>A name finds the first key that begins with it: \<open>ver\<close> finds \<open>version\<close>.\<close>

lemma longer_key_found:
  assumes "mallocs w = []"
  shows "LITE_json_value_of (lit ''ver'') (lit ''{\"version\":1,\"ver\":2}'' @ [0]) 0 w =
    Some (Some (lit ''1''), lit ''{\"version\":1,\"ver\":2}'' @ [0], w)"
proof -
  let ?kvs = "[(lit ''version'', JNumber (lit ''1'')), (lit ''ver'', JNumber (lit ''2''))]"
  have t: "json_text (JObject ?kvs) = lit ''{\"version\":1,\"ver\":2}''" by (simp add: lit_def)
  show ?thesis
    using json_value_at [of ?kvs "[lit ''ver'']" "JNumber (lit ''1'')" w "json_text (JObject ?kvs) @ [0]" "[]"] assms
    unfolding t by (simp add: lit_def plain_string_def plain_name_def prefix_find_def is_digit_def)
qed

text \<open>Braces in a string are counted like the others: the value of \<open>a\<close> ends inside it.\<close>

lemma brace_in_string_cuts_object:
  "json_get_value_by_name (lit ''{\"a\":{\"b\":\"}\"}}'' @ [0]) 0 15 (lit ''a'') True True =
    Some (Some 5, Some 7, Some JSOBJECT, lit ''{\"a\":{\"b\":\"}\"}}'' @ [0])"
  by (simp add: lit_def strlen_at.simps json_get_value_by_name_def
    json_parse_name_value_def json_get_object.simps json_for_each_kv.simps json_get_next_object_def strchr_at.simps
    json_get_value_def find_value.simps value_length.simps is_digit_def json_get_value_by_name_cb_def arr_get_def)

text \<open>A path that leaves its object: the value of \<open>a.y\<close> in an object whose \<open>a\<close> has no \<open>y\<close>.\<close>

lemma path_leaves_object:
  assumes "mallocs w = []"
  shows "LITE_json_value_of (lit ''a.y'') (lit ''{\"a\":{\"x\":1},\"y\":2}'' @ [0]) 0 w =
    Some (Some (lit ''2''), lit ''{\"a\":{\"x\":1},\"y\":2}'' @ [0], w)"
  unfolding LITE_json_value_of_def json_descend.simps [of _ _ "lit ''a.y''"] json_descend.simps [of _ _ "[121]"]
  using assms
  by (simp add: lit_def split_at_dot_def HAL_Malloc_def strlen_at.simps json_get_value_by_name_def
    json_parse_name_value_def json_get_object.simps json_for_each_kv.simps json_get_next_object_def strchr_at.simps
    json_get_value_def find_value.simps value_length.simps is_digit_def json_get_value_by_name_cb_def arr_get_def
    json_descend.simps copy_value_def)

text \<open>A text that ends inside a string: the search goes on behind its terminator.\<close>

lemma unterminated_string_overruns:
  "json_get_value_by_name (lit ''{\"a\":\"'' @ [0]) 0 6 (lit ''b'') True True = None"
  by (simp add: lit_def strlen_at.simps json_get_value_by_name_def
    json_parse_name_value_def json_get_object.simps json_for_each_kv.simps json_get_next_object_def strchr_at.simps
    json_get_value_def find_value.simps value_length.simps is_digit_def json_get_value_by_name_cb_def arr_get_def)

end
