(* ===== verification/Json_Bounds.thy ===== *)
theory Json_Bounds
  imports Json_Lookup
begin

text \<open>
  Where the JSON reader reads, on any text at all: never behind the terminator, and to an end,
  unless the text breaks off right after a quote.
\<close>

declare arr_get_Some [simp del]

definition nul_at :: "bytes \<Rightarrow> nat \<Rightarrow> bool" where
  "nul_at mem e \<longleftrightarrow> e < length mem \<and> mem ! e = 0"

lemma nul_at_get: "nul_at mem e \<Longrightarrow> i \<le> e \<Longrightarrow> arr_get mem i = Some (mem ! i)"
  by (simp add: nul_at_def arr_get_def)

lemma nul_at_less: "nul_at mem e \<Longrightarrow> i \<le> e \<Longrightarrow> mem ! i \<noteq> 0 \<Longrightarrow> Suc i \<le> e"
  by (metis Suc_leI le_neq_implies_less nul_at_def)

lemma strlen_at_total:
  assumes "nul_at mem e" "i \<le> e"
  shows "\<exists>n. strlen_at mem i = Some n \<and> i + n \<le> e"
  using assms(2)
proof (induction rule: inc_induct)
  case base
  show ?case using nul_at_get [OF assms(1) order_refl] assms(1) by (simp add: strlen_at.simps [of _ e] nul_at_def)
next
  case (step i)
  then show ?case using nul_at_get [OF assms(1), of i] by (auto simp: strlen_at.simps [of _ i])
qed

lemma strchr_at_total:
  assumes "nul_at mem e" "i \<le> e" "ch \<noteq> 0"
  shows "\<exists>r. strchr_at mem i ch = Some r \<and> (\<forall>j. r = Some j \<longrightarrow> i \<le> j \<and> j < e \<and> mem ! j = ch)"
  using assms(2)
proof (induction rule: inc_induct)
  case base
  show ?case using nul_at_get [OF assms(1) order_refl] assms(1,3) by (simp add: strchr_at.simps [of _ e] nul_at_def)
next
  case (step i)
  then show ?case using nul_at_get [OF assms(1), of i] by (auto simp: strchr_at.simps [of _ i] le_Suc_eq)
qed

lemma strncmp_eq_total:
  assumes "nul_at mem e"
  shows "\<lbrakk>i \<le> e; 0 \<notin> set name\<rbrakk> \<Longrightarrow> \<exists>b. strncmp_eq mem i name = Some b"
proof (induction name arbitrary: i)
  case (Cons c name)
  show ?case
  proof (cases "mem ! i = c")
    case True
    with Cons.prems nul_at_less [OF assms, of i] have "Suc i \<le> e" by auto
    with Cons True show ?thesis using nul_at_get [OF assms, of i] by simp
  qed (use Cons.prems nul_at_get [OF assms, of i] in auto)
qed auto

lemma strncmp_either_total:
  assumes "nul_at mem e" "i \<le> e" "0 \<notin> set s1" "0 \<notin> set s2"
  shows "\<exists>b. strncmp_either mem i s1 s2 = Some b"
  using strncmp_eq_total [OF assms(1,2,3)] strncmp_eq_total [OF assms(1,2,4)] by (auto simp: strncmp_either_def)

lemma literal_lengths:
  assumes "nul_at mem e" "v \<le> e"
  shows "\<exists>n. boolean_length mem v = Some n \<and> v + n \<le> e" "\<exists>n. null_length mem v = Some n \<and> v + n \<le> e"
proof -
  obtain n where n: "strlen_at mem v = Some n" "v + n \<le> e" using strlen_at_total [OF assms] by blast
  have lits: "0 \<notin> set (lit ''true'')" "0 \<notin> set (lit ''TRUE'')" "0 \<notin> set (lit ''false'')" "0 \<notin> set (lit ''FALSE'')"
    "0 \<notin> set (lit ''null'')" "0 \<notin> set (lit ''NULL'')" by (simp_all add: lit_def)
  note [simp] = n(1) nul_at_get [OF assms]
  obtain t f u where [simp]: "strncmp_either mem v (lit ''true'') (lit ''TRUE'') = Some t"
    "strncmp_either mem v (lit ''false'') (lit ''FALSE'') = Some f" "strncmp_either mem v (lit ''null'') (lit ''NULL'') = Some u"
    using strncmp_either_total [OF assms lits(1,2)] strncmp_either_total [OF assms lits(3,4)]
      strncmp_either_total [OF assms lits(5,6)] by blast
  show "\<exists>n. boolean_length mem v = Some n \<and> v + n \<le> e"
    using n(2) assms(2) by (auto simp: boolean_length_def simp del: arr_get_Some)
  show "\<exists>n. null_length mem v = Some n \<and> v + n \<le> e"
    using n(2) assms(2) by (auto simp: null_length_def simp del: arr_get_Some)
qed

lemma find_value_total:
  assumes "nul_at mem e" "i \<le> e"
  shows "\<exists>type v q. find_value mem i = Some (type, v, q) \<and> q \<le> e \<and> (\<forall>p. v = Some p \<longrightarrow> i \<le> p \<and> p \<le> q) \<and>
    (type = JSSTRING \<longrightarrow> v = Some q \<and> i < q \<and> mem ! (q - 1) = 0x22)"
  using assms(2)
proof (induction rule: inc_induct)
  case base
  show ?case using nul_at_get [OF assms(1) order_refl] assms(1) by (simp add: find_value.simps [of _ e] nul_at_def)
next
  case (step i)
  then have g: "arr_get mem i = Some (mem ! i)" using nul_at_get [OF assms(1), of i] by simp
  from step show ?case unfolding find_value.simps [of _ i] g by auto
qed

lemma value_length_total:
  assumes "nul_at mem e" "i \<le> e" "v \<le> i"
  shows "\<exists>n. value_length mem type v i depth = Some n \<and> v + n \<le> e \<and> (type = JSSTRING \<longrightarrow> n = 0 \<or> v + n < e)"
  using assms(2,3)
proof (induction arbitrary: depth rule: inc_induct)
  case base
  show ?case using nul_at_get [OF assms(1) order_refl] assms(1) base by (simp add: value_length.simps [of _ _ _ e] nul_at_def)
next
  case (step i)
  then have g: "arr_get mem i = Some (mem ! i)" using nul_at_get [OF assms(1), of i] by simp
  have v: "v \<le> e" "v \<le> Suc i" using step by simp_all
  from literal_lengths [OF assms(1) v(1)] step g v show ?case
    by (auto simp: value_length.simps [of _ _ _ i] simp del: arr_get_Some)
qed

lemma json_get_value_total:
  assumes "nul_at mem e" "i \<le> e" "mem ! (e - 1) \<noteq> 0x22"
  shows "\<exists>item. json_get_value mem (Some i) key = Some item \<and> item_key item = fst key \<and> item_klen item = snd key \<and>
    (\<forall>p. item_val item = Some p \<longrightarrow> i \<le> p \<and> p + item_vlen item \<le> e) \<and> (\<forall>p. item_next item = Some p \<longrightarrow> p \<le> e)"
proof -
  obtain type v q where f: "find_value mem i = Some (type, v, q)" "q \<le> e" "\<forall>p. v = Some p \<longrightarrow> i \<le> p \<and> p \<le> q"
    "type = JSSTRING \<longrightarrow> v = Some q \<and> i < q \<and> mem ! (q - 1) = 0x22"
    using find_value_total [OF assms(1,2)] by blast
  show ?thesis
  proof (cases v)
    case (Some p)
    with f(3) value_length_total [OF assms(1) f(2), of p type 0] obtain n
      where n: "value_length mem type p q 0 = Some n" "p + n \<le> e" "type = JSSTRING \<longrightarrow> n = 0 \<or> p + n < e" by auto
    have "p + n + (if type = JSSTRING then 1 else 0) \<le> e"
    proof (cases "type = JSSTRING")
      case True
      with f(4) Some assms(3) have "p \<noteq> e" by auto
      with n True show ?thesis by auto
    qed (use n in simp)
    with f n Some show ?thesis by (auto simp: json_get_value_def)
  qed (use f in \<open>auto simp: json_get_value_def\<close>)
qed

definition item_within :: "nat \<Rightarrow> nat \<Rightarrow> json_item \<Rightarrow> bool" where
  "item_within i e item \<longleftrightarrow> (\<exists>k. item_key item = Some k \<and> i < k \<and> k + item_klen item \<le> e) \<and>
     (\<forall>p. item_val item = Some p \<longrightarrow> i < p \<and> p + item_vlen item \<le> e) \<and> (\<forall>p. item_next item = Some p \<longrightarrow> p \<le> e)"

lemma json_next_total:
  assumes "nul_at mem e" "i \<le> e" "mem ! (e - 1) \<noteq> 0x22"
  shows "\<exists>r. json_get_next_object JSOBJECT mem i = Some r \<and> (\<forall>item. r = Some item \<longrightarrow> item_within i e item)"
proof -
  obtain r where r: "strchr_at mem i 0x22 = Some r" "\<forall>j. r = Some j \<longrightarrow> i \<le> j \<and> j < e"
    using strchr_at_total [OF assms(1,2), of "0x22"] by auto
  show ?thesis
  proof (cases r)
    case (Some j)
    with r have j: "i \<le> j" "Suc j \<le> e" by auto
    obtain r' where r': "strchr_at mem (Suc j) 0x22 = Some r'" "\<forall>k. r' = Some k \<longrightarrow> Suc j \<le> k \<and> k < e"
      using strchr_at_total [OF assms(1) j(2), of "0x22"] by auto
    show ?thesis
    proof (cases r')
      case k: (Some k)
      with r' have "Suc j \<le> k" "k \<le> e" by auto
      then obtain c where c: "strchr_at mem k 0x3A = Some c" "\<forall>l. c = Some l \<longrightarrow> k \<le> l \<and> l < e"
        using strchr_at_total [OF assms(1), of k "0x3A"] by auto
      show ?thesis
      proof (cases c)
        case l: (Some l)
        with c have "k \<le> l" "l \<le> e" by auto
        then show ?thesis
          using json_get_value_total [OF assms(1) \<open>l \<le> e\<close> assms(3), of "(Some (Suc j), k - Suc j)"] r(1) r'(1) c(1) Some k l j
            \<open>Suc j \<le> k\<close> \<open>k \<le> e\<close>
          by (auto simp: json_get_next_object_def item_within_def Let_def)
      qed (use r(1) r'(1) c(1) Some k j \<open>Suc j \<le> k\<close> \<open>k \<le> e\<close> in
          \<open>auto simp: json_get_next_object_def item_within_def Let_def json_get_value_def\<close>)
    qed (use r(1) r'(1) Some in \<open>simp add: json_get_next_object_def Let_def\<close>)
  qed (use r(1) in \<open>simp add: json_get_next_object_def\<close>)
qed

lemma json_get_object_total:
  assumes "nul_at mem e" "i \<le> e"
  shows "\<exists>r. json_get_object JSOBJECT mem i = Some r \<and> (\<forall>p. r = Some p \<longrightarrow> i \<le> p \<and> p \<le> e)"
  using assms(2)
proof (induction rule: inc_induct)
  case base
  show ?case using nul_at_get [OF assms(1) order_refl] assms(1) by (simp add: json_get_object.simps [of _ _ e] nul_at_def)
next
  case (step i)
  then show ?case using nul_at_get [OF assms(1), of i] by (auto simp: json_get_object.simps [of _ _ i])
qed

text \<open>
  The iteration comes to an end for every callback that keeps an invariant of its data on the
  items inside the text.
\<close>

lemma json_for_each_total:
  assumes nul: "nul_at mem e" and last: "mem ! (e - 1) \<noteq> 0x22"
    and cb: "\<And>item s i. \<lbrakk>Q s; lb \<le> i; item_within i e item\<rbrakk> \<Longrightarrow> \<exists>code s'. cb mem item s = Some (code, s') \<and> Q s'"
  shows "\<lbrakk>lb \<le> i; i \<le> e; Q s\<rbrakk> \<Longrightarrow> \<exists>ret' s'. json_for_each_kv mem cb i ret s = Some (ret', s') \<and> Q s' \<and> (ret' = JSON_RESULT_OK \<or> ret' = ret \<and> s' = s)"
proof (induction "e - i" arbitrary: i ret s rule: less_induct)
  case less
  note g = nul_at_get [OF nul less.prems(2)]
  obtain r where r: "json_get_next_object JSOBJECT mem i = Some r" "\<forall>item. r = Some item \<longrightarrow> item_within i e item"
    using json_next_total [OF nul less.prems(2) last] by blast
  show ?case
  proof (cases "mem ! i = 0 \<or> r = None \<or> (\<exists>item. r = Some item \<and> item_next item = None)")
    case True
    then show ?thesis using g r less.prems(3) by (subst json_for_each_kv.simps) auto
  next
    case False
    then obtain item p where item: "r = Some item" "item_next item = Some p" "mem ! i \<noteq> 0" by auto
    with r have within: "item_within i e item" by simp
    then have p: "i < p" "p \<le> e" using json_next_after [of mem i item p] r(1) item by (auto simp: item_within_def)
    obtain code s' where step: "cb mem item s = Some (code, s')" "Q s'"
      using cb [OF less.prems(3,1) within] by blast
    have IH: "\<exists>ret' s'. json_for_each_kv mem cb p ret s = Some (ret', s') \<and> Q s' \<and> (ret' = JSON_RESULT_OK \<or> ret' = ret \<and> s' = s)" if "Q s" for ret s
      using less.hyps [of p s ret] p less.prems(1) that by auto
    from IH [OF step(2), of JSON_RESULT_OK] IH [OF less.prems(3), of ret] show ?thesis
      using g r(1) item step by (subst json_for_each_kv.simps) auto
  qed
qed

lemma by_name_total:
  assumes "nul_at mem e" "0 \<notin> set (pN nv)" "\<forall>p. pV nv = Some p \<longrightarrow> lb < p \<and> p + vLen nv \<le> e" "lb \<le> i" "item_within i e item"
  shows "\<exists>code nv'. json_get_value_by_name_cb mem item nv = Some (code, nv') \<and>
    0 \<notin> set (pN nv') \<and> (\<forall>p. pV nv' = Some p \<longrightarrow> lb < p \<and> p + vLen nv' \<le> e)"
proof -
  obtain k where k: "item_key item = Some k" "k \<le> e" using assms(5) by (auto simp: item_within_def)
  obtain b where "strncmp_eq mem k (pN nv) = Some b" using strncmp_eq_total [OF assms(1) k(2) assms(2)] by blast
  with k assms show ?thesis by (auto simp: json_get_value_by_name_cb_def item_within_def)
qed

text \<open>
  C38: Lookup in bounds: on every text that does not end in a quote, well formed or not, looking up a
  name ends, reads nothing behind the terminator, leaves the text as it was, and the value it
  reports lies inside the text.  (A text that ends in a quote can send the search behind its
  terminator: \<open>unterminated_string_overruns\<close>.)
\<close>

theorem json_lookup_in_bounds:
  assumes "0 \<notin> set src" "src \<noteq> []" "last src \<noteq> 0x22" "0 \<notin> set name"
  shows "\<exists>value n. json_get_value_by_name (pre @ src @ 0 # post) (length pre) (length src) name True False =
      Some (value, n, None, pre @ src @ 0 # post) \<and>
    (\<forall>p. value = Some p \<longrightarrow> (\<exists>l. n = Some l \<and> length pre < p \<and> p + l \<le> length pre + length src))"
proof -
  let ?m = "pre @ src @ 0 # post" and ?e = "length pre + length src"
  define Q where "Q = (\<lambda>nv :: JSON_NV. 0 \<notin> set (pN nv) \<and> (\<forall>p. pV nv = Some p \<longrightarrow> length pre < p \<and> p + vLen nv \<le> ?e))"
  define nv where "nv = \<lparr>pN = name, vLen = 0, vType = JSSTRING, pV = None\<rparr>"
  have nul: "nul_at ?m ?e" by (simp add: nul_at_def nth_append)
  have last: "?m ! (?e - 1) \<noteq> 0x22"
    using assms(2,3) by (cases src rule: rev_cases) (auto simp: nth_append)
  have Q: "Q nv" using assms(4) by (simp add: Q_def nv_def)
  have len: "strlen_at ?m (length pre) = Some (length src)" by (rule strlen_at_text [OF assms(1)])
  obtain r where r: "json_get_object JSOBJECT ?m (length pre) = Some r" "\<forall>p. r = Some p \<longrightarrow> length pre \<le> p \<and> p \<le> ?e"
    using json_get_object_total [OF nul, of "length pre"] by auto
  have "\<exists>ret nv'. (case r of None \<Rightarrow> Some (JSON_RESULT_ERR, nv)
      | Some pos \<Rightarrow> json_for_each_kv ?m json_get_value_by_name_cb pos JSON_RESULT_ERR nv) = Some (ret, nv') \<and> Q nv' \<and>
      (ret = JSON_RESULT_OK \<or> nv' = nv)"
  proof (cases r)
    case (Some pos)
    then show ?thesis
      using json_for_each_total [OF nul last, of Q "length pre" json_get_value_by_name_cb pos nv JSON_RESULT_ERR] r(2) Q
        by_name_total [OF nul, of _ "length pre"] by (auto simp: Q_def)
  qed (use Q in simp)
  then obtain ret nv' where run: "(case r of None \<Rightarrow> Some (JSON_RESULT_ERR, nv)
      | Some pos \<Rightarrow> json_for_each_kv ?m json_get_value_by_name_cb pos JSON_RESULT_ERR nv) = Some (ret, nv')" "Q nv'"
    "ret = JSON_RESULT_OK \<or> nv' = nv" by blast
  have parse: "json_parse_name_value ?m (Some (length pre)) (length src) (Some json_get_value_by_name_cb) nv = Some (ret, ?m, nv')"
    using assms(2) len r(1) run(1) by (simp add: json_parse_name_value_def)
  have "json_get_value_by_name ?m (length pre) (length src) name True False =
    Some (pV nv', if ret = JSON_RESULT_OK then Some (vLen nv') else None, None, ?m)"
    using parse by (simp add: json_get_value_by_name_def nv_def)
  moreover have "ret = JSON_RESULT_OK" if "pV nv' \<noteq> None" using run(3) that by (auto simp: nv_def)
  ultimately show ?thesis using run(2) by (auto simp: Q_def)
qed

theorem json_lookup_in_bounds_witness:
  "\<exists>value n. json_get_value_by_name (lit ''{\"a\":}{,\"b'' @ [0]) 0 (length (lit ''{\"a\":}{,\"b'')) (lit ''b'') True False =
      Some (value, n, None, lit ''{\"a\":}{,\"b'' @ [0]) \<and>
    (\<forall>p. value = Some p \<longrightarrow> (\<exists>l. n = Some l \<and> 0 < p \<and> p + l \<le> length (lit ''{\"a\":}{,\"b'')))"
proof -
  have "0 \<notin> set (lit ''{\"a\":}{,\"b'')" "lit ''{\"a\":}{,\"b'' \<noteq> []" "last (lit ''{\"a\":}{,\"b'') \<noteq> 0x22" "0 \<notin> set (lit ''b'')"
    by (simp_all add: lit_def)
  from json_lookup_in_bounds [OF this, of "[]" "[]"] show ?thesis by simp
qed

end
