(* ===== verification/Lite_String.thy ===== *)
theory Lite_String
  imports Json_Parser
begin

text \<open>
  Hexadecimal strings (\<^verbatim>\<open>src/utils/string_utils.c\<close>).  An output array is a list that is written with
  bounds checks; \<open>in_len\<close> is not negative.
\<close>

definition zEncode :: "bool \<Rightarrow> bytes" where
  "zEncode uppercase = (if uppercase then lit ''0123456789ABCDEF'' else lit ''0123456789abcdef'')"

text \<open>\<open>n\<close> turns of the loop from \<open>i\<close> on.\<close>

fun hexbuf_loop :: "bytes \<Rightarrow> bool \<Rightarrow> nat \<Rightarrow> nat \<Rightarrow> bytes \<Rightarrow> bytes option" where
  "hexbuf_loop digest uppercase i 0 out = Some out"
| "hexbuf_loop digest uppercase i (Suc n) out = do {
     a \<leftarrow> arr_get digest i;
     out \<leftarrow> arr_set out (2 * i) (zEncode uppercase ! unat (drop_bit 4 a AND 0xF));
     out \<leftarrow> arr_set out (2 * i + 1) (zEncode uppercase ! unat (a AND 0xF));
     hexbuf_loop digest uppercase (Suc i) n out }"

definition LITE_hexbuf_convert :: "bytes \<Rightarrow> bytes \<Rightarrow> nat \<Rightarrow> bool \<Rightarrow> bytes option" where
  "LITE_hexbuf_convert digest out in_len uppercase = hexbuf_loop digest uppercase 0 in_len out"

definition hexval_of_char :: "byte \<Rightarrow> byte" where
  "hexval_of_char hex =
     (if hex \<le> 0x39 \<and> hex \<ge> 0x30 then hex - 0x30
      else if hex \<ge> 0x61 \<and> hex \<le> 0x66 then hex - 0x61 + 10
      else if hex \<ge> 0x41 \<and> hex \<le> 0x46 then hex - 0x41 + 10
      else 0)"

fun hexstr_loop :: "bytes \<Rightarrow> nat \<Rightarrow> nat \<Rightarrow> bytes \<Rightarrow> bytes option" where
  "hexstr_loop hexstr i 0 out_buf = Some out_buf"
| "hexstr_loop hexstr i (Suc n) out_buf = do {
     c0 \<leftarrow> arr_get hexstr (2 * i);
     c1 \<leftarrow> arr_get hexstr (2 * i + 1);
     out_buf \<leftarrow> arr_set out_buf i (push_bit 4 (hexval_of_char c0) OR hexval_of_char c1);
     hexstr_loop hexstr (Suc i) n out_buf }"

definition LITE_hexstr_convert :: "bytes \<Rightarrow> bytes \<Rightarrow> nat \<Rightarrow> bytes option" where
  "LITE_hexstr_convert hexstr out_buf in_len =
     (if in_len mod 2 \<noteq> 0 then Some out_buf else hexstr_loop hexstr 0 in_len out_buf)"

definition hex_pair :: "bool \<Rightarrow> byte \<Rightarrow> bytes" where
  "hex_pair uppercase a = [zEncode uppercase ! unat (drop_bit 4 a AND 0xF), zEncode uppercase ! unat (a AND 0xF)]"

lemma hexbuf_loop:
  "\<lbrakk>i + n \<le> length digest; length out = 2 * (i + n); out = concat (map (hex_pair uppercase) (take i digest)) @ rest\<rbrakk> \<Longrightarrow>
    hexbuf_loop digest uppercase i n out = Some (concat (map (hex_pair uppercase) (take (i + n) digest)))"
proof (induction n arbitrary: i out rest)
  case 0
  have "length (concat (map (hex_pair uppercase) (take i digest))) = 2 * i"
    using 0 by (simp add: length_concat comp_def hex_pair_def sum_list_triv)
  with 0 show ?case by simp
next
  case (Suc n)
  have l: "length (concat (map (hex_pair uppercase) (take i digest))) = 2 * i"
    using Suc.prems by (simp add: length_concat comp_def hex_pair_def sum_list_triv)
  obtain x y rest' where rest: "rest = x # y # rest'"
    using Suc.prems l by (cases rest; cases "tl rest") auto
  have i: "i < length digest" using Suc.prems(1) by simp
  have "out[2 * i := p, 2 * i + 1 := q] = concat (map (hex_pair uppercase) (take i digest)) @ p # q # rest'" for p q
    using l by (simp add: Suc.prems(3) rest list_update_append)
  then have out: "out[2 * i := zEncode uppercase ! unat (drop_bit 4 (digest ! i) AND 0xF),
      2 * i + 1 := zEncode uppercase ! unat (digest ! i AND 0xF)] =
    concat (map (hex_pair uppercase) (take (Suc i) digest)) @ rest'"
    using i by (simp add: take_Suc_conv_app_nth hex_pair_def)
  show ?case
    using Suc.IH [OF _ _ out] Suc.prems i by (simp add: arr_get_def arr_set_def)
qed

lemma LITE_hexbuf_convert:
  "\<lbrakk>n = length digest; length out = 2 * n\<rbrakk> \<Longrightarrow>
    LITE_hexbuf_convert digest out n uppercase = Some (concat (map (hex_pair uppercase) digest))"
  using hexbuf_loop [of 0 n digest out uppercase out] by (simp add: LITE_hexbuf_convert_def)

lemma low_nibble: "unat (a AND 0xF :: byte) < 16"
proof -
  have "(0xF :: byte) = mask 4" by (simp add: mask_eq_exp_minus_1)
  then have "unat (a AND 0xF) = take_bit 4 (unat a)"
    by (simp only: take_bit_eq_mask [symmetric] unsigned_take_bit_eq)
  then show ?thesis by (simp add: take_bit_eq_mod)
qed

lemma hexval_of_digit: "hexval_of_char (zEncode uppercase ! unat (a AND 0xF)) = a AND 0xF"
proof -
  have "list_all (\<lambda>n. hexval_of_char (zEncode True ! n) = word_of_nat n \<and> hexval_of_char (zEncode False ! n) = word_of_nat n) [0..<16]"
    by code_simp
  then have "hexval_of_char (zEncode uppercase ! n) = word_of_nat n" if "n < 16" for n
    using that by (cases uppercase) (auto simp: list_all_iff)
  from this [OF low_nibble] show ?thesis by simp
qed

lemma nibbles: "push_bit 4 (drop_bit 4 a AND 0xF) OR (a AND 0xF) = (a :: byte)"
proof -
  have "(0xF :: byte) = mask 4" by (simp add: mask_eq_exp_minus_1)
  then have "push_bit 4 (drop_bit 4 a AND 0xF) OR (a AND 0xF) = push_bit 4 (take_bit 4 (drop_bit 4 a)) OR take_bit 4 a"
    by (simp only: take_bit_eq_mask)
  also have "\<dots> = a" by (intro bit_word_eqI) (auto simp: bit_simps)
  finally show ?thesis .
qed

lemma hex_pair_value:
  "push_bit 4 (hexval_of_char (zEncode u ! unat (drop_bit 4 a AND 0xF))) OR hexval_of_char (zEncode u ! unat (a AND 0xF)) = a"
  by (simp only: hexval_of_digit nibbles)

lemma arr_get_Cons: "arr_get (x # xs) 0 = Some x" "arr_get (x # xs) (Suc i) = arr_get xs i"
  by (simp_all add: arr_get_def)

lemma hex_pair_nth:
  assumes "i < length bs"
  shows "arr_get (concat (map (hex_pair u) bs) @ ys) (2 * i) = Some (zEncode u ! unat (drop_bit 4 (bs ! i) AND 0xF))"
    "arr_get (concat (map (hex_pair u) bs) @ ys) (Suc (2 * i)) = Some (zEncode u ! unat (bs ! i AND 0xF))"
  using assms
  by (induction bs arbitrary: i)
    (auto simp: less_Suc_eq_0_disj hex_pair_def arr_get_Cons simp del: arr_get_Some)

lemma hexstr_loop:
  "\<lbrakk>i + n = length bs; length out_buf = length bs; take i out_buf = take i bs\<rbrakk> \<Longrightarrow>
    hexstr_loop (concat (map (hex_pair u) bs) @ ys) i n out_buf = Some bs"
proof (induction n arbitrary: i out_buf)
  case (Suc n)
  then have i: "i < length bs" by simp
  have "take (Suc i) (out_buf[i := bs ! i]) = take (Suc i) bs"
    using Suc.prems i by (simp add: take_Suc_conv_app_nth)
  with Suc.IH [of "Suc i" "out_buf[i := bs ! i]"] Suc.prems i show ?case
    by (simp add: hex_pair_nth hex_pair_value arr_set_def del: arr_get_Some)
qed simp

text \<open>
  Hexadecimal round trip: the digits \<open>LITE_hexbuf_convert\<close> writes for an even number of bytes are
  read back by \<open>LITE_hexstr_convert\<close> as those bytes, in either case of letters, when its length
  argument is the number of bytes; for an odd number the output is left alone.
\<close>

lemma hex_round_trip:
  assumes "length out = 2 * length bs" "length out_buf = length bs"
  shows "\<exists>digits. LITE_hexbuf_convert bs out (length bs) uppercase = Some digits \<and>
    LITE_hexstr_convert digits out_buf (length bs) = Some (if even (length bs) then bs else out_buf)"
  using LITE_hexbuf_convert [OF refl assms(1)] hexstr_loop [of 0 "length bs" bs out_buf uppercase "[]"] assms(2)
  by (auto simp: LITE_hexstr_convert_def mod2_eq_if)

text \<open>With the length of the string, which the name and the message of the code suggest, it reads past its end.\<close>

lemma hexstr_length_overruns: "LITE_hexstr_convert (lit ''0102'') [0, 0] 4 = None"
  by code_simp

end
