(* ===== verification/Text_Format.thy ===== *)
theory Text_Format
  imports Json_Parser
begin

text \<open>
  Numbers as text, as far as the program uses \<open>HAL_Snprintf\<close> and \<open>sscanf\<close> for them: the conversions
  \<open>%d\<close>, \<open>%u\<close> and \<open>%i\<close>, and the functions \<open>LITE_get_*\<close> of \<^verbatim>\<open>src/utils/json_token.c\<close>.
  A number is reduced to the width of its variable, as the C library does for numbers that fit a \<open>long\<close>.
\<close>

subsection \<open>Printing\<close>

fun decimal_nat :: "nat \<Rightarrow> bytes" where
  "decimal_nat n = (if n < 10 then [0x30 + word_of_nat n] else decimal_nat (n div 10) @ [0x30 + word_of_nat (n mod 10)])"

declare decimal_nat.simps [simp del]

definition decimal :: "int \<Rightarrow> bytes" where
  "decimal i = (if i < 0 then 0x2D # decimal_nat (nat (- i)) else decimal_nat (nat i))"

text \<open>
  \<open>HAL_Snprintf(buf + off, size, ...)\<close> with the text that the format makes: the return value, and the array, in
  which at most \<open>size\<close> bytes are written.
\<close>

definition snprintf_at :: "bytes \<Rightarrow> nat \<Rightarrow> 64 word \<Rightarrow> bytes \<Rightarrow> (nat \<times> bytes) option" where
  "snprintf_at buf off sz txt =
     (if sz = 0 then Some (length txt, buf)
      else do {
        (buf, _) \<leftarrow> put_bytes (buf, off) (take (unat sz - 1) txt @ [0]);
        Some (length txt, buf) })"

subsection \<open>Scanning\<close>

definition skip_blanks :: "bytes \<Rightarrow> bytes" where
  "skip_blanks = dropWhile (\<lambda>c. c \<in> {0x20, 0x09, 0x0A, 0x0B, 0x0C, 0x0D})"

definition scan_sign :: "bytes \<Rightarrow> bool \<times> bytes" where
  "scan_sign s = (s \<noteq> [] \<and> hd s = 0x2D, if s \<noteq> [] \<and> (hd s = 0x2D \<or> hd s = 0x2B) then tl s else s)"

definition digit_value :: "byte \<Rightarrow> nat" where
  "digit_value c =
     (if is_digit c then unat (c - 0x30)
      else if 0x41 \<le> c \<and> c \<le> 0x46 then unat (c - 0x41) + 10
      else if 0x61 \<le> c \<and> c \<le> 0x66 then unat (c - 0x61) + 10 else 16)"

definition scan_digits :: "nat \<Rightarrow> bytes \<Rightarrow> int option" where
  "scan_digits base s =
     (let ds = takeWhile (\<lambda>c. digit_value c < base) s
      in if ds = [] then None else Some (foldl (\<lambda>n c. n * int base + int (digit_value c)) 0 ds))"

definition scan_signed :: "nat \<Rightarrow> bool \<Rightarrow> bytes \<Rightarrow> int option" where
  "scan_signed base neg s = map_option (\<lambda>n. if neg then - n else n) (scan_digits base s)"

text \<open>\<open>%u\<close>, and \<open>%i\<close>, which takes the base from the prefix.\<close>

definition scan_u :: "bytes \<Rightarrow> int option" where
  "scan_u s = (let (neg, s) = scan_sign (skip_blanks s) in scan_signed 10 neg s)"

definition scan_i :: "bytes \<Rightarrow> int option" where
  "scan_i s =
     (let (neg, s) = scan_sign (skip_blanks s)
      in if length s \<ge> 2 \<and> s ! 0 = 0x30 \<and> s ! 1 \<in> {0x58, 0x78} then
           (if digit_value (cstr_at s 2) < 16 then scan_signed 16 neg (drop 2 s) else Some 0)
         else if s \<noteq> [] \<and> hd s = 0x30 then scan_signed 8 neg s
         else scan_signed 10 neg s)"

text \<open>The value stored, if a number was found.  For eight bits the value is scanned with sixteen.\<close>

definition LITE_get_int32 :: "bytes \<Rightarrow> 32 word option" where "LITE_get_int32 src = map_option word_of_int (scan_i src)"
definition LITE_get_int16 :: "bytes \<Rightarrow> 16 word option" where "LITE_get_int16 src = map_option word_of_int (scan_i src)"
definition LITE_get_int8 :: "bytes \<Rightarrow> 8 word option" where "LITE_get_int8 src = map_option ucast (LITE_get_int16 src)"
definition LITE_get_uint32 :: "bytes \<Rightarrow> 32 word option" where "LITE_get_uint32 src = map_option word_of_int (scan_u src)"
definition LITE_get_uint16 :: "bytes \<Rightarrow> 16 word option" where "LITE_get_uint16 src = map_option word_of_int (scan_u src)"
definition LITE_get_uint8 :: "bytes \<Rightarrow> 8 word option" where "LITE_get_uint8 src = map_option ucast (LITE_get_uint16 src)"
definition LITE_get_boolean :: "bytes \<Rightarrow> bool" where "LITE_get_boolean src = (src \<noteq> [0x30])"

end
