(* ===== verification/Ota_Lib.thy ===== *)
theory Ota_Lib
  imports Json_Token Text_Format Utils_Md5 Mqtt_Api
begin

text \<open>
  Firmware update, the data and the layers below the client: \<^verbatim>\<open>src/ota/src/ota_lib.c\<close> (fields of the
  messages), \<^verbatim>\<open>ota_mqtt.c\<close> (the signal channel) and \<^verbatim>\<open>ota_fetch.c\<close> (the download channel).

  \<^item> A handle is the record \<open>OTA_Struct_t\<close>: the fields of the C structure together with those of the signal
    channel \<open>OTA_MQTT_Struct_t\<close> and the MQTT client it talks through.
  \<^item> Strings are lists of characters without NUL, \<open>None\<close> for NULL.  A \<open>%s\<close> for NULL has no result.
  \<^item> The answers of the HTTP client (\<^verbatim>\<open>src/utils/utils_httpc.c\<close>) and of the flash functions of the
    platform are scripts in the handle, so that a theorem about all handles is one about all answers.
    When a script is used up, connecting works, requests time out and the flash works.
  \<^item> The download channel is an allocated object: \<open>ch_fetch\<close> says whether the pointer is NULL, points to
    a live object or to one that is freed.  Using it in the last two cases has no result.
\<close>

subsection \<open>Data\<close>

datatype IOT_OTA_State = OTA_STATE_UNINITED | OTA_STATE_INITED | OTA_STATE_FETCHING | OTA_STATE_FETCHED
  | OTA_STATE_DISCONNECTED

text \<open>The states are numbers that the code compares.\<close>

fun ota_state_code :: "IOT_OTA_State \<Rightarrow> nat" where
  "ota_state_code OTA_STATE_UNINITED = 0" | "ota_state_code OTA_STATE_INITED = 1"
| "ota_state_code OTA_STATE_FETCHING = 2" | "ota_state_code OTA_STATE_FETCHED = 3"
| "ota_state_code OTA_STATE_DISCONNECTED = 4"

instantiation IOT_OTA_State :: linorder
begin

definition less_eq_IOT_OTA_State :: "IOT_OTA_State \<Rightarrow> IOT_OTA_State \<Rightarrow> bool" where
  "less_eq_IOT_OTA_State a b \<longleftrightarrow> ota_state_code a \<le> ota_state_code b"

definition less_IOT_OTA_State :: "IOT_OTA_State \<Rightarrow> IOT_OTA_State \<Rightarrow> bool" where
  "less_IOT_OTA_State a b \<longleftrightarrow> ota_state_code a < ota_state_code b"

instance
proof
  fix a b :: IOT_OTA_State
  show "a \<le> b \<Longrightarrow> b \<le> a \<Longrightarrow> a = b"
    unfolding less_eq_IOT_OTA_State_def by (cases a; cases b) simp_all
qed (auto simp: less_eq_IOT_OTA_State_def less_IOT_OTA_State_def)

end

abbreviation (input) OTA_REPORT_SIGNATURE_EXPIRED :: int where "OTA_REPORT_SIGNATURE_EXPIRED \<equiv> -2"
abbreviation (input) OTA_REPORT_FIRMWARE_NOT_EXIST :: int where "OTA_REPORT_FIRMWARE_NOT_EXIST \<equiv> -1"
abbreviation (input) OTA_REPORT_DOWNLOAD_TIMEOUT :: int where "OTA_REPORT_DOWNLOAD_TIMEOUT \<equiv> -3"
abbreviation (input) OTA_REPORT_MD5_MISMATCH :: int where "OTA_REPORT_MD5_MISMATCH \<equiv> -4"
abbreviation (input) OTA_REPORT_DOWNLOADING :: int where "OTA_REPORT_DOWNLOADING \<equiv> 1"
abbreviation (input) OTA_REPORT_BURNING :: int where "OTA_REPORT_BURNING \<equiv> 2"
abbreviation (input) OTA_REPORT_SUCCESS :: int where "OTA_REPORT_SUCCESS \<equiv> 3"
abbreviation (input) OTA_REQUEST_FIRMWARE :: int where "OTA_REQUEST_FIRMWARE \<equiv> 4"
abbreviation (input) OTA_REPORT_VERSION :: int where "OTA_REPORT_VERSION \<equiv> 5"

abbreviation (input) ERR_HTTP_CONN_ERROR :: int where "ERR_HTTP_CONN_ERROR \<equiv> -8"
abbreviation (input) ERR_HTTP_AUTH_ERROR :: int where "ERR_HTTP_AUTH_ERROR \<equiv> -9"
abbreviation (input) ERR_HTTP_NOT_FOUND :: int where "ERR_HTTP_NOT_FOUND \<equiv> -10"
abbreviation (input) ERR_HTTP_TIMEOUT :: int where "ERR_HTTP_TIMEOUT \<equiv> -11"
abbreviation (input) ERR_OTA_GENERAL_FAILURE :: int where "ERR_OTA_GENERAL_FAILURE \<equiv> -301"
abbreviation (input) ERR_OTA_INVALID_PARAM :: int where "ERR_OTA_INVALID_PARAM \<equiv> -302"
abbreviation (input) ERR_OTA_INVALID_STATE :: int where "ERR_OTA_INVALID_STATE \<equiv> -303"
abbreviation (input) ERR_OTA_STR_TOO_LONG :: int where "ERR_OTA_STR_TOO_LONG \<equiv> -304"
abbreviation (input) ERR_OTA_FETCH_FAILED :: int where "ERR_OTA_FETCH_FAILED \<equiv> -305"
abbreviation (input) ERR_OTA_FILE_NOT_EXIST :: int where "ERR_OTA_FILE_NOT_EXIST \<equiv> -306"
abbreviation (input) ERR_OTA_FETCH_AUTH_FAIL :: int where "ERR_OTA_FETCH_AUTH_FAIL \<equiv> -307"
abbreviation (input) ERR_OTA_FETCH_TIMEOUT :: int where "ERR_OTA_FETCH_TIMEOUT \<equiv> -308"
abbreviation (input) ERR_OTA_NO_MEMORY :: int where "ERR_OTA_NO_MEMORY \<equiv> -309"
abbreviation (input) ERR_OTA_OSC_FAILED :: int where "ERR_OTA_OSC_FAILED \<equiv> -310"
abbreviation (input) ERR_OTA_MD5_MISMATCH :: int where "ERR_OTA_MD5_MISMATCH \<equiv> -311"

text \<open>An answer of the HTTP client to a request for a part of the file.\<close>

datatype http_answer = HttpSendFailed int | HttpRecvFailed int | HttpData bytes

datatype fetch_pointer = Fetch_NULL | Fetch_live | Fetch_freed

text \<open>
  After the fields of the C structures: the scripts, the bytes written to the flash, the calls of
  \<open>fetch_callback_func\<close> and what \<open>HAL_Snprintf\<close> finds where two of its arguments are missing.
\<close>

record OTA_Struct_t =
  ota_state :: IOT_OTA_State
  size_last_fetched :: "32 word"
  size_fetched :: "32 word"
  size_file :: "32 word"
  ota_url :: "bytes option"
  download_name :: "bytes option"
  ota_module :: "bytes option"
  ota_version :: "bytes option"
  md5sum :: "bytes option"
  ota_md5 :: "md5_context option"
  ch_fetch :: fetch_pointer
  ota_err :: int
  report_timer :: Timer
  fetch_callback_func :: bool
  osc_product_sn :: bytes
  osc_device_sn :: bytes
  msg_list :: "bytes list option"
  ota_mqtt :: UIoT_Client
  http_connects :: "int list"
  http_rx :: "http_answer list"
  flash_rx :: "bool list"
  flash :: bytes
  fetch_events :: "int list"
  missing_args :: "(bytes \<times> bytes) option"

type_synonym 'r ota = "('r \<times> OTA_Struct_t) option"

definition OTA_UPSTREAM_MSG_BUF_LEN :: nat where "OTA_UPSTREAM_MSG_BUF_LEN = 129"
definition OTA_TOPIC_BUF_LEN :: nat where "OTA_TOPIC_BUF_LEN = 129"
definition OTA_REPORT_PROGRESS_INTERVAL :: nat where "OTA_REPORT_PROGRESS_INTERVAL = 5"

definition ota_malloc :: "OTA_Struct_t \<Rightarrow> bool \<times> OTA_Struct_t" where
  "ota_malloc h = (let (ok, c) = HAL_Malloc (ota_mqtt h) in (ok, h\<lparr>ota_mqtt := c\<rparr>))"

subsection \<open>The library functions: \<^verbatim>\<open>ota_lib.c\<close>\<close>

definition ota_lib_md5_init :: "OTA_Struct_t \<Rightarrow> OTA_Struct_t" where
  "ota_lib_md5_init h = (let (ok, h) = ota_malloc h
     in h\<lparr>ota_md5 := if ok then Some (utils_md5_starts utils_md5_init) else None\<rparr>)"

definition ota_lib_md5_update :: "bytes \<Rightarrow> OTA_Struct_t \<Rightarrow> OTA_Struct_t option" where
  "ota_lib_md5_update buf h = do {
     ctx \<leftarrow> ota_md5 h;
     ctx \<leftarrow> utils_md5_update ctx buf;
     Some (h\<lparr>ota_md5 := Some ctx\<rparr>) }"

definition ota_lib_md5_finalize :: "OTA_Struct_t \<Rightarrow> bytes ota" where
  "ota_lib_md5_finalize h = do {
     ctx \<leftarrow> ota_md5 h;
     (digits, ctx) \<leftarrow> utils_md5_finish_hb2hex ctx;
     Some (digits, h\<lparr>ota_md5 := Some ctx\<rparr>) }"

definition ota_lib_md5_deinit :: "OTA_Struct_t \<Rightarrow> OTA_Struct_t" where
  "ota_lib_md5_deinit h = h\<lparr>ota_md5 := None\<rparr>"

text \<open>\<open>LITE_json_value_of\<close> on a message, a C string.\<close>

definition ota_json_value :: "bytes \<Rightarrow> bytes \<Rightarrow> OTA_Struct_t \<Rightarrow> bytes option ota" where
  "ota_json_value key json h = do {
     (value, _, c) \<leftarrow> LITE_json_value_of key (json @ [0]) 0 (ota_mqtt h);
     Some (value, h\<lparr>ota_mqtt := c\<rparr>) }"

definition ota_lib_get_msg_type :: "bytes \<Rightarrow> OTA_Struct_t \<Rightarrow> (int \<times> bytes option) ota" where
  "ota_lib_get_msg_type json h = do {
     (type, h) \<leftarrow> ota_json_value (lit ''Method'') json h;
     Some ((if type = None then ERR_OTA_GENERAL_FAILURE else SUCCESS_RET, type), h) }"

definition ota_lib_get_msg_module_ver ::
  "bytes \<Rightarrow> OTA_Struct_t \<Rightarrow> (int \<times> bytes option \<times> bytes option) ota" where
  "ota_lib_get_msg_module_ver json h = do {
     (module, h) \<leftarrow> ota_json_value (lit ''Payload.Module'') json h;
     if module = None then Some ((ERR_OTA_GENERAL_FAILURE, None, None), h)
     else do {
       (ver, h) \<leftarrow> ota_json_value (lit ''Payload.Version'') json h;
       Some ((if ver = None then ERR_OTA_GENERAL_FAILURE else SUCCESS_RET, module, ver), h) } }"

definition store_file_size :: "bytes option \<Rightarrow> OTA_Struct_t \<Rightarrow> int \<times> OTA_Struct_t" where
  "store_file_size file_size_str h = (case file_size_str of
     None \<Rightarrow> (ERR_OTA_GENERAL_FAILURE, h)
   | Some s \<Rightarrow> (case LITE_get_uint32 s of
       None \<Rightarrow> (ERR_OTA_GENERAL_FAILURE, h)
     | Some n \<Rightarrow> (SUCCESS_RET, h\<lparr>size_file := n\<rparr>)))"

text \<open>
  Each field is replaced as soon as its value is found.  The name of the partition comes from a
  function of the platform, \<open>name_set\<close>.
\<close>

definition ota_lib_get_params :: "(bytes \<Rightarrow> bytes option) \<Rightarrow> bytes \<Rightarrow> OTA_Struct_t \<Rightarrow> int ota" where
  "ota_lib_get_params name_set json h = do {
     (v, h) \<leftarrow> ota_json_value (lit ''Payload.Module'') json h;
     if v = None then Some (ERR_OTA_GENERAL_FAILURE, h)
     else do {
       let h = h\<lparr>ota_module := v\<rparr>;
       (v, h) \<leftarrow> ota_json_value (lit ''Payload.Version'') json h;
       if v = None then Some (ERR_OTA_GENERAL_FAILURE, h)
       else do {
         let h = h\<lparr>ota_version := v\<rparr>;
         (v, h) \<leftarrow> ota_json_value (lit ''Payload.URL'') json h;
         if v = None then Some (ERR_OTA_GENERAL_FAILURE, h)
         else do {
           let h = h\<lparr>ota_url := v, download_name := Option.bind v name_set\<rparr>;
           (v, h) \<leftarrow> ota_json_value (lit ''Payload.MD5'') json h;
           if v = None then Some (ERR_OTA_GENERAL_FAILURE, h)
           else do {
             let h = h\<lparr>md5sum := v\<rparr>;
             (v, h) \<leftarrow> ota_json_value (lit ''Payload.Size'') json h;
             Some (store_file_size v h) } } } } }"

text \<open>
  The text of an upstream message.  The template for a failure has places for the error code, the
  module and the version, but only the error code is given; \<open>garbage\<close> is what the C library prints
  for the other two, if anything.
\<close>

definition upstream_text ::
  "(bytes \<times> bytes) option \<Rightarrow> bytes option \<Rightarrow> bytes option \<Rightarrow> int \<Rightarrow> int \<Rightarrow> bytes option" where
  "upstream_text garbage module version progress reportType =
     (let about = (\<lambda>prefix suffix. do { m \<leftarrow> module; v \<leftarrow> version;
            Some (prefix @ lit ''\"Module\":\"'' @ m @ lit ''\", \"Version\":\"'' @ v @ lit ''\"'' @ suffix) });
          progress_text = (\<lambda>state. about (lit ''{\"Method\": \"report_progress\", \"Payload\": {\"State\":\"'' @ lit state @
            lit ''\", \"Percent\":'' @ decimal progress @ lit '', '') (lit '' }}''))
      in if reportType < 0 then
           map_option (\<lambda>(m, v). lit ''{\"Method\": \"report_fail\", \"Payload\": {\"ErrCode\": '' @ decimal reportType @
             lit '', \"Module\":\"'' @ m @ lit ''\", \"Version\":\"'' @ v @ lit ''\"}}'') garbage
         else if reportType = OTA_REPORT_DOWNLOADING then progress_text ''downloading''
         else if reportType = OTA_REPORT_BURNING then progress_text ''burning''
         else if reportType = OTA_REPORT_SUCCESS then about (lit ''{\"Method\": \"report_success\", \"Payload\":{'') (lit ''}}'')
         else if reportType = OTA_REQUEST_FIRMWARE then about (lit ''{\"Method\": \"request_firmware\", \"Payload\":{'') (lit ''}}'')
         else about (lit ''{\"Method\": \"report_version\", \"Payload\":{'') (lit ''}}''))"

definition ota_lib_gen_upstream_msg ::
  "nat \<Rightarrow> bytes option \<Rightarrow> bytes option \<Rightarrow> int \<Rightarrow> int \<Rightarrow> OTA_Struct_t \<Rightarrow> (int + bytes) option" where
  "ota_lib_gen_upstream_msg bufLen module version progress reportType h =
     (if reportType < -6 \<or> reportType = 0 \<or> reportType > 5 then Some (Inl ERR_OTA_GENERAL_FAILURE)
      else do {
        msg \<leftarrow> upstream_text (missing_args h) module version progress reportType;
        Some (if length msg \<ge> bufLen then Inl ERR_OTA_STR_TOO_LONG else Inr msg) })"

subsection \<open>The signal channel: \<^verbatim>\<open>ota_mqtt.c\<close>\<close>

definition ota_mqtt_gen_topic_name :: "nat \<Rightarrow> string \<Rightarrow> bytes \<Rightarrow> bytes \<Rightarrow> int + bytes" where
  "ota_mqtt_gen_topic_name buf_len ota_topic_type psn dsn =
     (let topic = str ''/$system/'' @ psn @ str ''/'' @ dsn @ str ''/ota/'' @ str ota_topic_type
      in if length topic \<ge> buf_len then Inl ERR_OTA_GENERAL_FAILURE else Inr topic)"

definition ota_mqtt_publish :: "string \<Rightarrow> nat \<Rightarrow> bytes \<Rightarrow> OTA_Struct_t \<Rightarrow> int ota" where
  "ota_mqtt_publish topic_type qos msg h =
     (case ota_mqtt_gen_topic_name OTA_TOPIC_BUF_LEN topic_type (osc_product_sn h) (osc_device_sn h) of
        Inl _ \<Rightarrow> Some (ERR_OTA_GENERAL_FAILURE, h)
      | Inr topic_name \<Rightarrow> do {
          ((ret, _), c) \<leftarrow> uiot_mqtt_publish topic_name
             \<lparr>pp_qos = (if qos = 0 then QOS0 else QOS1), pp_retained = 0, pp_id = 0, pp_payload = Some msg\<rparr> (ota_mqtt h);
          Some (if ret < 0 then ERR_OTA_OSC_FAILED else ret, h\<lparr>ota_mqtt := c\<rparr>) })"

definition osc_report_progress :: "bytes \<Rightarrow> OTA_Struct_t \<Rightarrow> int ota" where
  "osc_report_progress = ota_mqtt_publish ''upstream'' 0"

definition osc_upstream_publish :: "bytes \<Rightarrow> OTA_Struct_t \<Rightarrow> int ota" where
  "osc_upstream_publish = ota_mqtt_publish ''upstream'' 1"

subsection \<open>The download channel: \<^verbatim>\<open>ota_fetch.c\<close>\<close>

text \<open>
  The structure is allocated and cleared; the URL it keeps is that of the handle.
\<close>

definition ofc_init :: "OTA_Struct_t \<Rightarrow> OTA_Struct_t" where
  "ofc_init h = (let (ok, h) = ota_malloc h in h\<lparr>ch_fetch := if ok then Fetch_live else Fetch_NULL\<rparr>)"

definition ofc_connect :: "OTA_Struct_t \<Rightarrow> int ota" where
  "ofc_connect h =
     (if ch_fetch h \<noteq> Fetch_live then None
      else case http_connects h of
        [] \<Rightarrow> Some (SUCCESS_RET, h)
      | rc # rcs \<Rightarrow> Some (rc, h\<lparr>http_connects := rcs\<rparr>))"

text \<open>
  A request for the part of the file that begins at \<open>size_fetched\<close>, and its answer: the result of
  the function with the buffer.
\<close>

definition ofc_fetch :: "bytes \<Rightarrow> OTA_Struct_t \<Rightarrow> (int \<times> bytes) ota" where
  "ofc_fetch buf h =
     (if ch_fetch h \<noteq> Fetch_live then None
      else case http_rx h of
        [] \<Rightarrow> Some ((ERR_OTA_FETCH_TIMEOUT, buf), h)
      | answer # rest \<Rightarrow>
          let h = h\<lparr>http_rx := rest\<rparr> in
          (case answer of
             HttpSendFailed rc \<Rightarrow> Some ((rc, buf), h)
           | HttpRecvFailed rc \<Rightarrow>
               Some ((if rc = ERR_HTTP_NOT_FOUND then ERR_OTA_FILE_NOT_EXIST
                      else if rc = ERR_HTTP_AUTH_ERROR then ERR_OTA_FETCH_AUTH_FAIL
                      else if rc = ERR_HTTP_TIMEOUT then ERR_OTA_FETCH_TIMEOUT
                      else rc, buf), h)
           | HttpData bs \<Rightarrow> do { (buf, _) \<leftarrow> put_bytes (buf, 0) bs; Some ((int (length bs), buf), h) }))"

text \<open>\<open>http_client_close\<close> reads the structure before the check for NULL.\<close>

definition ofc_deinit :: "OTA_Struct_t \<Rightarrow> OTA_Struct_t option" where
  "ofc_deinit h = (if ch_fetch h \<noteq> Fetch_live then None else Some (h\<lparr>ch_fetch := Fetch_freed\<rparr>))"

end
