(* ===== verification/Ota_Client.thy ===== *)
theory Ota_Client
  imports Ota_Lib
begin

text \<open>
  Firmware update, \<^verbatim>\<open>src/ota/src/ota_client.c\<close>: the reports to the cloud, fetching with retries,
  the download into the flash, and what a message of the cloud does.

  \<^item> A handle that is passed to a function is not NULL.
  \<^item> While the MQTT client yields, messages may arrive and change the handle; \<open>deliver\<close>, an argument
    of what yields, says how.  \<open>ota_callback\<close> is what one message does.
  \<^item> The terminator that ends a message is not part of its payload; the model copies the payload up to
    its first NUL.
\<close>

subsection \<open>Reports\<close>

text \<open>The common end of the reports: send \<open>msg\<close>, or keep the error in the handle.\<close>

definition send_report ::
  "(bytes \<Rightarrow> OTA_Struct_t \<Rightarrow> int ota) \<Rightarrow> int + bytes \<Rightarrow> OTA_Struct_t \<Rightarrow> int ota" where
  "send_report send msg h = (case msg of
     Inl ret \<Rightarrow> Some (ret, h\<lparr>ota_err := ret\<rparr>)
   | Inr msg \<Rightarrow> do {
       (ret, h) \<leftarrow> send msg h;
       Some (ret, if ret < 0 then h\<lparr>ota_err := ret\<rparr> else h) })"

definition IOT_OTA_ReportProgress :: "int \<Rightarrow> int \<Rightarrow> OTA_Struct_t \<Rightarrow> int ota" where
  "IOT_OTA_ReportProgress progress state h =
     (if ota_state h = OTA_STATE_UNINITED
      then Some (ERR_OTA_INVALID_STATE, h\<lparr>ota_err := ERR_OTA_INVALID_STATE\<rparr>)
      else if progress < 0 \<or> progress > 100
      then Some (ERR_OTA_INVALID_PARAM, h\<lparr>ota_err := ERR_OTA_INVALID_PARAM\<rparr>)
      else do {
        let (ok, h) = ota_malloc h;
        if \<not> ok then Some (ERR_OTA_NO_MEMORY, h\<lparr>ota_err := ERR_OTA_NO_MEMORY\<rparr>)
        else do {
          msg \<leftarrow> ota_lib_gen_upstream_msg OTA_UPSTREAM_MSG_BUF_LEN (ota_module h) (ota_version h) progress state h;
          send_report osc_report_progress msg h } })"

definition send_upstream_msg_with_version ::
  "bytes option \<Rightarrow> bytes option \<Rightarrow> int \<Rightarrow> OTA_Struct_t \<Rightarrow> int ota" where
  "send_upstream_msg_with_version module version reportType h = (case version of
     None \<Rightarrow> Some (ERR_OTA_INVALID_PARAM, h)
   | Some ver \<Rightarrow>
      if ota_state h = OTA_STATE_UNINITED
      then Some (ERR_OTA_INVALID_STATE, h\<lparr>ota_err := ERR_OTA_INVALID_STATE\<rparr>)
      else if length ver < 1 \<or> length ver > 32
      then Some (ERR_OTA_INVALID_PARAM, h\<lparr>ota_err := ERR_OTA_INVALID_PARAM\<rparr>)
      else do {
        let (ok, h) = ota_malloc h;
        if \<not> ok then Some (ERR_OTA_NO_MEMORY, h\<lparr>ota_err := ERR_OTA_NO_MEMORY\<rparr>)
        else do {
          msg \<leftarrow> ota_lib_gen_upstream_msg OTA_UPSTREAM_MSG_BUF_LEN module version 0 reportType h;
          send_report osc_upstream_publish msg h } })"

definition IOT_OTA_ReportVersion :: "bytes option \<Rightarrow> bytes option \<Rightarrow> OTA_Struct_t \<Rightarrow> int ota" where
  "IOT_OTA_ReportVersion module version = send_upstream_msg_with_version module version OTA_REPORT_VERSION"

definition IOT_OTA_RequestFirmware :: "bytes option \<Rightarrow> bytes option \<Rightarrow> OTA_Struct_t \<Rightarrow> int ota" where
  "IOT_OTA_RequestFirmware module version = send_upstream_msg_with_version module version OTA_REQUEST_FIRMWARE"

definition call_fetch_callback :: "int \<Rightarrow> OTA_Struct_t \<Rightarrow> OTA_Struct_t" where
  "call_fetch_callback e h = (if fetch_callback_func h then h\<lparr>fetch_events := fetch_events h @ [e]\<rparr> else h)"

definition IOT_OTA_ReportSuccess :: "bytes option \<Rightarrow> OTA_Struct_t \<Rightarrow> int ota" where
  "IOT_OTA_ReportSuccess version h =
     (let h = call_fetch_callback OTA_REPORT_SUCCESS h
      in send_upstream_msg_with_version (ota_module h) version OTA_REPORT_SUCCESS h)"

definition IOT_OTA_ReportFail :: "int \<Rightarrow> OTA_Struct_t \<Rightarrow> int ota" where
  "IOT_OTA_ReportFail err_code h =
     (if ota_state h = OTA_STATE_UNINITED
      then Some (ERR_OTA_INVALID_STATE, h\<lparr>ota_err := ERR_OTA_INVALID_STATE\<rparr>)
      else do {
        let (ok, h) = ota_malloc h;
        if \<not> ok then Some (ERR_OTA_NO_MEMORY, h\<lparr>ota_err := ERR_OTA_NO_MEMORY\<rparr>)
        else do {
          msg \<leftarrow> ota_lib_gen_upstream_msg OTA_UPSTREAM_MSG_BUF_LEN (ota_module h) (Some []) 0 err_code h;
          (ret, h) \<leftarrow> send_report osc_upstream_publish msg h;
          Some (ret, if isl msg \<or> ret < 0 then h else call_fetch_callback err_code h) } })"

definition IOT_OTA_IsFetching :: "OTA_Struct_t \<Rightarrow> bool \<times> OTA_Struct_t" where
  "IOT_OTA_IsFetching h =
     (if ota_state h = OTA_STATE_UNINITED then (False, h\<lparr>ota_err := ERR_OTA_INVALID_STATE\<rparr>)
      else (ota_state h = OTA_STATE_FETCHING, h))"

definition IOT_OTA_IsFetchFinish :: "OTA_Struct_t \<Rightarrow> bool \<times> OTA_Struct_t" where
  "IOT_OTA_IsFetchFinish h =
     (if ota_state h = OTA_STATE_UNINITED then (False, h\<lparr>ota_err := ERR_OTA_INVALID_STATE\<rparr>)
      else (ota_state h = OTA_STATE_FETCHED, h))"

definition IOT_OTA_GetLastError :: "OTA_Struct_t \<Rightarrow> int" where
  "IOT_OTA_GetLastError h = ota_err h"

subsection \<open>Queries\<close>

datatype IOT_OTA_CmdType = OTA_IOCTL_FETCHED_SIZE | OTA_IOCTL_FILE_SIZE | OTA_IOCTL_MD5SUM | OTA_IOCTL_VERSION
  | OTA_IOCTL_CHECK_FIRMWARE

text \<open>What is written to the caller's buffer, if anything is.\<close>

datatype ioctl_output = Ioctl_number "32 word" | Ioctl_string bytes

text \<open>
  \<open>aligned\<close>: the address of the buffer is a multiple of four.  The comparison of the digest is that
  of two C strings.
\<close>

definition check_firmware :: "OTA_Struct_t \<Rightarrow> (int \<times> ioctl_output option) ota" where
  "check_firmware h = do {
     (digits, h) \<leftarrow> ota_lib_md5_finalize h;
     md5_str \<leftarrow> cstr_of_array digits;
     sum \<leftarrow> md5sum h;
     if sum = md5_str then Some ((SUCCESS_RET, Some (Ioctl_number 1)), h)
     else do {
       (_, h) \<leftarrow> IOT_OTA_ReportFail OTA_REPORT_MD5_MISMATCH (h\<lparr>ota_err := ERR_OTA_MD5_MISMATCH\<rparr>);
       Some ((SUCCESS_RET, Some (Ioctl_number 0)), h) } }"

definition IOT_OTA_Ioctl :: "IOT_OTA_CmdType \<Rightarrow> bool \<Rightarrow> nat \<Rightarrow> OTA_Struct_t \<Rightarrow> (int \<times> ioctl_output option) ota" where
  "IOT_OTA_Ioctl cmd aligned buf_len h =
     (if buf_len = 0 then Some ((ERR_OTA_INVALID_PARAM, None), h)
      else if ota_state h < OTA_STATE_FETCHING
      then Some ((ERR_OTA_INVALID_STATE, None), h\<lparr>ota_err := ERR_OTA_INVALID_STATE\<rparr>)
      else case cmd of
        OTA_IOCTL_FETCHED_SIZE \<Rightarrow>
          if buf_len \<noteq> 4 \<or> \<not> aligned then Some ((FAILURE_RET, None), h\<lparr>ota_err := ERR_OTA_INVALID_PARAM\<rparr>)
          else Some ((SUCCESS_RET, Some (Ioctl_number (size_fetched h))), h)
      | OTA_IOCTL_FILE_SIZE \<Rightarrow>
          if buf_len \<noteq> 4 \<or> \<not> aligned then Some ((FAILURE_RET, None), h\<lparr>ota_err := ERR_OTA_INVALID_PARAM\<rparr>)
          else Some ((SUCCESS_RET, Some (Ioctl_number (size_file h))), h)
      | OTA_IOCTL_VERSION \<Rightarrow> do { s \<leftarrow> ota_version h; Some ((SUCCESS_RET, Some (Ioctl_string (take (buf_len - 1) s))), h) }
      | OTA_IOCTL_MD5SUM \<Rightarrow> do { s \<leftarrow> md5sum h; Some ((SUCCESS_RET, Some (Ioctl_string (take (buf_len - 1) s))), h) }
      | OTA_IOCTL_CHECK_FIRMWARE \<Rightarrow>
          if buf_len \<noteq> 4 \<or> \<not> aligned then Some ((FAILURE_RET, None), h\<lparr>ota_err := ERR_OTA_INVALID_PARAM\<rparr>)
          else if ota_state h \<noteq> OTA_STATE_FETCHED
          then Some ((FAILURE_RET, None), h\<lparr>ota_err := ERR_OTA_INVALID_STATE\<rparr>)
          else check_firmware h)"

subsection \<open>Clearing\<close>

text \<open>\<open>memset\<close> over the characters of a string leaves the empty string.\<close>

definition IOT_OTA_Clear :: "OTA_Struct_t \<Rightarrow> OTA_Struct_t option" where
  "IOT_OTA_Clear h = do {
     h \<leftarrow> ofc_deinit h;
     let clear = map_option (\<lambda>_. []);
     let h = h\<lparr>ota_url := clear (ota_url h), ota_module := clear (ota_module h),
       download_name := clear (download_name h), ota_version := clear (ota_version h), md5sum := clear (md5sum h),
       size_last_fetched := 0, size_fetched := 0, size_file := 0\<rparr>;
     let h = ota_lib_md5_init (ota_lib_md5_deinit h);
     Some (h\<lparr>ota_state := OTA_STATE_INITED\<rparr>) }"

subsection \<open>Fetching\<close>

text \<open>The report of a failed request.\<close>

definition report_fetch_error :: "int \<Rightarrow> OTA_Struct_t \<Rightarrow> OTA_Struct_t option" where
  "report_fetch_error ret h =
     (if ret = ERR_OTA_FETCH_AUTH_FAIL then map_option snd (IOT_OTA_ReportFail OTA_REPORT_SIGNATURE_EXPIRED h)
      else if ret = ERR_OTA_FILE_NOT_EXIST then map_option snd (IOT_OTA_ReportFail OTA_REPORT_FIRMWARE_NOT_EXIST h)
      else if ret = ERR_OTA_FETCH_TIMEOUT then map_option snd (IOT_OTA_ReportFail OTA_REPORT_DOWNLOAD_TIMEOUT h)
      else Some (h\<lparr>ota_err := ERR_OTA_FETCH_FAILED\<rparr>))"

definition ota_sleep :: "nat \<Rightarrow> OTA_Struct_t \<Rightarrow> OTA_Struct_t" where
  "ota_sleep ms h = h\<lparr>ota_mqtt := HAL_SleepMs ms (ota_mqtt h)\<rparr>"

definition restart_report_timer :: "OTA_Struct_t \<Rightarrow> OTA_Struct_t" where
  "restart_report_timer h =
     (let (t, c) = countdown OTA_REPORT_PROGRESS_INTERVAL (ota_mqtt h) in h\<lparr>report_timer := t, ota_mqtt := c\<rparr>)"

text \<open>The loop over the tries: the result of the last one, with the buffer.\<close>

fun fetch_retry :: "nat \<Rightarrow> int \<Rightarrow> bytes \<Rightarrow> OTA_Struct_t \<Rightarrow> (int \<times> bytes) ota" where
  "fetch_retry 0 ret buf h = Some ((ret, buf), h)"
| "fetch_retry (Suc tries) _ buf h = do {
     ((ret, buf), h) \<leftarrow> ofc_fetch buf h;
     if ret = ERR_HTTP_CONN_ERROR \<and> ota_state h \<noteq> OTA_STATE_DISCONNECTED then do {
       h \<leftarrow> ofc_deinit h;
       (_, h) \<leftarrow> ofc_connect (ofc_init h);
       fetch_retry tries ret buf (h\<lparr>ota_state := OTA_STATE_FETCHING\<rparr>) }
     else if ret < 0 then do {
       h \<leftarrow> report_fetch_error ret (h\<lparr>ota_state := OTA_STATE_FETCHED, ota_err := ret\<rparr>);
       fetch_retry tries ret buf (ota_sleep 1000 h) }
     else if size_fetched h = 0 then do {
       (_, h) \<leftarrow> IOT_OTA_ReportProgress 0 OTA_REPORT_DOWNLOADING h;
       Some ((ret, buf), restart_report_timer (h\<lparr>report_timer := init_timer\<rparr>)) }
     else Some ((ret, buf), h) }"

text \<open>The progress in percent; a file of size 0 divides by zero.\<close>

definition report_percent :: "OTA_Struct_t \<Rightarrow> OTA_Struct_t option" where
  "report_percent h =
     (if size_file h = 0 then None
      else do {
        let percent = (size_fetched h * 100) div size_file h;
        if percent = 100 then map_option snd (IOT_OTA_ReportProgress (int_of_uint32 (unat percent)) OTA_REPORT_DOWNLOADING h)
        else if size_last_fetched h > 0 then do {
          let (expired, c) = has_expired (report_timer h) (ota_mqtt h);
          let h = h\<lparr>ota_mqtt := c\<rparr>;
          if expired then do {
            (_, h) \<leftarrow> IOT_OTA_ReportProgress (int_of_uint32 (unat percent)) OTA_REPORT_DOWNLOADING h;
            Some (ota_sleep 100 (restart_report_timer h)) }
          else Some h }
        else Some h })"

definition IOT_OTA_FetchYield :: "bytes \<Rightarrow> OTA_Struct_t \<Rightarrow> (int \<times> bytes) ota" where
  "IOT_OTA_FetchYield buf h =
     (if buf = [] then Some ((ERR_OTA_INVALID_PARAM, buf), h)
      else if ota_state h \<noteq> OTA_STATE_FETCHING
      then Some ((ERR_OTA_INVALID_STATE, buf), h\<lparr>ota_err := ERR_OTA_INVALID_STATE\<rparr>)
      else do {
        ((ret, buf), h) \<leftarrow> fetch_retry 5 0 buf h;
        if ret \<le> 0 then Some ((ret, buf), h)
        else do {
          piece \<leftarrow> get_bytes buf 0 (nat ret);
          h \<leftarrow> ota_lib_md5_update piece h;
          let h = h\<lparr>size_last_fetched := word_of_int ret, size_fetched := size_fetched h + word_of_int ret\<rparr>;
          h \<leftarrow> report_percent h;
          Some ((ret, buf), if size_fetched h \<ge> size_file h then h\<lparr>ota_state := OTA_STATE_FETCHED\<rparr> else h) } })"

end
