(* ===== verification/Ota_Download.thy ===== *)
theory Ota_Download
  imports Ota_Client
begin

text \<open>
  Firmware update, the second half of \<^verbatim>\<open>src/ota/src/ota_client.c\<close>: the download into the flash, the
  callback for the messages of the cloud, creating and destroying a handle.

  \<open>deliver\<close> stands for the messages that arrive while the MQTT client yields.  The flash functions are
  those of \<^verbatim>\<open>platform/os/linux/HAL_Flash_linux.c\<close>, which append to a file; whether a call succeeds is
  decided by the script \<open>flash_rx\<close>.
\<close>

type_synonym deliver = "OTA_Struct_t \<Rightarrow> OTA_Struct_t option"

subsection \<open>The flash\<close>

definition flash_call :: "OTA_Struct_t \<Rightarrow> bool \<times> OTA_Struct_t" where
  "flash_call h = (case flash_rx h of [] \<Rightarrow> (True, h) | b # bs \<Rightarrow> (b, h\<lparr>flash_rx := bs\<rparr>))"

text \<open>\<open>fopen\<close> with mode \<open>wb+\<close> empties the file.\<close>

definition HAL_Download_Init :: "OTA_Struct_t \<Rightarrow> bool \<times> OTA_Struct_t" where
  "HAL_Download_Init h = (let (ok, h) = flash_call h in (ok, if ok then h\<lparr>flash := []\<rparr> else h))"

definition HAL_Download_Write :: "bytes \<Rightarrow> OTA_Struct_t \<Rightarrow> bool \<times> OTA_Struct_t" where
  "HAL_Download_Write bs h = (let (ok, h) = flash_call h in (ok, if ok then h\<lparr>flash := flash h @ bs\<rparr> else h))"

definition HAL_Download_End :: "OTA_Struct_t \<Rightarrow> bool \<times> OTA_Struct_t" where
  "HAL_Download_End = flash_call"

subsection \<open>The download\<close>

definition IOT_OTA_Yield :: "deliver \<Rightarrow> nat \<Rightarrow> OTA_Struct_t \<Rightarrow> int ota" where
  "IOT_OTA_Yield deliver timeout_ms h = do {
     (ret, c) \<leftarrow> uiot_mqtt_yield timeout_ms (ota_mqtt h);
     h \<leftarrow> deliver (h\<lparr>ota_mqtt := c\<rparr>);
     Some (ret, h) }"

text \<open>
  The loop of \<open>IOT_OTA_fw_download\<close>, which need not end: \<open>Inl ret\<close> for \<open>goto __exit\<close>, \<open>Inr total_length\<close>
  after the last piece.  The \<open>int\<close> that counts the bytes must not overflow.
\<close>

partial_function (option) download_loop :: "deliver \<Rightarrow> bytes \<Rightarrow> int \<Rightarrow> OTA_Struct_t \<Rightarrow> (int + int) ota" where
  "download_loop deliver buffer_read total_length h = do {
     ((len, buffer_read), h) \<leftarrow> IOT_OTA_FetchYield buffer_read h;
     if len \<le> 0 then Some (Inl ERR_OTA_FETCH_FAILED, h)
     else do {
       piece \<leftarrow> get_bytes buffer_read 0 (nat len);
       let (ok, h) = HAL_Download_Write piece h;
       if \<not> ok then Some (Inl FAILURE_RET, h)
       else if total_length + len \<ge> 2 ^ 31 then None
       else do {
         (_, h) \<leftarrow> IOT_OTA_Yield deliver 100 h;
         let (finished, h) = IOT_OTA_IsFetchFinish h;
         if finished then Some (Inr (total_length + len), h)
         else download_loop deliver buffer_read (total_length + len) h } } }"

text \<open>
  After the last piece.  \<open>firmware_valid\<close> and \<open>msg_version\<close> are not initialised: reading them when
  \<open>IOT_OTA_Ioctl\<close> has not written them has no result.
\<close>

definition download_report :: "ioctl_output option \<Rightarrow> OTA_Struct_t \<Rightarrow> int ota" where
  "download_report msg_version h = (case msg_version of
     Some (Ioctl_string ver) \<Rightarrow> do {
       (_, h) \<leftarrow> IOT_OTA_ReportSuccess (Some ver) h;
       let (ok, h) = HAL_Download_End h;
       Some (if ok then SUCCESS_RET else FAILURE_RET, h) }
   | _ \<Rightarrow> None)"

definition download_finish :: "OTA_Struct_t \<Rightarrow> int ota" where
  "download_finish h = do {
     ((_, firmware_valid), h) \<leftarrow> IOT_OTA_Ioctl OTA_IOCTL_CHECK_FIRMWARE True 4 h;
     case firmware_valid of
       Some (Ioctl_number v) \<Rightarrow>
         if v = 0 then Some (IOT_OTA_GetLastError h, h)
         else do {
           ((_, msg_version), h) \<leftarrow> IOT_OTA_Ioctl OTA_IOCTL_VERSION True 33 h;
           download_report msg_version h }
     | _ \<Rightarrow> None }"

definition HTTP_OTA_BUFF_LEN :: nat where "HTTP_OTA_BUFF_LEN = 4100"

text \<open>Everything before the label \<open>__exit\<close>.  \<open>file_size\<close> is an \<open>int\<close>, and \<open>ret\<close> is 0 at first.\<close>

definition download_file :: "deliver \<Rightarrow> OTA_Struct_t \<Rightarrow> int ota" where
  "download_file deliver h = do {
     ((_, out), h) \<leftarrow> IOT_OTA_Ioctl OTA_IOCTL_FILE_SIZE True 4 h;
     let file_size = (case out of Some (Ioctl_number n) \<Rightarrow> sint n | _ \<Rightarrow> 0);
     let (ok, h) = HAL_Download_Init h;
     if \<not> ok then Some (FAILURE_RET, h)
     else do {
       let (ok, h) = ota_malloc h;
       if \<not> ok then Some (FAILURE_RET, h)
       else do {
         (result, h) \<leftarrow> download_loop deliver (replicate HTTP_OTA_BUFF_LEN 0) 0 h;
         case result of
           Inl ret \<Rightarrow> Some (ret, h)
         | Inr total_length \<Rightarrow>
             if total_length = file_size then download_finish h else Some (0, h) } } }"

definition IOT_OTA_fw_download :: "deliver \<Rightarrow> OTA_Struct_t \<Rightarrow> int ota" where
  "IOT_OTA_fw_download deliver h = do {
     (ret, h) \<leftarrow> download_file deliver h;
     h \<leftarrow> IOT_OTA_Clear h;
     Some (ret, h) }"

subsection \<open>Messages of the cloud\<close>

text \<open>
  \<open>_ota_push_upload_msg\<close>: the first allocation is used without a check; a list that could not be
  allocated is NULL.
\<close>

definition ota_push_upload_msg :: "bytes \<Rightarrow> OTA_Struct_t \<Rightarrow> OTA_Struct_t option" where
  "ota_push_upload_msg msg h = do {
     let (ok, h) = ota_malloc h;
     if \<not> ok then None
     else do {
       let (ok, h) = ota_malloc h;
       if \<not> ok then Some h
       else do {
         let (ok, h) = ota_malloc h;
         if \<not> ok then Some h
         else do { l \<leftarrow> msg_list h; Some (h\<lparr>msg_list := Some (l @ [msg])\<rparr>) } } } }"

text \<open>The branch \<open>update_firmware\<close>, up to the message that waits; the result says whether a download ran.\<close>

definition update_firmware :: "deliver \<Rightarrow> (bytes \<Rightarrow> bytes option) \<Rightarrow> bytes \<Rightarrow> OTA_Struct_t \<Rightarrow> bool ota" where
  "update_firmware deliver name_set msg_str h =
     (if ota_state h = OTA_STATE_FETCHING then map_option (Pair False) (ota_push_upload_msg msg_str h)
      else do {
        (ret, h) \<leftarrow> ota_lib_get_params name_set msg_str h;
        if ret \<noteq> SUCCESS_RET then Some (False, h)
        else do {
          let h = ofc_init h;
          if ch_fetch h = Fetch_NULL then Some (False, h)
          else do {
            (rc, h) \<leftarrow> ofc_connect h;
            if rc \<noteq> SUCCESS_RET then Some (False, h\<lparr>ota_state := OTA_STATE_DISCONNECTED\<rparr>)
            else do {
              (ret, h) \<leftarrow> IOT_OTA_fw_download deliver (h\<lparr>ota_state := OTA_STATE_FETCHING\<rparr>);
              Some (True, if ret \<noteq> SUCCESS_RET then h\<lparr>ota_state := OTA_STATE_DISCONNECTED\<rparr> else h) } } } })"

definition cancel_update :: "bytes \<Rightarrow> OTA_Struct_t \<Rightarrow> OTA_Struct_t option" where
  "cancel_update msg_str h = do {
     ((ret, msg_module, msg_ver), h) \<leftarrow> ota_lib_get_msg_module_ver msg_str h;
     if ret \<noteq> SUCCESS_RET then Some h
     else do {
       m \<leftarrow> ota_module h;
       if msg_module \<noteq> Some m then Some h
       else do {
         v \<leftarrow> ota_version h;
         if msg_ver \<noteq> Some v then Some h
         else if ch_fetch h \<noteq> Fetch_live then None
         else Some (h\<lparr>ota_state := OTA_STATE_DISCONNECTED\<rparr>) } } }"

text \<open>
  \<open>_ota_callback\<close> with \<open>_ota_pop_upload_msg\<close>, which calls it again for the message that has waited
  longest.
\<close>

partial_function (option) ota_callback ::
  "deliver \<Rightarrow> (bytes \<Rightarrow> bytes option) \<Rightarrow> bytes \<Rightarrow> OTA_Struct_t \<Rightarrow> OTA_Struct_t option" where
  "ota_callback deliver name_set msg h = do {
     let (ok, h) = ota_malloc h;
     if \<not> ok then Some h
     else do {
       let msg_str = takeWhile (\<lambda>c. c \<noteq> 0) msg;
       ((_, msg_method), h) \<leftarrow> ota_lib_get_msg_type msg_str h;
       if msg_method = None then Some h
       else if ch_fetch h = Fetch_NULL \<and> msg_method = Some (lit ''cancel_update'') then Some h
       else if msg_method = Some (lit ''update_firmware'') then do {
         (downloaded, h) \<leftarrow> update_firmware deliver name_set msg_str h;
         if \<not> downloaded then Some h
         else do {
           l \<leftarrow> msg_list h;
           if l = [] then Some h
           else ota_callback deliver name_set (hd l) (h\<lparr>msg_list := Some (tl l)\<rparr>) } }
       else if msg_method = Some (lit ''cancel_update'') then cancel_update msg_str h
       else Some h } }"

text \<open>The handler that \<open>osc_init\<close> subscribes hands the payload on.\<close>

definition ota_mqtt_upgrade_cb ::
  "deliver \<Rightarrow> (bytes \<Rightarrow> bytes option) \<Rightarrow> bytes \<Rightarrow> OTA_Struct_t \<Rightarrow> OTA_Struct_t option" where
  "ota_mqtt_upgrade_cb deliver name_set payload h = ota_callback deliver name_set payload h"

subsection \<open>Creating and destroying a handle\<close>

text \<open>\<open>osc_init\<close>; \<open>on_ota\<close> is the address of the handler \<open>_ota_mqtt_upgrade_cb\<close>.\<close>

definition osc_init :: "nat \<Rightarrow> OTA_Struct_t \<Rightarrow> bool ota" where
  "osc_init on_ota h = do {
     let (ok, h) = ota_malloc h;
     if \<not> ok then Some (False, h)
     else do {
       let (ok, h) = ota_malloc h;
       let h = h\<lparr>msg_list := if ok then Some [] else None\<rparr>;
       let (ok, h) = ota_malloc h;
       if \<not> ok then Some (False, h)
       else (case ota_mqtt_gen_topic_name OTA_TOPIC_BUF_LEN ''downstream'' (osc_product_sn h) (osc_device_sn h) of
           Inl _ \<Rightarrow> Some (False, h)
         | Inr topic_upgrade \<Rightarrow> do {
             (ret, c) \<leftarrow> uiot_mqtt_subscribe topic_upgrade
                \<lparr>sp_qos = QOS1, sp_handler = Some on_ota, sp_user_data = 0\<rparr> (ota_mqtt h);
             Some (ret \<ge> 0, h\<lparr>ota_mqtt := c\<rparr>) }) } }"

text \<open>\<open>list_destroy\<close> reads the length of the list.\<close>

definition osc_deinit :: "OTA_Struct_t \<Rightarrow> OTA_Struct_t option" where
  "osc_deinit h = do { _ \<leftarrow> msg_list h; Some (h\<lparr>msg_list := None\<rparr>) }"

text \<open>
  \<open>scripts\<close> holds the scripts; all other fields are cleared.  The result is the handle, or \<open>None\<close> for
  NULL, and the MQTT client.
\<close>

definition zero_ota :: "OTA_Struct_t \<Rightarrow> OTA_Struct_t" where
  "zero_ota scripts = scripts\<lparr>ota_state := OTA_STATE_UNINITED, size_last_fetched := 0, size_fetched := 0, size_file := 0,
     ota_url := None, download_name := None, ota_module := None, ota_version := None, md5sum := None,
     ota_md5 := None, ch_fetch := Fetch_NULL, ota_err := 0, report_timer := 0, fetch_callback_func := False\<rparr>"

definition IOT_OTA_Init ::
  "nat \<Rightarrow> bytes option \<Rightarrow> bytes option \<Rightarrow> OTA_Struct_t \<Rightarrow> UIoT_Client \<Rightarrow> (OTA_Struct_t option \<times> UIoT_Client) option" where
  "IOT_OTA_Init on_ota psn dsn scripts c = (case (psn, dsn) of
     (Some p, Some d) \<Rightarrow>
       let (ok, c) = HAL_Malloc c in
       if \<not> ok then Some (None, c)
       else do {
         let h = (zero_ota scripts)\<lparr>osc_product_sn := p, osc_device_sn := d, ota_mqtt := c\<rparr>;
         (ok, h) \<leftarrow> osc_init on_ota h;
         if \<not> ok then Some (None, ota_mqtt h)
         else do {
           let h = ota_lib_md5_init h;
           if ota_md5 h = None then do { h \<leftarrow> osc_deinit h; Some (None, ota_mqtt h) }
           else Some (Some (h\<lparr>ota_state := OTA_STATE_INITED\<rparr>), ota_mqtt h) } }
   | _ \<Rightarrow> Some (None, c))"

definition IOT_OTA_Destroy :: "OTA_Struct_t \<Rightarrow> int ota" where
  "IOT_OTA_Destroy h =
     (if ota_state h = OTA_STATE_UNINITED then Some (FAILURE_RET, h)
      else do {
        h \<leftarrow> osc_deinit h;
        h \<leftarrow> ofc_deinit h;
        let h = ota_lib_md5_deinit h;
        Some (SUCCESS_RET, h\<lparr>ota_url := None, ota_module := None, ota_version := None,
           md5sum := None, download_name := None\<rparr>) })"

end
