(* ===== verification/Ota_Frame.thy ===== *)
theory Ota_Frame
  imports Ota_Download Client_Reach
begin

text \<open>
  What the firmware update leaves alone while it talks to the cloud: the file in the flash with its digest and
  the announced data; and the MQTT client below it only moves by the steps of its own interface.
\<close>

definition download_data :: "OTA_Struct_t \<Rightarrow> md5_context option \<times> bytes option \<times> 32 word \<times> bytes" where
  "download_data h = (ota_md5 h, md5sum h, size_file h, flash h)"

text \<open>The client has moved by calls of its interface and of the platform.\<close>

definition client_moves :: "OTA_Struct_t \<Rightarrow> OTA_Struct_t \<Rightarrow> bool" where
  "client_moves h h' \<longleftrightarrow> client_step\<^sup>*\<^sup>* (ota_mqtt h) (ota_mqtt h')"

definition ota_frame :: "OTA_Struct_t \<Rightarrow> OTA_Struct_t \<Rightarrow> bool" where
  "ota_frame h h' \<longleftrightarrow> download_data h' = download_data h \<and> client_moves h h'"

text \<open>Every defined result of \<open>m\<close> is framed by \<open>h\<close>.\<close>

definition keeps :: "OTA_Struct_t \<Rightarrow> 'r ota \<Rightarrow> bool" where
  "keeps h m \<longleftrightarrow> (\<forall>r h'. m = Some (r, h') \<longrightarrow> ota_frame h h')"

lemma keepsI: "(\<And>r h'. m = Some (r, h') \<Longrightarrow> ota_frame h h') \<Longrightarrow> keeps h m"
  by (simp add: keeps_def)

lemma keepsD: "keeps h m \<Longrightarrow> m = Some (r, h') \<Longrightarrow> ota_frame h h'"
  by (simp add: keeps_def)

lemma moves_refl [simp]: "client_moves h h"
  by (simp add: client_moves_def)

lemma moves_trans: "client_moves a b \<Longrightarrow> client_moves b c \<Longrightarrow> client_moves a c"
  unfolding client_moves_def by (rule rtranclp_trans)

lemma moves_cong: "ota_mqtt a' = ota_mqtt a \<Longrightarrow> ota_mqtt b' = ota_mqtt b \<Longrightarrow> client_moves a' b' = client_moves a b"
  by (simp add: client_moves_def)

lemma frame_refl [simp]: "ota_frame h h"
  by (simp add: ota_frame_def)

lemma frame_trans: "ota_frame a b \<Longrightarrow> ota_frame b c \<Longrightarrow> ota_frame a c"
  by (auto simp: ota_frame_def intro: moves_trans)

text \<open>The fields that the frame does not mention.\<close>

definition ota_view :: "OTA_Struct_t \<Rightarrow> _" where
  "ota_view h = (download_data h, ota_mqtt h)"

lemma frame_view: "ota_view a' = ota_view a \<Longrightarrow> ota_view b' = ota_view b \<Longrightarrow> ota_frame a' b' = ota_frame a b"
  by (auto simp: ota_frame_def ota_view_def client_moves_def)

lemma ota_view_update [simp]:
  "ota_view (h\<lparr>ota_err := e\<rparr>) = ota_view h"
  "ota_view (h\<lparr>ota_state := s\<rparr>) = ota_view h"
  "ota_view (h\<lparr>http_rx := rx\<rparr>) = ota_view h"
  "ota_view (h\<lparr>http_connects := cx\<rparr>) = ota_view h"
  "ota_view (h\<lparr>flash_rx := fx\<rparr>) = ota_view h"
  "ota_view (h\<lparr>ch_fetch := p\<rparr>) = ota_view h"
  "ota_view (h\<lparr>report_timer := t\<rparr>) = ota_view h"
  "ota_view (h\<lparr>fetch_events := es\<rparr>) = ota_view h"
  "ota_view (h\<lparr>size_last_fetched := n\<rparr>) = ota_view h"
  "ota_view (h\<lparr>size_fetched := n\<rparr>) = ota_view h"
  "ota_view (h\<lparr>msg_list := l\<rparr>) = ota_view h"
  by (simp_all add: ota_view_def download_data_def)

lemma download_data_update [simp]:
  "download_data (h\<lparr>ota_mqtt := c\<rparr>) = download_data h"
  "download_data (h\<lparr>ota_err := e\<rparr>) = download_data h"
  "download_data (h\<lparr>ota_state := s\<rparr>) = download_data h"
  "download_data (h\<lparr>size_last_fetched := n\<rparr>) = download_data h"
  "download_data (h\<lparr>size_fetched := n\<rparr>) = download_data h"
  by (simp_all add: download_data_def)

lemma frame_update [simp]:
  "ota_frame (h\<lparr>ota_err := e\<rparr>) b = ota_frame h b" "ota_frame a (h\<lparr>ota_err := e\<rparr>) = ota_frame a h"
  "ota_frame (h\<lparr>ota_state := s\<rparr>) b = ota_frame h b" "ota_frame a (h\<lparr>ota_state := s\<rparr>) = ota_frame a h"
  "ota_frame (h\<lparr>http_rx := rx\<rparr>) b = ota_frame h b" "ota_frame a (h\<lparr>http_rx := rx\<rparr>) = ota_frame a h"
  "ota_frame a (h\<lparr>http_connects := cx\<rparr>) = ota_frame a h" "ota_frame a (h\<lparr>flash_rx := fx\<rparr>) = ota_frame a h"
  "ota_frame (h\<lparr>ch_fetch := p\<rparr>) b = ota_frame h b" "ota_frame a (h\<lparr>ch_fetch := p\<rparr>) = ota_frame a h"
  "ota_frame (h\<lparr>report_timer := t\<rparr>) b = ota_frame h b" "ota_frame a (h\<lparr>report_timer := t\<rparr>) = ota_frame a h"
  "ota_frame a (h\<lparr>fetch_events := es\<rparr>) = ota_frame a h" "ota_frame a (h\<lparr>msg_list := l\<rparr>) = ota_frame a h"
  "ota_frame (h\<lparr>fetch_events := es\<rparr>) b = ota_frame h b"
  "ota_frame (h\<lparr>size_last_fetched := n\<rparr>) b = ota_frame h b" "ota_frame a (h\<lparr>size_last_fetched := n\<rparr>) = ota_frame a h"
  "ota_frame (h\<lparr>size_fetched := n\<rparr>) b = ota_frame h b" "ota_frame a (h\<lparr>size_fetched := n\<rparr>) = ota_frame a h"
  by (rule frame_view; simp)+

text \<open>Where the client moves: an operation of its interface, an allocation, a look at the clock.\<close>

lemma frame_mqtt: "client_step\<^sup>*\<^sup>* (ota_mqtt h) c \<Longrightarrow> ota_frame h (h\<lparr>ota_mqtt := c\<rparr>)"
  by (simp add: ota_frame_def client_moves_def download_data_def)

lemma frame_step: "client_step (ota_mqtt h) c \<Longrightarrow> ota_frame h (h\<lparr>ota_mqtt := c\<rparr>)"
  by (blast intro: frame_mqtt)

lemma step_mallocs: "client_step c (c\<lparr>mallocs := bs\<rparr>)"
  using client_step.platform [where c = c and t = "clock c" and ts = "ticks c" and rx = "ssl_rx c" and tx = "ssl_tx c"
      and up = "tls_up c" and ms = bs] by simp

lemma step_clock: "clock c \<le> t \<Longrightarrow> client_step c (c\<lparr>clock := t, ticks := ts\<rparr>)"
  using client_step.platform [where c = c and t = t and ts = ts and rx = "ssl_rx c" and tx = "ssl_tx c"
      and up = "tls_up c" and ms = "mallocs c"] by simp

lemma frame_malloc: "ota_malloc h = (ok, h') \<Longrightarrow> ota_frame h h' \<and> ota_state h' = ota_state h"
  by (auto simp: ota_malloc_def HAL_Malloc_def split: list.splits intro: frame_step step_mallocs)

lemma step_gettimeofday: "gettimeofday c = (t, c') \<Longrightarrow> client_step c c'"
  by (auto simp: gettimeofday_def Let_def intro: step_clock)

lemma frame_timer [simp]:
  "ota_frame h (restart_report_timer h)" "ota_frame h (ota_sleep ms h)"
  "has_expired t (ota_mqtt h) = (b, c) \<Longrightarrow> ota_frame h (h\<lparr>ota_mqtt := c\<rparr>)"
proof -
  obtain n c' where g: "gettimeofday (ota_mqtt h) = (n, c')" by (cases "gettimeofday (ota_mqtt h)")
  have f: "ota_frame h (h\<lparr>ota_mqtt := c'\<rparr>)" by (rule frame_step [OF step_gettimeofday [OF g]])
  have "restart_report_timer h = (h\<lparr>ota_mqtt := c'\<rparr>)\<lparr>report_timer := n + OTA_REPORT_PROGRESS_INTERVAL * 1000000\<rparr>"
    using g by (simp add: restart_report_timer_def countdown_def HAL_Timer_Countdown_def)
  with f show "ota_frame h (restart_report_timer h)" by simp
  show "has_expired t (ota_mqtt h) = (b, c) \<Longrightarrow> ota_frame h (h\<lparr>ota_mqtt := c\<rparr>)"
    using f g by (auto simp: has_expired_def HAL_Timer_Expired_def)
  show "ota_frame h (ota_sleep ms h)"
    unfolding ota_sleep_def HAL_SleepMs_def
    by (rule frame_step) (use step_clock [of "ota_mqtt h" _ "ticks (ota_mqtt h)"] in simp)
qed


lemma frame_data: "ota_frame h h' \<Longrightarrow> download_data h' = download_data h"
  by (simp add: ota_frame_def)

subsection \<open>The operations\<close>

lemma frame_call_fetch_callback [simp]: "ota_frame a (call_fetch_callback e h) = ota_frame a h"
  by (simp add: call_fetch_callback_def)

lemma keeps_mqtt_publish: "keeps h (ota_mqtt_publish topic qos msg h)"
  by (rule keepsI)
     (auto simp: ota_mqtt_publish_def bind_eq_Some_conv split: sum.splits intro!: frame_step client_step.publish)

lemma keeps_send_report:
  assumes "\<And>m. keeps h (send m h)"
  shows "keeps h (send_report send msg h)"
  by (rule keepsI)
     (auto simp: send_report_def bind_eq_Some_conv dest: keepsD [OF assms] split: sum.splits if_splits)

lemma keeps_osc: "keeps h (osc_report_progress msg h)" "keeps h (osc_upstream_publish msg h)"
  by (simp_all add: osc_report_progress_def osc_upstream_publish_def keeps_mqtt_publish)

lemma keeps_send:
  "keeps h (send_report osc_report_progress msg h)" "keeps h (send_report osc_upstream_publish msg h)"
  by (rule keeps_send_report, rule keeps_osc)+

lemma keeps_ReportProgress: "keeps h (IOT_OTA_ReportProgress p s h)"
  by (rule keepsI)
     (auto simp: IOT_OTA_ReportProgress_def bind_eq_Some_conv split: if_splits prod.splits
       dest!: frame_malloc keepsD [OF keeps_send(1)] intro: frame_trans)

lemma keeps_send_upstream: "keeps h (send_upstream_msg_with_version m v r h)"
  by (rule keepsI)
     (auto simp: send_upstream_msg_with_version_def bind_eq_Some_conv split: if_splits prod.splits option.splits
       dest!: frame_malloc keepsD [OF keeps_send(2)] intro: frame_trans)

lemma keeps_ReportSuccess: "keeps h (IOT_OTA_ReportSuccess v h)"
  by (rule keepsI)
     (auto simp: IOT_OTA_ReportSuccess_def call_fetch_callback_def split: if_split_asm dest!: keepsD [OF keeps_send_upstream])

lemma keeps_ReportFail: "keeps h (IOT_OTA_ReportFail e h)"
  by (rule keepsI)
     (auto simp: IOT_OTA_ReportFail_def bind_eq_Some_conv split: if_splits prod.splits
       dest!: frame_malloc keepsD [OF keeps_send(2)] intro: frame_trans)

lemma frame_report_fetch_error: "report_fetch_error ret h = Some h' \<Longrightarrow> ota_frame h h'"
  by (auto simp: report_fetch_error_def split: if_splits dest!: keepsD [OF keeps_ReportFail])

lemma keeps_fetch: "keeps h (ofc_fetch buf h)"
  by (rule keepsI) (auto simp: ofc_fetch_def Let_def bind_eq_Some_conv split: if_splits list.splits http_answer.splits)

lemma frame_ofc_init: "ota_frame h (ofc_init h)"
  by (auto simp: ofc_init_def split: prod.split dest!: frame_malloc)

lemma frame_ofc_deinit: "ofc_deinit h = Some h' \<Longrightarrow> ota_frame h h'"
  by (auto simp: ofc_deinit_def split: if_splits)

lemma frame_after:
  "ota_frame a h \<Longrightarrow> ota_frame a (ofc_init h)"
  "ota_frame a h \<Longrightarrow> ota_frame a (restart_report_timer h)"
  "ota_frame a h \<Longrightarrow> ota_frame a (ota_sleep ms h)"
  by (blast intro: frame_trans frame_ofc_init frame_timer)+

lemma frame_before:
  "ota_frame (ofc_init h) b \<Longrightarrow> ota_frame h b"
  "ota_frame (ota_sleep ms h) b \<Longrightarrow> ota_frame h b"
  by (blast intro: frame_trans frame_ofc_init frame_timer)+

lemma keeps_ofc_connect: "keeps h (ofc_connect h)"
  by (rule keepsI) (auto simp: ofc_connect_def split: if_splits list.splits)

lemma keeps_fetch_retry: "keeps h (fetch_retry n ret buf h)"
proof (induction n arbitrary: ret buf h)
  case (Suc n)
  show ?case
  proof (rule keepsI)
    fix r h' assume r: "fetch_retry (Suc n) ret buf h = Some (r, h')"
    then obtain ret1 buf1 h1 where f: "ofc_fetch buf h = Some ((ret1, buf1), h1)" by (auto simp: bind_eq_Some_conv)
    have "ota_frame h1 h'"
    proof (cases "ret1 = ERR_HTTP_CONN_ERROR \<and> ota_state h1 \<noteq> OTA_STATE_DISCONNECTED")
      case True
      then show ?thesis using r f
        by (auto simp: bind_eq_Some_conv dest!: keepsD [OF keeps_ofc_connect] frame_ofc_deinit keepsD [OF Suc.IH] frame_before(1)
            intro: frame_trans)
    next
      case False
      then show ?thesis using r f unfolding fetch_retry.simps
        by (auto simp: bind_eq_Some_conv split: if_split_asm
            dest!: keepsD [OF keeps_ReportProgress] frame_report_fetch_error keepsD [OF Suc.IH] frame_before(2)
            intro: frame_after frame_trans)
    qed
    with keepsD [OF keeps_fetch f] show "ota_frame h h'" by (rule frame_trans)
  qed
qed (simp add: keeps_def)

lemma frame_report_percent: "report_percent h = Some h' \<Longrightarrow> ota_frame h h'"
  by (auto simp: report_percent_def Let_def bind_eq_Some_conv split: if_splits prod.splits
      dest!: keepsD [OF keeps_ReportProgress] frame_timer(3) intro: frame_after frame_trans)

lemma frame_flash_call: "ota_frame h (snd (flash_call h))"
  by (simp add: flash_call_def split: list.split)

lemma keeps_download_report: "keeps h (download_report out h)"
  by (rule keepsI)
     (auto simp: download_report_def HAL_Download_End_def bind_eq_Some_conv split_beta Let_def
       split: option.split_asm ioctl_output.split_asm dest!: keepsD [OF keeps_ReportSuccess]
       intro: frame_trans frame_flash_call)


subsection \<open>Messages of the cloud\<close>

text \<open>The JSON reader takes memory and leaves the client alone otherwise.\<close>

lemma malloc_mallocs: "HAL_Malloc w = (ok, w') \<Longrightarrow> \<exists>bs. w' = w\<lparr>mallocs := bs\<rparr>"
  by (cases "mallocs w") (auto simp: HAL_Malloc_def intro: exI [of _ "mallocs w"])

lemma json_descend_mallocs: "json_descend mem src key w = Some (r, mem', w') \<Longrightarrow> \<exists>bs. w' = w\<lparr>mallocs := bs\<rparr>"
proof (induction mem src key w rule: json_descend.induct)
  case (1 mem src key w)
  obtain ok w1 where m: "HAL_Malloc w = (ok, w1)" by (cases "HAL_Malloc w")
  from malloc_mallocs [OF m] obtain bs where w1: "w1 = w\<lparr>mallocs := bs\<rparr>" by blast
  show ?case
  proof (cases "split_at_dot key")
    case None
    then show ?thesis using 1(2) by (subst (asm) json_descend.simps) (auto intro: exI [of _ "mallocs w"])
  next
    case (Some p)
    obtain key_next rest where p: "p = (key_next, rest)" by (cases p)
    show ?thesis
    proof (cases ok)
      case True
      let ?found = "Option.bind (strlen_at mem src) (\<lambda>len. json_get_value_by_name mem src len key_next True False)"
      from 1(2) Some p m True obtain val len t mem1 where f: "?found = Some (val, len, t, mem1)"
        and r: "(case val of None \<Rightarrow> Some (None, mem1, w1) | Some src \<Rightarrow> json_descend mem1 src rest w1) = Some (r, mem', w')"
        by (subst (asm) json_descend.simps) (auto split: option.split_asm)
      show ?thesis
      proof (cases val)
        case None
        then show ?thesis using r w1 by auto
      next
        case (Some src1)
        have "\<exists>bs. w' = w1\<lparr>mallocs := bs\<rparr>"
          by (rule 1(1) [OF \<open>split_at_dot key = Some p\<close> p [symmetric] refl m [symmetric] _ f refl refl refl Some])
             (use True r Some in auto)
        then show ?thesis using w1 by auto
      qed
    next
      case False
      then show ?thesis using 1(2) Some p m by (subst (asm) json_descend.simps) simp
    qed
  qed
qed

lemma json_value_mallocs:
  assumes "LITE_json_value_of key mem src w = Some (r, mem', w')"
  shows "\<exists>bs. w' = w\<lparr>mallocs := bs\<rparr>"
proof -
  from assms obtain found mem1 w1 where d: "json_descend mem src key w = Some (found, mem1, w1)"
    by (auto simp: LITE_json_value_of_def bind_eq_Some_conv)
  obtain ok w2 where m: "HAL_Malloc w1 = (ok, w2)" by (cases "HAL_Malloc w1")
  have "w' = w1 \<or> w' = w2"
    using assms d m by (auto simp: LITE_json_value_of_def bind_eq_Some_conv split: option.split_asm if_split_asm)
  then show ?thesis using json_descend_mallocs [OF d] malloc_mallocs [OF m] by auto
qed


lemma frame_json_value:
  "ota_json_value key json h = Some (v, h') \<Longrightarrow> ota_frame h h' \<and> ota_state h' = ota_state h"
  by (auto simp: ota_json_value_def bind_eq_Some_conv dest!: json_value_mallocs intro!: frame_step step_mallocs)

lemma frame_msg_type:
  "ota_lib_get_msg_type json h = Some (v, h') \<Longrightarrow> ota_frame h h' \<and> ota_state h' = ota_state h"
  by (auto simp: ota_lib_get_msg_type_def bind_eq_Some_conv dest!: frame_json_value)

lemma frame_module_ver: "ota_lib_get_msg_module_ver json h = Some (v, h') \<Longrightarrow> ota_frame h h'"
  by (auto simp: ota_lib_get_msg_module_ver_def bind_eq_Some_conv split: if_split_asm dest!: frame_json_value
      intro: frame_trans)

lemma frame_cancel: "cancel_update msg h = Some h' \<Longrightarrow> ota_frame h h'"
  by (auto simp: cancel_update_def bind_eq_Some_conv split: if_split_asm dest!: frame_module_ver)

lemma frame_push: "ota_push_upload_msg msg h = Some h' \<Longrightarrow> ota_frame h h'"
  by (auto simp: ota_push_upload_msg_def bind_eq_Some_conv split: if_split_asm prod.split_asm dest!: frame_malloc
      intro: frame_trans)

end
