(* ===== verification/Ota_Props.thy ===== *)
theory Ota_Props
  imports Ota_Frame
begin

text \<open>
  What a download guarantees: the digest that is compared is that of the bytes in the flash, and what a
  report, a failed request or a message that arrives meanwhile cannot touch.
\<close>

subsection \<open>The digest follows the flash\<close>

text \<open>
  The bytes in the flash are those that the digest has absorbed, \<open>n\<close> in number; the announced digest
  is \<open>announced\<close>.
\<close>

definition follows :: "bytes option \<Rightarrow> nat \<Rightarrow> OTA_Struct_t \<Rightarrow> bool" where
  "follows announced n h \<longleftrightarrow> md5sum h = announced \<and> length (flash h) = n \<and>
     (\<exists>ctx. ota_md5 h = Some ctx \<and> md5_holds ctx (flash h))"

lemma follows_data: "download_data h' = download_data h \<Longrightarrow> follows announced n h' = follows announced n h"
  by (simp add: follows_def download_data_def)

lemma fetch_yield_digest:
  assumes "IOT_OTA_FetchYield buf h = Some ((ret, buf'), h')" "0 < ret" "ret < 2 ^ 31"
    and ctx: "ota_md5 h = Some ctx" "md5_holds ctx m"
  shows "\<exists>ctx' piece. get_bytes buf' 0 (nat ret) = Some piece \<and> ota_md5 h' = Some ctx' \<and> md5_holds ctx' (m @ piece) \<and>
    md5sum h' = md5sum h \<and> size_file h' = size_file h \<and> flash h' = flash h"
proof -
  from assms(1,2) obtain h1 piece h2 h3 where
    f: "fetch_retry 5 0 buf h = Some ((ret, buf'), h1)"
    and p: "get_bytes buf' 0 (nat ret) = Some piece"
    and u: "ota_lib_md5_update piece h1 = Some h2"
    and q: "download_data h' = download_data h2"
    by (auto simp: IOT_OTA_FetchYield_def bind_eq_Some_conv Let_def split: if_splits dest!: frame_report_percent frame_data)
  have d: "download_data h1 = download_data h" by (rule frame_data [OF keepsD [OF keeps_fetch_retry f]])
  have "length piece = nat ret" using p by (auto simp: get_bytes_def split: if_splits)
  then have len: "length piece < 2 ^ 32" using assms(3) by simp
  have "ota_md5 h1 = Some ctx" using d ctx by (simp add: download_data_def)
  then obtain ctx' where "md5_holds ctx' (m @ piece)" "h2 = h1\<lparr>ota_md5 := Some ctx'\<rparr>"
    using u md5_update [OF ctx(2) len] by (auto simp: ota_lib_md5_update_def bind_eq_Some_conv)
  with p q d show ?thesis by (auto simp: download_data_def)
qed


subsection \<open>The whole download\<close>

text \<open>
  What is asked of the messages that arrive meanwhile: as long as the handle is still fetching, or has
  fetched, they have not replaced what is downloaded.
\<close>

definition deliver_ok :: "deliver \<Rightarrow> bool" where
  "deliver_ok deliver \<longleftrightarrow> (\<forall>h h'. deliver h = Some h' \<longrightarrow>
     ota_state h' = OTA_STATE_FETCHING \<or> ota_state h' = OTA_STATE_FETCHED \<longrightarrow> download_data h' = download_data h)"

definition loop_inv :: "bytes option \<Rightarrow> 32 word \<Rightarrow> int \<Rightarrow> OTA_Struct_t \<Rightarrow> bool" where
  "loop_inv announced n tot h \<longleftrightarrow> 0 \<le> tot \<and> follows announced (nat tot) h \<and> size_file h = n"

lemma loop_inv_data: "download_data h' = download_data h \<Longrightarrow> loop_inv announced n t h' = loop_inv announced n t h"
  using follows_data [of h' h announced "nat t"] by (auto simp: loop_inv_def download_data_def)

lemma fetch_and_write:
  assumes "IOT_OTA_FetchYield buf h = Some ((ret, buf'), h1)" "0 < ret" "tot + ret < 2 ^ 31"
    and "get_bytes buf' 0 (nat ret) = Some piece" "HAL_Download_Write piece h1 = (True, h2)"
    and inv: "loop_inv announced n tot h"
  shows "loop_inv announced n (tot + ret) h2"
proof -
  from inv obtain ctx where c: "ota_md5 h = Some ctx" "md5_holds ctx (flash h)" "0 \<le> tot"
    and l: "md5sum h = announced" "length (flash h) = nat tot" "size_file h = n"
    by (auto simp: loop_inv_def follows_def)
  have "ret < 2 ^ 31" using assms(3) c(3) by simp
  from fetch_yield_digest [OF assms(1,2) this c(1,2)] assms(4) obtain ctx' where
    d: "ota_md5 h1 = Some ctx'" "md5_holds ctx' (flash h @ piece)" "md5sum h1 = announced" "size_file h1 = n" "flash h1 = flash h"
    using l by auto
  have "length piece = nat ret" using assms(4) by (auto simp: get_bytes_def split: if_splits)
  then have "length (flash h @ piece) = nat (tot + ret)" using l(2) c(3) assms(2) by (simp add: nat_add_distrib)
  moreover have "flash h2 = flash h @ piece \<and> ota_md5 h2 = ota_md5 h1 \<and> md5sum h2 = md5sum h1 \<and> size_file h2 = size_file h1"
    using assms(5) d(5) by (auto simp: HAL_Download_Write_def flash_call_def Let_def split: prod.splits list.splits if_splits)
  ultimately show ?thesis using d c(3) assms(2) by (auto simp: loop_inv_def follows_def)
qed

text \<open>One round of the loop: it leaves, or goes on from a handle that satisfies the invariant again.\<close>

definition loop_result_ok :: "bytes option \<Rightarrow> 32 word \<Rightarrow> (int + int) \<times> OTA_Struct_t \<Rightarrow> bool" where
  "loop_result_ok announced n y = (case y of
     (Inl ret, _) \<Rightarrow> ret \<noteq> SUCCESS_RET
   | (Inr t, h) \<Rightarrow> t < 2 ^ 31 \<and> ota_state h = OTA_STATE_FETCHED \<and> loop_inv announced n t h)"

lemma yield_deliver:
  assumes "IOT_OTA_Yield deliver ms h = Some (r, h')" "deliver_ok deliver" "loop_inv announced n t h"
    and "ota_state h' = OTA_STATE_FETCHING \<or> ota_state h' = OTA_STATE_FETCHED"
  shows "loop_inv announced n t h'"
proof -
  from assms(1) obtain c where "deliver (h\<lparr>ota_mqtt := c\<rparr>) = Some h'"
    by (auto simp: IOT_OTA_Yield_def bind_eq_Some_conv)
  with assms(2,4) have "download_data h' = download_data (h\<lparr>ota_mqtt := c\<rparr>)" unfolding deliver_ok_def by blast
  with assms(3) show ?thesis using loop_inv_data [of h' h] by simp
qed

lemma IsFetchFinish:
  "IOT_OTA_IsFetchFinish h = (b, h') \<Longrightarrow> download_data h' = download_data h \<and> ota_state h' = ota_state h \<and>
     (b \<longleftrightarrow> ota_state h = OTA_STATE_FETCHED)"
  by (auto simp: IOT_OTA_IsFetchFinish_def split: if_splits)

lemma download_loop_result:
  assumes "download_loop deliver buf tot h = Some y" "deliver_ok deliver"
    and "ota_state h = OTA_STATE_FETCHING \<longrightarrow> loop_inv announced n tot h"
  shows "loop_result_ok announced n y"
  using assms(2,3)
proof (induction rule: download_loop.raw_induct [OF _ assms(1)])
  case (1 loop deliver buf tot h y)
  obtain len buf1 h1 where f: "IOT_OTA_FetchYield buf h = Some ((len, buf1), h1)"
    using 1(2) by (auto simp: bind_eq_Some_conv)
  show ?case
  proof (cases "len \<le> 0")
    case True
    then show ?thesis using 1(2) f by (auto simp: loop_result_ok_def)
  next
    case False
    then have "ota_state h = OTA_STATE_FETCHING" using f by (auto simp: IOT_OTA_FetchYield_def split: if_splits)
    then have inv: "loop_inv announced n tot h" using 1(4) by simp
    obtain piece ok h2 where p: "get_bytes buf1 0 (nat len) = Some piece" "HAL_Download_Write piece h1 = (ok, h2)"
      using 1(2) f False by (cases "HAL_Download_Write (the (get_bytes buf1 0 (nat len))) h1") (auto simp: bind_eq_Some_conv)
    show ?thesis
    proof (cases ok)
      case False
      then show ?thesis using 1(2) f p \<open>\<not> len \<le> 0\<close> by (auto simp: loop_result_ok_def)
    next
      case True
      note step = 1(2) f p True \<open>\<not> len \<le> 0\<close>
      have small: "tot + len < 2 ^ 31" by (rule ccontr) (use step in simp)
      obtain r h3 where y1: "IOT_OTA_Yield deliver 100 h2 = Some (r, h3)"
        using step small by (cases "IOT_OTA_Yield deliver 100 h2") auto
      obtain b h4 where y2: "IOT_OTA_IsFetchFinish h3 = (b, h4)" by (cases "IOT_OTA_IsFetchFinish h3")
      have e: "(if b then Some (Inr (tot + len), h4) else loop deliver buf1 (tot + len) h4) = Some y"
        using step small y1 y2 by simp
      have w: "loop_inv announced n (tot + len) h2"
        using fetch_and_write [OF f _ small p(1) _ inv] p(2) True False by simp
      have inv4: "ota_state h4 = OTA_STATE_FETCHING \<or> ota_state h4 = OTA_STATE_FETCHED \<Longrightarrow> loop_inv announced n (tot + len) h4"
        using yield_deliver [OF y1 1(3) w] IsFetchFinish [OF y2] loop_inv_data [of h4 h3] by simp
      show ?thesis
      proof (cases b)
        case True
        then show ?thesis using e small inv4 IsFetchFinish [OF y2] by (auto simp: loop_result_ok_def)
      next
        case False
        then show ?thesis using e 1(1) [OF _ 1(3)] inv4 by simp
      qed
    qed
  qed
qed


lemma gen_upstream_error: "ota_lib_gen_upstream_msg n m v p t h = Some (Inl e) \<Longrightarrow> e \<noteq> 0"
  by (auto simp: ota_lib_gen_upstream_msg_def bind_eq_Some_conv split: if_splits)

lemma ota_malloc_err: "ota_malloc h = (ok, h2) \<Longrightarrow> ota_err h2 = ota_err h"
  by (auto simp: ota_malloc_def Let_def split: prod.splits)

lemma ota_err_callback [simp]: "ota_err (call_fetch_callback e h) = ota_err h"
  by (simp add: call_fetch_callback_def)

lemma mqtt_publish_err: "ota_mqtt_publish topic qos msg h = Some (r, h') \<Longrightarrow> ota_err h' = ota_err h"
  by (auto simp: ota_mqtt_publish_def bind_eq_Some_conv split: sum.splits)

lemma send_report_err:
  assumes "send_report osc_upstream_publish msg h = Some (r, h')" "ota_err h \<noteq> 0" "\<And>e. msg = Inl e \<Longrightarrow> e \<noteq> 0"
  shows "ota_err h' \<noteq> 0"
  using assms
  by (auto simp: send_report_def bind_eq_Some_conv osc_upstream_publish_def split: sum.splits if_splits
      dest: mqtt_publish_err)

lemma ReportFail_err:
  assumes "IOT_OTA_ReportFail e h = Some (r, h')" "ota_err h \<noteq> 0"
  shows "ota_err h' \<noteq> 0"
proof (cases "ota_state h = OTA_STATE_UNINITED")
  case False
  obtain ok h1 where m: "ota_malloc h = (ok, h1)" by (cases "ota_malloc h")
  show ?thesis
  proof (cases ok)
    case True
    with assms(1) False m obtain msg h2 where
      g: "ota_lib_gen_upstream_msg OTA_UPSTREAM_MSG_BUF_LEN (ota_module h1) (Some []) 0 e h1 = Some msg"
      and s: "send_report osc_upstream_publish msg h1 = Some (r, h2)" and e: "ota_err h' = ota_err h2"
      by (auto simp: IOT_OTA_ReportFail_def bind_eq_Some_conv split: if_split_asm)
    have "ota_err h2 \<noteq> 0"
      by (rule send_report_err [OF s]) (use assms(2) ota_malloc_err [OF m] g gen_upstream_error in auto)
    then show ?thesis using e by simp
  qed (use assms(1) False m in \<open>auto simp: IOT_OTA_ReportFail_def\<close>)
qed (use assms(1) in \<open>auto simp: IOT_OTA_ReportFail_def\<close>)

lemma Ioctl_check:
  "ota_state h = OTA_STATE_FETCHED \<Longrightarrow> IOT_OTA_Ioctl OTA_IOCTL_CHECK_FIRMWARE True 4 h = check_firmware h"
  by (simp add: IOT_OTA_Ioctl_def less_IOT_OTA_State_def)

lemma set_concat_nth:
  "(\<And>b. f b < length ds \<and> g b < length ds) \<Longrightarrow> set (concat (map (\<lambda>b. [ds ! f b, ds ! g b]) bs)) \<subseteq> set ds"
  by auto

lemma hex_string_cstr: "takeWhile (\<lambda>c. c \<noteq> 0) (map of_char (hex_string m) @ [0 :: byte]) = map of_char (hex_string m)"
proof -
  let ?digits = "''0123456789abcdef''"
  have digits: "\<forall>c\<in>set ?digits. of_char c \<noteq> (0 :: byte)" by simp
  have "unat b div 16 < length ?digits \<and> unat b mod 16 < length ?digits" for b :: byte
  proof -
    have "length ?digits = 16" "unat b < 256" using unsigned_less [where ?w = b and ?'a = nat] by simp_all
    then show ?thesis by (simp only:) (simp add: less_mult_imp_div_less)
  qed
  from set_concat_nth [OF this] have "set (hex_string m) \<subseteq> set ?digits" unfolding hex_string_def .
  with digits have "\<forall>c\<in>set (hex_string m). of_char c \<noteq> (0 :: byte)" by blast
  then show ?thesis by (subst takeWhile_append2) auto
qed

lemma check_firmware_digest:
  assumes "follows announced n h" "n < 2 ^ 61" "check_firmware h = Some ((ret, out), h')"
  shows "flash h' = flash h \<and> (\<exists>v. out = Some (Ioctl_number v) \<and>
    (if v = 0 then ota_err h' \<noteq> 0 else announced = Some (map of_char (hex_string (rfc_md5 (flash h))))))"
proof -
  let ?hex = "map of_char (hex_string (rfc_md5 (flash h))) :: bytes"
  from assms(1,2) obtain ctx where c: "ota_md5 h = Some ctx" "md5_holds ctx (flash h)" "length (flash h) < 2 ^ 61"
    "md5sum h = announced" by (auto simp: follows_def)
  obtain ctx' where "utils_md5_finish_hb2hex ctx = Some (?hex @ [0], ctx')" using md5_finish_hb2hex [OF c(2,3)] by auto
  then have "ota_lib_md5_finalize h = Some (?hex @ [0], h\<lparr>ota_md5 := Some ctx'\<rparr>)"
    using c(1) by (simp add: ota_lib_md5_finalize_def)
  moreover have "cstr_of_array (?hex @ [0]) = Some ?hex" by (simp only: cstr_of_array_def hex_string_cstr) simp
  ultimately consider "announced = Some ?hex" "out = Some (Ioctl_number 1)" "flash h' = flash h"
    | h1 r where "IOT_OTA_ReportFail OTA_REPORT_MD5_MISMATCH h1 = Some (r, h')" "ota_err h1 \<noteq> 0" "flash h1 = flash h"
        "out = Some (Ioctl_number 0)"
    using assms(3) c(4) by (auto simp: check_firmware_def bind_eq_Some_conv simp del: map_append split: if_splits)
  then show ?thesis
  proof cases
    case 2
    then show ?thesis using ReportFail_err frame_data [OF keepsD [OF keeps_ReportFail 2(1)]] by (auto simp: download_data_def)
  qed simp
qed


lemma download_finish_digest:
  assumes "download_finish h = Some (SUCCESS_RET, h')" "ota_state h = OTA_STATE_FETCHED"
    and "follows announced n h" "n < 2 ^ 61"
  shows "flash h' = flash h \<and> announced = Some (map of_char (hex_string (rfc_md5 (flash h))))"
proof -
  obtain ret out h1 where c: "check_firmware h = Some ((ret, out), h1)"
    using assms(1,2) by (auto simp: download_finish_def Ioctl_check bind_eq_Some_conv)
  from check_firmware_digest [OF assms(3,4) c] obtain v where
    v: "out = Some (Ioctl_number v)" "flash h1 = flash h" "if v = 0 then ota_err h1 \<noteq> 0
      else announced = Some (map of_char (hex_string (rfc_md5 (flash h))))" by auto
  show ?thesis
  proof (cases "v = 0")
    case True
    then show ?thesis using assms(1,2) c v by (auto simp: download_finish_def Ioctl_check IOT_OTA_GetLastError_def)
  next
    case False
    then obtain r2 o2 h2 where
      "IOT_OTA_Ioctl OTA_IOCTL_VERSION True 33 h1 = Some ((r2, o2), h2)" and r: "download_report o2 h2 = Some (SUCCESS_RET, h')"
      using assms(1,2) c v(1) by (auto simp: download_finish_def Ioctl_check bind_eq_Some_conv)
    then have "download_data h2 = download_data h1" by (auto simp: IOT_OTA_Ioctl_def bind_eq_Some_conv split: if_split_asm)
    then have "flash h' = flash h1" using frame_data [OF keepsD [OF keeps_download_report r]] by (simp add: download_data_def)
    then show ?thesis using v False by simp
  qed
qed

lemma Clear_flash: "IOT_OTA_Clear h = Some h' \<Longrightarrow> flash h' = flash h \<and> ch_fetch h' = Fetch_freed \<and> ota_state h' = OTA_STATE_INITED"
  by (auto simp: IOT_OTA_Clear_def ofc_deinit_def ota_lib_md5_deinit_def ota_lib_md5_init_def ota_malloc_def Let_def bind_eq_Some_conv
      split: if_splits prod.splits)

text \<open>The first steps of a download: an empty file and an untouched digest.\<close>

lemma download_file_result:
  assumes "download_file deliver h = Some (SUCCESS_RET, h')" "deliver_ok deliver" "ota_state h = OTA_STATE_FETCHING"
    and "ota_md5 h = Some ctx" "md5_holds ctx []"
  shows "md5sum h = Some (map of_char (hex_string (rfc_md5 (flash h')))) \<or> int (length (flash h')) \<noteq> sint (size_file h)"
proof -
  have io: "IOT_OTA_Ioctl OTA_IOCTL_FILE_SIZE True 4 h = Some ((SUCCESS_RET, Some (Ioctl_number (size_file h))), h)"
    using assms(3) by (simp add: IOT_OTA_Ioctl_def less_IOT_OTA_State_def)
  from assms(1) io obtain h1 h2 result h3 where i: "HAL_Download_Init h = (True, h1)" "ota_malloc h1 = (True, h2)"
    and l: "download_loop deliver (replicate HTTP_OTA_BUFF_LEN 0) 0 h2 = Some (result, h3)"
    and e: "(case result of Inl ret \<Rightarrow> Some (ret, h3)
      | Inr t \<Rightarrow> if t = (case Some (Ioctl_number (size_file h)) of Some (Ioctl_number n) \<Rightarrow> sint n | _ \<Rightarrow> 0) then download_finish h3 else Some (0, h3)) = Some (SUCCESS_RET, h')"
    by (auto simp: download_file_def bind_eq_Some_conv split: if_split_asm prod.split_asm)
  have "follows (md5sum h) 0 h2 \<and> size_file h2 = size_file h"
    using i assms(4,5) by (auto simp: HAL_Download_Init_def flash_call_def ota_malloc_def follows_def Let_def
        split: prod.splits list.splits if_splits)
  then have "loop_result_ok (md5sum h) (size_file h) (result, h3)"
    by (intro download_loop_result [OF l assms(2)]) (simp add: loop_inv_def)
  then obtain t where t: "result = Inr t" "t < 2 ^ 31" "ota_state h3 = OTA_STATE_FETCHED" "0 \<le> t"
    and f: "follows (md5sum h) (nat t) h3"
    using e by (auto simp: loop_result_ok_def loop_inv_def split: sum.splits)
  have "int (length (flash h3)) = t" using f t(4) by (simp add: follows_def)
  then show ?thesis
    using e t download_finish_digest [OF _ t(3) f] by (auto split: if_splits)
qed

subsection \<open>A download on a client that is not connected\<close>

text \<open>
  One piece with the whole file arrives; the three reports of the download are skipped because there is
  no memory for them.
\<close>

definition sample_firmware :: bytes where "sample_firmware = [0x55, 0x43, 0x4C]"

definition sample_client :: UIoT_Client where
  "sample_client = zero_client \<lparr>st_check_repeat = False, st_repeat_buf = [], st_repeat_cnt = 0\<rparr>
     \<lparr>clock = 0, ticks = [], ssl_rx = [], ssl_tx = [], tls_up = [], mallocs = [True, False, False, False],
      held = {}, handle = 0, wire = []\<rparr>"

definition sample_ota :: OTA_Struct_t where
  "sample_ota = \<lparr>ota_state = OTA_STATE_FETCHING, size_last_fetched = 0, size_fetched = 0, size_file = 3,
     ota_url = Some [0x75], download_name = Some [0x66], ota_module = Some [0x6D], ota_version = Some [0x31],
     md5sum = Some (map of_char (hex_string (rfc_md5 sample_firmware))),
     ota_md5 = Some (utils_md5_starts utils_md5_init), ch_fetch = Fetch_live, ota_err = 0, report_timer = 0,
     fetch_callback_func = False, osc_product_sn = [0x70], osc_device_sn = [0x64], msg_list = Some [],
     ota_mqtt = sample_client, http_connects = [], http_rx = [HttpData sample_firmware], flash_rx = [],
     flash = [], fetch_events = [], missing_args = None\<rparr>"

lemma yield_not_connected:
  assumes "lock_generic \<notin> held c" "\<not> is_connected c" "\<not> was_manually_disconnected c" "auto_connect_enable (options c) = 0" "0 < ms"
  shows "uiot_mqtt_yield ms c = Some (ERR_MQTT_NO_CONN, c)"
  using assms by (simp add: uiot_mqtt_yield_def get_client_conn_state_def HAL_MutexLock_def HAL_MutexUnlock_def)

lemma no_memory_reports:
  assumes "mallocs (ota_mqtt h) = False # bs" "ota_state h \<noteq> OTA_STATE_UNINITED"
  shows "0 \<le> p \<Longrightarrow> p \<le> 100 \<Longrightarrow> IOT_OTA_ReportProgress p s h =
      Some (ERR_OTA_NO_MEMORY, h\<lparr>ota_mqtt := (ota_mqtt h)\<lparr>mallocs := bs\<rparr>, ota_err := ERR_OTA_NO_MEMORY\<rparr>)"
    and "v \<noteq> [] \<Longrightarrow> length v \<le> 32 \<Longrightarrow> \<not> fetch_callback_func h \<Longrightarrow> IOT_OTA_ReportSuccess (Some v) h =
      Some (ERR_OTA_NO_MEMORY, h\<lparr>ota_mqtt := (ota_mqtt h)\<lparr>mallocs := bs\<rparr>, ota_err := ERR_OTA_NO_MEMORY\<rparr>)"
  using assms
  by (simp_all add: IOT_OTA_ReportProgress_def IOT_OTA_ReportSuccess_def send_upstream_msg_with_version_def
      call_fetch_callback_def ota_malloc_def HAL_Malloc_def)

text \<open>What the steps after the fetch need to know of the handle.\<close>

definition fetched_sample :: "md5_context \<Rightarrow> OTA_Struct_t \<Rightarrow> bool" where
  "fetched_sample ctx h \<longleftrightarrow> ota_state h = OTA_STATE_FETCHED \<and> ota_md5 h = Some ctx \<and>
     md5sum h = Some (map of_char (hex_string (rfc_md5 sample_firmware))) \<and> ota_version h = Some [0x31] \<and>
     ch_fetch h = Fetch_live \<and> \<not> fetch_callback_func h \<and> flash_rx h = [] \<and> mallocs (ota_mqtt h) = [False] \<and>
     held (ota_mqtt h) = {} \<and> \<not> is_connected (ota_mqtt h) \<and> \<not> was_manually_disconnected (ota_mqtt h) \<and>
     auto_connect_enable (options (ota_mqtt h)) = 0"

lemma sample_fetch:
  assumes u: "utils_md5_update (utils_md5_starts utils_md5_init) sample_firmware = Some ctx"
    and h: "h = sample_ota\<lparr>ota_mqtt := sample_client\<lparr>mallocs := [False, False, False]\<rparr>\<rparr>"
    and buf: "put_bytes (b, 0) sample_firmware = Some (buf, 3)" "get_bytes buf 0 3 = Some sample_firmware" "b \<noteq> []"
  shows "\<exists>h'. IOT_OTA_FetchYield b h = Some ((3, buf), h') \<and> fetched_sample ctx h' \<and> flash h' = []"
proof -
  let ?h1 = "h\<lparr>http_rx := []\<rparr>"
  have z: "size_fetched h = 0" by (simp add: h sample_ota_def)
  have len: "length sample_firmware = 3" by (simp add: sample_firmware_def)
  have f: "ofc_fetch b h = Some ((3, buf), ?h1)"
    using buf len by (simp add: ofc_fetch_def h sample_ota_def)
  have r1: "IOT_OTA_ReportProgress 0 OTA_REPORT_DOWNLOADING ?h1 = Some (ERR_OTA_NO_MEMORY,
      ?h1\<lparr>ota_mqtt := (ota_mqtt ?h1)\<lparr>mallocs := [False, False]\<rparr>, ota_err := ERR_OTA_NO_MEMORY\<rparr>)" (is "_ = Some (_, ?h2)")
    by (rule no_memory_reports) (simp_all add: h sample_ota_def)
  have f5: "fetch_retry 5 0 b h = Some ((3, buf), restart_report_timer (?h2\<lparr>report_timer := init_timer\<rparr>))" (is "_ = Some (_, ?h3)")
    using fetch_retry.simps(2) [of 4 0 b h] f r1 z by simp
  obtain t c where c: "countdown OTA_REPORT_PROGRESS_INTERVAL (ota_mqtt ?h2) = (t, c)" by (cases "countdown OTA_REPORT_PROGRESS_INTERVAL (ota_mqtt ?h2)")
  have c2: "mallocs c = [False, False]" "held c = {}" "\<not> is_connected c" "\<not> was_manually_disconnected c"
      "auto_connect_enable (options c) = 0"
    using c by (auto simp: countdown_def HAL_Timer_Countdown_def gettimeofday_def Let_def h sample_ota_def
        sample_client_def zero_client_def)
  define h3 where "h3 = ?h2\<lparr>report_timer := t, ota_mqtt := c\<rparr>"
  have f5': "fetch_retry 5 0 b h = Some ((3, buf), h3)" using f5 c by (simp add: restart_report_timer_def h3_def)
  have f3: "ota_mqtt h3 = c" "ota_state h3 = OTA_STATE_FETCHING" "size_file h3 = 3" "size_fetched h3 = 0"
      "ota_md5 h3 = Some (utils_md5_starts utils_md5_init)" "flash h3 = []" "flash_rx h3 = []"
      "md5sum h3 = Some (map of_char (hex_string (rfc_md5 sample_firmware)))" "ota_version h3 = Some [0x31]"
      "ch_fetch h3 = Fetch_live" "\<not> fetch_callback_func h3"
    by (simp_all add: h3_def h sample_ota_def)
  let ?h4 = "h3\<lparr>ota_md5 := Some ctx, size_last_fetched := 3, size_fetched := 3\<rparr>"
  have r2: "IOT_OTA_ReportProgress 100 OTA_REPORT_DOWNLOADING ?h4 = Some (ERR_OTA_NO_MEMORY,
      ?h4\<lparr>ota_mqtt := (ota_mqtt ?h4)\<lparr>mallocs := [False]\<rparr>, ota_err := ERR_OTA_NO_MEMORY\<rparr>)"
    by (rule no_memory_reports) (simp_all add: f3 c2)
  have p: "report_percent ?h4 = Some (?h4\<lparr>ota_mqtt := (ota_mqtt ?h4)\<lparr>mallocs := [False]\<rparr>, ota_err := ERR_OTA_NO_MEMORY\<rparr>)"
    using r2 by (simp add: report_percent_def f3 int_of_uint32_def)
  have m: "ota_lib_md5_update sample_firmware h3 = Some (h3\<lparr>ota_md5 := Some ctx\<rparr>)"
    using u by (simp add: ota_lib_md5_update_def f3)
  have st: "ota_state h = OTA_STATE_FETCHING" by (simp add: h sample_ota_def)
  show ?thesis using f5' p m buf(2,3) st
    by (simp add: IOT_OTA_FetchYield_def Let_def f3 fetched_sample_def c2)
qed

lemma sample_download: "\<exists>h'. IOT_OTA_fw_download Some sample_ota = Some (SUCCESS_RET, h') \<and> length (flash h') = 3"
proof -
  let ?m = sample_firmware and ?b = "replicate HTTP_OTA_BUFF_LEN 0 :: bytes"
  let ?hex = "map of_char (hex_string (rfc_md5 ?m)) :: bytes"
  let ?h = "sample_ota\<lparr>ota_mqtt := sample_client\<lparr>mallocs := [False, False, False]\<rparr>\<rparr>"
  obtain ctx where u: "utils_md5_update (utils_md5_starts utils_md5_init) ?m = Some ctx" and ctx: "md5_holds ctx ?m"
    using md5_update [OF md5_starts, of ?m] by (auto simp: sample_firmware_def)
  obtain buf where buf: "put_bytes (?b, 0) ?m = Some (buf, 3)" "get_bytes buf 0 3 = Some ?m"
    by (simp add: put_bytes_def get_bytes_def HTTP_OTA_BUFF_LEN_def sample_firmware_def)
  from sample_fetch [OF u refl buf] obtain h1 where h1: "IOT_OTA_FetchYield ?b ?h = Some ((3, buf), h1)"
    "fetched_sample ctx h1" "flash h1 = []" by (auto simp: HTTP_OTA_BUFF_LEN_def)
  let ?h2 = "h1\<lparr>flash := ?m\<rparr>"
  note h1_simps = h1(2) [unfolded fetched_sample_def]
  have w: "HAL_Download_Write ?m h1 = (True, ?h2)"
    using h1_simps h1(3) by (simp add: HAL_Download_Write_def flash_call_def)
  have y: "IOT_OTA_Yield Some 100 ?h2 = Some (ERR_MQTT_NO_CONN, ?h2)"
    using h1_simps yield_not_connected [of "ota_mqtt h1" 100] by (simp add: IOT_OTA_Yield_def)
  have l: "download_loop Some ?b 0 ?h = Some (Inr 3, ?h2)"
    using h1_simps h1(1) buf(2) w y by (subst download_loop.simps) (simp add: IOT_OTA_IsFetchFinish_def)
  have f: "follows (Some ?hex) 3 ?h2"
    using h1_simps ctx by (simp add: follows_def sample_firmware_def)
  obtain ctx' where "utils_md5_finish_hb2hex ctx = Some (?hex @ [0], ctx')"
    using md5_finish_hb2hex [OF ctx] by (auto simp: sample_firmware_def)
  then have "check_firmware ?h2 = Some ((SUCCESS_RET, Some (Ioctl_number 1)), ?h2\<lparr>ota_md5 := Some ctx'\<rparr>)" (is "_ = Some (_, ?h3)")
    using h1_simps hex_string_cstr [of "rfc_md5 ?m"]
    by (simp add: check_firmware_def ota_lib_md5_finalize_def cstr_of_array_def)
  moreover have "IOT_OTA_Ioctl OTA_IOCTL_VERSION True 33 ?h3 = Some ((SUCCESS_RET, Some (Ioctl_string [0x31])), ?h3)"
    using h1_simps by (simp add: IOT_OTA_Ioctl_def less_IOT_OTA_State_def)
  moreover have "IOT_OTA_ReportSuccess (Some [0x31]) ?h3 = Some (ERR_OTA_NO_MEMORY,
      ?h3\<lparr>ota_mqtt := (ota_mqtt ?h3)\<lparr>mallocs := []\<rparr>, ota_err := ERR_OTA_NO_MEMORY\<rparr>)" (is "_ = Some (_, ?h4)")
    by (rule no_memory_reports) (use h1_simps in simp_all)
  moreover have "flash_call ?h4 = (True, ?h4)" using h1_simps by (simp add: flash_call_def)
  ultimately have "download_finish ?h2 = Some (SUCCESS_RET, ?h4)"
    using h1_simps by (simp add: download_finish_def Ioctl_check download_report_def HAL_Download_End_def)
  moreover have "sint (3 :: 32 word) = 3" by simp
  ultimately have "download_file Some sample_ota = Some (SUCCESS_RET, ?h4)" using l
    by (simp add: download_file_def IOT_OTA_Ioctl_def less_IOT_OTA_State_def sample_ota_def HAL_Download_Init_def
        flash_call_def ota_malloc_def HAL_Malloc_def sample_client_def zero_client_def)
  then show ?thesis using h1_simps
    by (simp add: IOT_OTA_fw_download_def IOT_OTA_Clear_def ofc_deinit_def ota_lib_md5_deinit_def ota_lib_md5_init_def split_beta Let_def
        ota_malloc_def sample_firmware_def)
qed



subsection \<open>Messages during a download\<close>

text \<open>
  A message that the callback handles while the handle is fetching waits in the list or cancels the
  download; it does not touch what is downloaded.
\<close>

lemma callback_while_fetching:
  assumes "ota_callback deliver name_set msg h = Some h'" "ota_state h = OTA_STATE_FETCHING"
  shows "ota_frame h h'"
proof -
  obtain ok h1 where m: "ota_malloc h = (ok, h1)" by (cases "ota_malloc h")
  note d1 = frame_malloc [OF m]
  show ?thesis
  proof (cases ok)
    case True
    from assms(1) m True obtain ret v h2 where t: "ota_lib_get_msg_type (takeWhile (\<lambda>c. c \<noteq> 0) msg) h1 = Some ((ret, v), h2)"
      by (subst (asm) ota_callback.simps) (auto simp: bind_eq_Some_conv Let_def)
    then have d2: "ota_frame h h2" "ota_state h2 = OTA_STATE_FETCHING"
      using d1 assms(2) by (auto dest!: frame_msg_type intro: frame_trans)
    have "ota_frame h2 h'" using assms(1) m True t d2(2)
      by (subst (asm) ota_callback.simps)
         (auto simp: update_firmware_def Let_def bind_eq_Some_conv split: if_split_asm dest!: frame_cancel frame_push)
    with d2(1) show ?thesis by (rule frame_trans)
  qed (use assms(1) m d1 in \<open>subst (asm) ota_callback.simps, simp\<close>)
qed

lemma message_while_fetching_ok:
  "deliver_ok (\<lambda>h. if ota_state h = OTA_STATE_FETCHING then ota_callback deliver name_set msg h else Some h)"
  by (auto simp: deliver_ok_def dest: callback_while_fetching [THEN frame_data])

subsection \<open>The properties\<close>

text \<open>
  C18: Firmware: a download that \<open>IOT_OTA_fw_download\<close> reports as successful has left in the flash a
  file whose MD5 digest is the one that the cloud has announced, or a file of another length than
  announced: the digest is not compared then, and the download succeeds all the same.  The messages that
  arrive meanwhile must not replace the announced data.
\<close>

theorem download_success_is_verified:
  assumes "IOT_OTA_fw_download deliver h = Some (SUCCESS_RET, h')" "deliver_ok deliver"
    and "ota_state h = OTA_STATE_FETCHING" "ota_md5 h = Some ctx" "md5_holds ctx []"
  shows "md5sum h = Some (map of_char (hex_string (rfc_md5 (flash h')))) \<or> int (length (flash h')) \<noteq> sint (size_file h)"
proof -
  from assms(1) obtain h1 where h1: "download_file deliver h = Some (SUCCESS_RET, h1)" "IOT_OTA_Clear h1 = Some h'"
    by (auto simp: IOT_OTA_fw_download_def bind_eq_Some_conv)
  show ?thesis using download_file_result [OF h1(1) assms(2-)] Clear_flash [OF h1(2)] by simp
qed

theorem download_success_is_verified_witness:
  "\<exists>h'. IOT_OTA_fw_download Some sample_ota = Some (SUCCESS_RET, h') \<and>
    md5sum sample_ota = Some (map of_char (hex_string (rfc_md5 (flash h'))))"
proof -
  obtain h' where h': "IOT_OTA_fw_download Some sample_ota = Some (SUCCESS_RET, h')" "length (flash h') = 3"
    using sample_download by blast
  have "md5sum sample_ota = Some (map of_char (hex_string (rfc_md5 (flash h')))) \<or>
      int (length (flash h')) \<noteq> sint (size_file sample_ota)"
    by (rule download_success_is_verified [OF h'(1), where ctx = "utils_md5_starts utils_md5_init"])
       (simp_all add: deliver_ok_def sample_ota_def md5_starts)
  then show ?thesis using h' by (simp add: sample_ota_def)
qed




end
