(* ===== verification/Ota_Reach.thy ===== *)
theory Ota_Reach
  imports Ota_Props Connect_Props
begin

text \<open>
  The firmware update on top of the MQTT client: whatever the cloud sends and the HTTP server answers, the
  client below stays in a state that its own interface can reach, so that its invariant holds.
\<close>

definition client_sound :: "OTA_Struct_t \<Rightarrow> bool" where
  "client_sound h \<longleftrightarrow> reachable (ota_mqtt h)"

lemma sound_update [simp]:
  "client_sound (h\<lparr>ota_state := s\<rparr>) = client_sound h"
  "client_sound (h\<lparr>ota_err := e\<rparr>) = client_sound h"
  "client_sound (h\<lparr>flash_rx := fx\<rparr>) = client_sound h"
  "client_sound (h\<lparr>flash := fl\<rparr>) = client_sound h"
  "client_sound (h\<lparr>msg_list := l\<rparr>) = client_sound h"
  "client_sound (h\<lparr>ota_md5 := m\<rparr>) = client_sound h"
  "client_sound (h\<lparr>size_fetched := n\<rparr>) = client_sound h"
  "client_sound (h\<lparr>size_last_fetched := n\<rparr>) = client_sound h"
  "client_sound (h\<lparr>size_file := n\<rparr>) = client_sound h"
  "client_sound (h\<lparr>ota_module := t\<rparr>) = client_sound h"
  "client_sound (h\<lparr>ota_version := t\<rparr>) = client_sound h"
  "client_sound (h\<lparr>ota_url := t\<rparr>) = client_sound h"
  "client_sound (h\<lparr>download_name := t\<rparr>) = client_sound h"
  "client_sound (h\<lparr>md5sum := t\<rparr>) = client_sound h"
  by (simp_all add: client_sound_def)

lemma reachable_moves: "client_step\<^sup>*\<^sup>* c c' \<Longrightarrow> reachable c \<Longrightarrow> reachable c'"
  by (induction rule: rtranclp_induct) (auto intro: reachable.step)

lemma sound_frame: "ota_frame h h' \<Longrightarrow> client_sound h \<Longrightarrow> client_sound h'"
  by (auto simp: ota_frame_def client_moves_def client_sound_def intro: reachable_moves)

lemmas sound_keeps = keepsD [THEN sound_frame]

lemma sound_json_value: "ota_json_value key json h = Some (v, h') \<Longrightarrow> client_sound h \<Longrightarrow> client_sound h'"
  by (rule sound_frame [OF frame_json_value [THEN conjunct1]])

lemma sound_store_file_size [simp]: "client_sound (snd (store_file_size v h)) = client_sound h"
  by (simp add: store_file_size_def split: option.split)

lemma sound_get_params:
  "ota_lib_get_params name_set json h = Some (r, h') \<Longrightarrow> client_sound h \<Longrightarrow> client_sound h'"
  by (auto simp: ota_lib_get_params_def bind_eq_Some_conv Let_def prod_eq_iff split: if_split_asm
      dest!: sound_json_value)

lemma sound_md5:
  "ota_lib_md5_update x h = Some h' \<Longrightarrow> client_sound h' = client_sound h"
  "ota_lib_md5_finalize h = Some (d, h') \<Longrightarrow> client_sound h' = client_sound h"
  by (auto simp: ota_lib_md5_update_def ota_lib_md5_finalize_def bind_eq_Some_conv)

lemma sound_malloc: "ota_malloc h = (ok, h') \<Longrightarrow> client_sound h \<Longrightarrow> client_sound h'"
  by (rule sound_frame [OF frame_malloc [THEN conjunct1]])

lemma sound_md5_init: "client_sound h \<Longrightarrow> client_sound (ota_lib_md5_init h)"
  by (cases "ota_malloc h") (auto simp: ota_lib_md5_init_def dest: sound_malloc)

lemma sound_flash_call [simp]: "client_sound (snd (flash_call h)) = client_sound h"
  by (simp add: flash_call_def split: list.splits)

lemma sound_check_firmware: "check_firmware h = Some (r, h') \<Longrightarrow> client_sound h \<Longrightarrow> client_sound h'"
  by (auto simp: check_firmware_def bind_eq_Some_conv sound_md5 split: if_split_asm
      dest!: sound_keeps [OF keeps_ReportFail])

lemma sound_Ioctl: "IOT_OTA_Ioctl cmd al n h = Some (r, h') \<Longrightarrow> client_sound h \<Longrightarrow> client_sound h'"
  by (auto simp: IOT_OTA_Ioctl_def bind_eq_Some_conv split: if_split_asm IOT_OTA_CmdType.split_asm
      dest: sound_check_firmware)

lemma sound_download_finish:
  assumes "download_finish h = Some (r, h')" "client_sound h"
  shows "client_sound h'"
proof -
  from assms(1) obtain ret out h1 where c: "IOT_OTA_Ioctl OTA_IOCTL_CHECK_FIRMWARE True 4 h = Some ((ret, out), h1)"
    by (auto simp: download_finish_def bind_eq_Some_conv)
  have "client_sound h1" by (rule sound_Ioctl [OF c assms(2)])
  then show ?thesis using assms(1) c
    by (auto simp: download_finish_def bind_eq_Some_conv split: if_split_asm option.split_asm ioctl_output.split_asm
        dest: sound_Ioctl sound_keeps [OF keeps_download_report])
qed

lemma sound_FetchYield: "IOT_OTA_FetchYield buf h = Some (r, h') \<Longrightarrow> client_sound h \<Longrightarrow> client_sound h'"
  by (auto simp: IOT_OTA_FetchYield_def bind_eq_Some_conv Let_def sound_md5 split: if_split_asm
      dest!: sound_keeps [OF keeps_fetch_retry] sound_frame [OF frame_report_percent])

lemma sound_Clear: "IOT_OTA_Clear h = Some h' \<Longrightarrow> client_sound h \<Longrightarrow> client_sound h'"
  by (auto simp: IOT_OTA_Clear_def bind_eq_Some_conv Let_def ota_lib_md5_deinit_def dest!: sound_frame [OF frame_ofc_deinit]
      intro!: sound_md5_init)

text \<open>What is asked of the messages that arrive while the client yields.\<close>

definition deliver_sound :: "deliver \<Rightarrow> bool" where
  "deliver_sound deliver \<longleftrightarrow> (\<forall>h h'. deliver h = Some h' \<longrightarrow> client_sound h \<longrightarrow> client_sound h')"

lemma sound_Yield:
  assumes "IOT_OTA_Yield deliver ms h = Some (r, h')" "deliver_sound deliver" "client_sound h"
  shows "client_sound h'"
proof -
  from assms(1) obtain c where y: "uiot_mqtt_yield ms (ota_mqtt h) = Some (r, c)" "deliver (h\<lparr>ota_mqtt := c\<rparr>) = Some h'"
    by (auto simp: IOT_OTA_Yield_def bind_eq_Some_conv)
  have "reachable c" using reachable.step [OF _ client_step.yield [OF y(1)]] assms(3) by (simp add: client_sound_def)
  then have "client_sound (h\<lparr>ota_mqtt := c\<rparr>)" by (simp add: client_sound_def)
  with y(2) assms(2) show ?thesis unfolding deliver_sound_def by blast
qed

lemma sound_Write: "HAL_Download_Write bs h = (ok, h') \<Longrightarrow> client_sound h' = client_sound h"
  by (auto simp: HAL_Download_Write_def split_beta Let_def)

lemma sound_download_loop:
  assumes "download_loop deliver buf tot h = Some y" "deliver_sound deliver" "client_sound h"
  shows "client_sound (snd y)"
  using assms(2,3)
proof (induction rule: download_loop.raw_induct [OF _ assms(1)])
  case (1 loop deliver buf tot h y)
  obtain len buf1 h1 where f: "IOT_OTA_FetchYield buf h = Some ((len, buf1), h1)"
    using 1(2) by (auto simp: bind_eq_Some_conv)
  have s1: "client_sound h1" by (rule sound_FetchYield [OF f 1(4)])
  show ?case
  proof (cases "len \<le> 0")
    case True
    then show ?thesis using 1(2) f s1 by auto
  next
    case False
    then obtain piece where p: "get_bytes buf1 0 (nat len) = Some piece" using 1(2) f by (auto simp: bind_eq_Some_conv)
    obtain ok h2 where w: "HAL_Download_Write piece h1 = (ok, h2)" by (cases "HAL_Download_Write piece h1")
    note s2 = sound_Write [OF w]
    show ?thesis
    proof (cases "ok \<and> tot + len < 2 ^ 31")
      case True
      obtain r h3 where y: "IOT_OTA_Yield deliver 100 h2 = Some (r, h3)"
        using 1(2) f p w True False by (cases "IOT_OTA_Yield deliver 100 h2") auto
      obtain b h4 where i: "IOT_OTA_IsFetchFinish h3 = (b, h4)" by (cases "IOT_OTA_IsFetchFinish h3")
      have e: "(if b then Some (Inr (tot + len), h4) else loop deliver buf1 (tot + len) h4) = Some y"
        using 1(2) f p w True False y i by simp
      have "client_sound h3" using sound_Yield [OF y 1(3)] s1 s2 by simp
      then have "client_sound h4" using i by (auto simp: IOT_OTA_IsFetchFinish_def split: if_splits)
      then show ?thesis using e 1(1) [OF _ 1(3)] by (cases b) auto
    next
      case False
      then show ?thesis using 1(2) f p w \<open>\<not> len \<le> 0\<close> s1 s2 by (auto split: if_split_asm)
    qed
  qed
qed

lemma sound_fw_download:
  assumes "IOT_OTA_fw_download deliver h = Some (r, h')" "deliver_sound deliver" "client_sound h"
  shows "client_sound h'"
proof -
  obtain out h1 where i: "IOT_OTA_Ioctl OTA_IOCTL_FILE_SIZE True 4 h = Some (out, h1)"
    using assms(1) by (auto simp: IOT_OTA_fw_download_def download_file_def bind_eq_Some_conv)
  obtain ok h2 where d: "HAL_Download_Init h1 = (ok, h2)" by (cases "HAL_Download_Init h1")
  obtain ok' h3 where m: "ota_malloc h2 = (ok', h3)" by (cases "ota_malloc h2")
  have s2: "client_sound h2" using d sound_Ioctl [OF i assms(3)] by (auto simp: HAL_Download_Init_def split_beta Let_def)
  have s3: "client_sound h3" by (rule sound_malloc [OF m s2])
  from assms(1) obtain h4 where f: "download_file deliver h = Some (r, h4)" and c: "IOT_OTA_Clear h4 = Some h'"
    by (auto simp: IOT_OTA_fw_download_def bind_eq_Some_conv)
  have "client_sound h4"
  proof (cases "ok \<and> ok'")
    case True
    with f i d m obtain res h5 where l: "download_loop deliver (replicate HTTP_OTA_BUFF_LEN 0) 0 h3 = Some (res, h5)"
      by (cases out) (auto simp: download_file_def bind_eq_Some_conv)
    have s5: "client_sound h5" using sound_download_loop [OF l assms(2) s3] by simp
    show ?thesis using f i d m l True s5
      by (cases out; cases res)
         (auto simp: download_file_def bind_eq_Some_conv split: if_split_asm dest: sound_download_finish)
  next
    case False
    then show ?thesis using f i d m s2 s3 by (cases out) (auto simp: download_file_def split: if_split_asm)
  qed
  then show ?thesis by (rule sound_Clear [OF c])
qed

lemma sound_update_firmware:
  assumes "update_firmware deliver name_set msg h = Some (r, h')" "deliver_sound deliver" "client_sound h"
  shows "client_sound h'"
proof (cases "ota_state h = OTA_STATE_FETCHING")
  case True
  then show ?thesis using assms(1,3) by (auto simp: update_firmware_def dest: sound_frame [OF frame_push])
next
  case False
  then obtain ret h1 where g: "ota_lib_get_params name_set msg h = Some (ret, h1)"
    using assms(1) by (auto simp: update_firmware_def bind_eq_Some_conv)
  have s1: "client_sound (ofc_init h1)" by (rule sound_frame [OF frame_ofc_init sound_get_params [OF g assms(3)]])
  then show ?thesis using False assms(1) g sound_get_params [OF g assms(3)]
    by (auto simp: update_firmware_def bind_eq_Some_conv Let_def split: if_split_asm
        dest!: sound_keeps [OF keeps_ofc_connect] sound_fw_download [OF _ assms(2)])
qed

lemma sound_callback:
  assumes "ota_callback deliver name_set msg h = Some h'" "deliver_sound deliver" "client_sound h"
  shows "client_sound h'"
  using assms(2,3)
proof (induction rule: ota_callback.raw_induct [OF _ assms(1)])
  case (1 callback deliver name_set msg h h')
  obtain ok h1 where m: "ota_malloc h = (ok, h1)" by (cases "ota_malloc h")
  have s1: "client_sound h1" by (rule sound_malloc [OF m 1(4)])
  show ?case
  proof (cases ok)
    case True
    with 1(2) m obtain ret v h2 where t: "ota_lib_get_msg_type (takeWhile (\<lambda>c. c \<noteq> 0) msg) h1 = Some ((ret, v), h2)"
      by (auto simp: bind_eq_Some_conv Let_def)
    have s2: "client_sound h2" by (rule sound_frame [OF frame_msg_type [OF t, THEN conjunct1] s1])
    show ?thesis using 1(2) m True t s2
      by (auto simp: bind_eq_Some_conv Let_def split: if_split_asm
          dest!: sound_update_firmware [OF _ 1(3)] sound_frame [OF frame_cancel] 1(1) [OF _ 1(3)])
  qed (use 1(2) m s1 in simp)
qed


text \<open>Messages may arrive while an earlier one is handled, to any depth.\<close>

lemma callback_deliver_sound: "deliver_sound deliver \<Longrightarrow> deliver_sound (ota_callback deliver name_set msg)"
  using sound_callback by (auto simp: deliver_sound_def)




end
