(* ===== verification/Shadow_Json.thy ===== *)
theory Shadow_Json
  imports Json_Token Text_Format Mqtt_Api
begin

text \<open>
  The device shadow, its data and the JSON documents it exchanges: \<^verbatim>\<open>src/shadow/include/shadow_client.h\<close>,
  \<^verbatim>\<open>src/shadow/src/shadow_client_json.c\<close> and the functions of \<^verbatim>\<open>shadow_client_manager.c\<close> that build a document.

  \<^item> A device property belongs to the application and is shared by its address: \<open>devices\<close> is the memory
    of properties, \<open>data_at\<close> that of their values, as the bytes that are stored there.
  \<^item> A handle is the record \<open>UIoT_Shadow\<close> with the MQTT client it talks through, the two static variables of
    \<^verbatim>\<open>shadow_client_manager.c\<close>, the mutexes that are held, and the calls of the application's callbacks.
  \<^item> A request that waits also keeps a pointer to its list of properties, which nothing reads; it is left out.
  \<^item> A list is the list of its values; \<open>None\<close> is a list that has been destroyed.
  \<^item> The conversions between floating-point numbers and text are functions of the C library, \<open>float_text\<close>
    and \<open>float_scan\<close> in the handle.
\<close>

datatype Method = GET | UPDATE | UPDATE_AND_RESET_VER | DELETE | DELETE_ALL | REPLY_CONTROL_UPDATE | REPLY_CONTROL_DELETE

datatype RequestAck = ACK_NONE | ACK_TIMEOUT | ACK_REJECTED | ACK_ACCEPTED

datatype JsonDataType = JINT32 | JINT16 | JINT8 | JUINT32 | JUINT16 | JUINT8 | JFLOAT | JDOUBLE | JBOOL | JSTRING | JOBJECT

record DeviceProperty =
  prop_key :: "bytes option"
  prop_data :: "nat option"
  prop_type :: JsonDataType

record RequestParams =
  rp_method :: Method
  rp_delta :: "nat list"
  rp_timeout :: nat
  rp_callback :: "nat option"
  rp_context :: nat

record Request =
  rq_method :: Method
  rq_context :: nat
  rq_timer :: Timer
  rq_callback :: "nat option"

record PropertyHandler =
  ph_property :: nat
  ph_callback :: nat

datatype shadow_lock = request_mutex | property_mutex

text \<open>A call of the callback of a request: its address, the method, the outcome and the context.\<close>

datatype shadow_event = RequestDone nat Method RequestAck nat

record UIoT_Shadow =
  sh_mqtt :: UIoT_Client
  sh_product_sn :: bytes
  sh_device_sn :: bytes
  sh_version :: "32 word"
  request_list :: "Request list option"
  property_list :: "PropertyHandler list option"
  sh_held :: "shadow_lock set"
  cloud_rcv_buf :: bytes
  cloud_send_method :: Method
  devices :: "nat \<Rightarrow> DeviceProperty option"
  data_at :: "nat \<Rightarrow> bytes option"
  float_text :: "bytes \<Rightarrow> bytes"
  float_scan :: "nat \<Rightarrow> bytes \<Rightarrow> bytes option"
  sh_events :: "(shadow_event \<times> shadow_lock set) list"

type_synonym 'r sh = "('r \<times> UIoT_Shadow) option"

definition sh_malloc :: "UIoT_Shadow \<Rightarrow> bool \<times> UIoT_Shadow" where
  "sh_malloc s = (let (ok, c) = HAL_Malloc (sh_mqtt s) in (ok, s\<lparr>sh_mqtt := c\<rparr>))"

subsection \<open>Values as text\<close>

text \<open>An integer of \<open>n\<close> bytes in memory, the least significant byte first.\<close>

definition le_value :: "bytes \<Rightarrow> nat" where
  "le_value bs = foldr (\<lambda>b n. unat b + 256 * n) bs 0"

definition le_signed :: "bytes \<Rightarrow> int" where
  "le_signed bs = (let n = int (le_value bs); w = 8 * length bs in if n < 2 ^ (w - 1) then n else n - 2 ^ w)"

definition value_text :: "UIoT_Shadow \<Rightarrow> JsonDataType \<Rightarrow> bytes \<Rightarrow> bytes option" where
  "value_text s type mem = (case type of
     JINT32 \<Rightarrow> map_option (decimal \<circ> le_signed) (get_bytes mem 0 4)
   | JINT16 \<Rightarrow> map_option (decimal \<circ> le_signed) (get_bytes mem 0 2)
   | JINT8 \<Rightarrow> map_option (decimal \<circ> le_signed) (get_bytes mem 0 1)
   | JUINT32 \<Rightarrow> map_option (decimal_nat \<circ> le_value) (get_bytes mem 0 4)
   | JUINT16 \<Rightarrow> map_option (decimal_nat \<circ> le_value) (get_bytes mem 0 2)
   | JUINT8 \<Rightarrow> map_option (decimal_nat \<circ> le_value) (get_bytes mem 0 1)
   | JDOUBLE \<Rightarrow> map_option (float_text s) (get_bytes mem 0 8)
   | JFLOAT \<Rightarrow> map_option (float_text s) (get_bytes mem 0 4)
   | JBOOL \<Rightarrow> map_option (\<lambda>b. [if b \<noteq> 0 then 0x31 else 0x30]) (arr_get mem 0)
   | JSTRING \<Rightarrow> map_option (\<lambda>t. 0x22 # t @ [0x22]) (cstr_of_array mem)
   | JOBJECT \<Rightarrow> cstr_of_array mem)"

definition node_text :: "UIoT_Shadow \<Rightarrow> nat option \<Rightarrow> JsonDataType \<Rightarrow> bytes option" where
  "node_text s pData type = (case pData of
     None \<Rightarrow> Some (lit ''null,'')
   | Some a \<Rightarrow> do { mem \<leftarrow> data_at s a; t \<leftarrow> value_text s type mem; Some (t @ [0x2C]) })"

subsection \<open>Documents\<close>

definition check_snprintf_return :: "nat \<Rightarrow> 64 word \<Rightarrow> int" where
  "check_snprintf_return returnCode maxSizeOfWrite =
     (if returnCode \<ge> unat maxSizeOfWrite then ERR_JSON_BUFFER_TRUNCATED else SUCCESS_RET)"

text \<open>
  The sizes are of type \<open>size_t\<close>: a size that is less than the length of the string wraps around.
\<close>

definition put_json_node ::
  "UIoT_Shadow \<Rightarrow> bytes \<Rightarrow> 64 word \<Rightarrow> bytes option \<Rightarrow> nat option \<Rightarrow> JsonDataType \<Rightarrow> (int \<times> bytes) option" where
  "put_json_node s jsonBuffer sizeOfBuffer pKey pData type = (case pKey of
     None \<Rightarrow> Some (ERR_PARAM_INVALID, jsonBuffer)
   | Some key \<Rightarrow> do {
       len \<leftarrow> strlen_at jsonBuffer 0;
       let remain_size = sizeOfBuffer - word_of_nat len;
       if remain_size \<le> 1 then Some (ERR_JSON_BUFFER_TOO_SMALL, jsonBuffer)
       else do {
         (n, jsonBuffer) \<leftarrow> snprintf_at jsonBuffer len remain_size (0x22 # key @ lit ''\":'');
         let ret = check_snprintf_return n remain_size;
         if ret \<noteq> SUCCESS_RET then Some (ret, jsonBuffer)
         else do {
           len \<leftarrow> strlen_at jsonBuffer 0;
           let remain_size = sizeOfBuffer - word_of_nat len;
           if remain_size \<le> 1 then Some (ERR_JSON_BUFFER_TOO_SMALL, jsonBuffer)
           else do {
             txt \<leftarrow> node_text s pData type;
             (n, jsonBuffer) \<leftarrow> snprintf_at jsonBuffer len remain_size txt;
             Some (check_snprintf_return n remain_size, jsonBuffer) } } } })"

text \<open>The beginning of a document; every method has one.\<close>

definition document_head :: "Method \<Rightarrow> nat list \<Rightarrow> bytes" where
  "document_head method delta =
     (let reported = (\<lambda>t. lit ''{\"Method\":\"'' @ lit t @ lit ''\",\"State\":{\"Reported\":{'');
          bare = (\<lambda>t. lit ''{\"Method\":\"'' @ lit t @ lit ''\",\"State\":{'')
      in case method of
        GET \<Rightarrow> lit ''{\"Method\":\"get\"''
      | UPDATE \<Rightarrow> reported ''update''
      | UPDATE_AND_RESET_VER \<Rightarrow> reported ''update''
      | REPLY_CONTROL_UPDATE \<Rightarrow> (if delta \<noteq> [] then reported ''update'' else bare ''update'')
      | DELETE \<Rightarrow> (if delta \<noteq> [] then reported ''delete'' else bare ''delete'')
      | REPLY_CONTROL_DELETE \<Rightarrow> (if delta \<noteq> [] then reported ''delete'' else bare ''delete'')
      | DELETE_ALL \<Rightarrow> lit ''{\"Method\":\"delete\",\"State\":{\"Reported\":'')"

definition shadow_json_init :: "bytes \<Rightarrow> 64 word \<Rightarrow> RequestParams \<Rightarrow> (int \<times> bytes) option" where
  "shadow_json_init pJsonDoc sizeOfBuffer pParams = do {
     (_, pJsonDoc) \<leftarrow> snprintf_at pJsonDoc 0 sizeOfBuffer (document_head (rp_method pParams) (rp_delta pParams));
     Some (SUCCESS_RET, pJsonDoc) }"

definition updates :: "Method \<Rightarrow> bool" where
  "updates method \<longleftrightarrow> method \<in> {UPDATE, UPDATE_AND_RESET_VER, REPLY_CONTROL_UPDATE}"

definition deletes :: "Method \<Rightarrow> bool" where
  "deletes method \<longleftrightarrow> method \<in> {DELETE, REPLY_CONTROL_DELETE}"

text \<open>
  The loop over the properties, from the tail of their list.  What \<open>put_json_node\<close> returns is ignored, and the size
  it is given is what remains in the buffer, not the size of the buffer.
\<close>

fun content_loop :: "UIoT_Shadow \<Rightarrow> Method \<Rightarrow> 64 word \<Rightarrow> nat list \<Rightarrow> 64 word \<Rightarrow> bytes \<Rightarrow> bytes option" where
  "content_loop s method sizeOfBuffer [] remain_size pJsonDoc = Some pJsonDoc"
| "content_loop s method sizeOfBuffer (a # delta) remain_size pJsonDoc = do {
     p \<leftarrow> devices s a;
     (_, pJsonDoc) \<leftarrow>
       (if prop_key p = None then Some (SUCCESS_RET, pJsonDoc)
        else if updates method then put_json_node s pJsonDoc remain_size (prop_key p) (prop_data p) (prop_type p)
        else if deletes method then put_json_node s pJsonDoc remain_size (prop_key p) None JSTRING
        else Some (SUCCESS_RET, pJsonDoc));
     json_len \<leftarrow> strlen_at pJsonDoc 0;
     content_loop s method sizeOfBuffer delta (sizeOfBuffer - word_of_nat json_len) pJsonDoc }"

definition shadow_json_set_content ::
  "bytes \<Rightarrow> 64 word \<Rightarrow> RequestParams \<Rightarrow> UIoT_Shadow \<Rightarrow> (int \<times> bytes) sh" where
  "shadow_json_set_content pJsonDoc sizeOfBuffer pParams s = do {
     json_len \<leftarrow> strlen_at pJsonDoc 0;
     let remain_size = sizeOfBuffer - word_of_nat json_len;
     if rp_method pParams = GET then Some ((SUCCESS_RET, pJsonDoc), s)
     else if rp_method pParams = DELETE_ALL then do {
       (n, pJsonDoc) \<leftarrow> snprintf_at pJsonDoc json_len remain_size (lit ''null'');
       Some ((check_snprintf_return n remain_size, pJsonDoc), s) }
     else if rp_delta pParams = [] then Some ((SUCCESS_RET, pJsonDoc), s)
     else do {
       let (ok, s) = sh_malloc s;
       if \<not> ok then Some ((ERR_PARAM_INVALID, pJsonDoc), s)
       else do {
         pJsonDoc \<leftarrow> content_loop s (rp_method pParams) sizeOfBuffer (rev (rp_delta pParams)) remain_size pJsonDoc;
         Some ((SUCCESS_RET, pJsonDoc), s) } } }"

text \<open>
  The end of a document, and whether it is written over the last character.  \<open>%d\<close> prints the version as a signed
  number.
\<close>

definition document_tail :: "Method \<Rightarrow> nat list \<Rightarrow> 32 word \<Rightarrow> bytes \<times> bool" where
  "document_tail method delta version =
     (let v = decimal (sint version) @ lit ''}''
      in case method of
        GET \<Rightarrow> (lit ''}'', False)
      | DELETE_ALL \<Rightarrow> (lit ''},\"Version\":'' @ v, False)
      | UPDATE_AND_RESET_VER \<Rightarrow> (lit ''}},\"Version\":-1}'', True)
      | UPDATE \<Rightarrow> (lit ''}},\"Version\":'' @ v, True)
      | DELETE \<Rightarrow> (lit ''}},\"Version\":'' @ v, True)
      | _ \<Rightarrow> if delta \<noteq> [] then (lit ''},\"Desired\":null},\"Version\":'' @ v, True)
             else (lit ''\"Desired\":null},\"Version\":'' @ v, False))"

definition shadow_json_finalize ::
  "32 word \<Rightarrow> bytes \<Rightarrow> 64 word \<Rightarrow> RequestParams \<Rightarrow> (int \<times> bytes) option" where
  "shadow_json_finalize version pJsonDoc sizeOfBuffer pParams = do {
     len \<leftarrow> strlen_at pJsonDoc 0;
     let remain_size = sizeOfBuffer - word_of_nat len;
     if remain_size \<le> 1 then Some (ERR_JSON_BUFFER_TOO_SMALL, pJsonDoc)
     else do {
       let (txt, over) = document_tail (rp_method pParams) (rp_delta pParams) version;
       if over \<and> len = 0 then None
       else do {
         (n, pJsonDoc) \<leftarrow> snprintf_at pJsonDoc (if over then len - 1 else len) remain_size txt;
         Some (check_snprintf_return n remain_size, pJsonDoc) } } }"

subsection \<open>Reading a document\<close>

text \<open>The document that has been received is read in the static buffer.\<close>

definition sh_json_value :: "bytes \<Rightarrow> UIoT_Shadow \<Rightarrow> bytes option sh" where
  "sh_json_value key s = do {
     (v, mem, c) \<leftarrow> LITE_json_value_of key (cloud_rcv_buf s) 0 (sh_mqtt s);
     Some (v, s\<lparr>cloud_rcv_buf := mem, sh_mqtt := c\<rparr>) }"

definition parse_uint32_field :: "bytes \<Rightarrow> UIoT_Shadow \<Rightarrow> 32 word option sh" where
  "parse_uint32_field key s = do {
     (v, s) \<leftarrow> sh_json_value key s;
     Some (Option.bind v LITE_get_uint32, s) }"

definition parse_version_num :: "UIoT_Shadow \<Rightarrow> 32 word option sh" where
  "parse_version_num = parse_uint32_field (lit ''Version'')"

definition parse_shadow_payload_retcode_type :: "UIoT_Shadow \<Rightarrow> 32 word option sh" where
  "parse_shadow_payload_retcode_type = parse_uint32_field (lit ''Payload.RetCode'')"

definition parse_shadow_payload_state_reported_state :: "UIoT_Shadow \<Rightarrow> bytes option sh" where
  "parse_shadow_payload_state_reported_state = sh_json_value (lit ''Payload.State.Reported'')"

definition parse_shadow_payload_state_desired_state :: "UIoT_Shadow \<Rightarrow> bytes option sh" where
  "parse_shadow_payload_state_desired_state = sh_json_value (lit ''Payload.State.Desired'')"

definition parse_shadow_method_type :: "UIoT_Shadow \<Rightarrow> bytes option sh" where
  "parse_shadow_method_type = sh_json_value (lit ''Method'')"

definition parse_shadow_state_reported_type :: "UIoT_Shadow \<Rightarrow> bytes option sh" where
  "parse_shadow_state_reported_type = sh_json_value (lit ''State.Reported'')"

definition parse_shadow_state_desired_type :: "UIoT_Shadow \<Rightarrow> bytes option sh" where
  "parse_shadow_state_desired_type = sh_json_value (lit ''State.Desired'')"

definition parse_shadow_state_type :: "UIoT_Shadow \<Rightarrow> bytes option sh" where
  "parse_shadow_state_type = sh_json_value (lit ''State'')"

text \<open>The value of a property in a document of its own, unless it begins with \<open>null\<close>.\<close>

definition find_value_if_key_match :: "bytes \<Rightarrow> bytes \<Rightarrow> UIoT_Shadow \<Rightarrow> bytes option sh" where
  "find_value_if_key_match doc key s = do {
     (v, _, c) \<leftarrow> LITE_json_value_of key (doc @ [0]) 0 (sh_mqtt s);
     Some (case v of None \<Rightarrow> None | Some t \<Rightarrow> if take 4 t \<in> {lit ''null'', lit ''NULL''} then None else Some t,
       s\<lparr>sh_mqtt := c\<rparr>) }"

end
