(* ===== verification/Shadow_Client.thy ===== *)
theory Shadow_Client
  imports Shadow_Json
begin

text \<open>
  The device shadow, its operations: \<^verbatim>\<open>src/shadow/src/shadow_client_common.c\<close> (properties),
  \<^verbatim>\<open>shadow_client_manager.c\<close> (requests and incoming documents) and \<^verbatim>\<open>shadow_client.c\<close> (the exported functions).

  \<^item> \<open>react\<close>, an argument of what calls it, is what the application does when the cloud asks for another value
    of a property: it may change the handle and the reply that is being prepared.
  \<^item> \<open>deliver\<close> stands for the messages that arrive while the MQTT client yields.
  \<^item> A callback for the outcome of a request is recorded in \<open>sh_events\<close>, with the mutexes that are held.
\<close>

abbreviation (input) ERR_SHADOW_PROPERTY_EXIST :: int where "ERR_SHADOW_PROPERTY_EXIST \<equiv> -201"
abbreviation (input) MAX_APPENDING_REQUEST_AT_ANY_GIVEN_TIME :: nat
  where "MAX_APPENDING_REQUEST_AT_ANY_GIVEN_TIME \<equiv> 10"
abbreviation (input) CLOUD_IOT_JSON_RX_BUF_LEN :: nat where "CLOUD_IOT_JSON_RX_BUF_LEN \<equiv> 2049"
abbreviation (input) MAX_WAIT_TIME_SEC :: nat where "MAX_WAIT_TIME_SEC \<equiv> 1"

definition sh_lock :: "shadow_lock \<Rightarrow> UIoT_Shadow \<Rightarrow> UIoT_Shadow option" where
  "sh_lock m s = (if m \<in> sh_held s then None else Some (s\<lparr>sh_held := insert m (sh_held s)\<rparr>))"

definition sh_unlock :: "shadow_lock \<Rightarrow> UIoT_Shadow \<Rightarrow> UIoT_Shadow option" where
  "sh_unlock m s = (if m \<in> sh_held s then Some (s\<lparr>sh_held := sh_held s - {m}\<rparr>) else None)"

subsection \<open>Properties: \<^verbatim>\<open>shadow_client_common.c\<close>\<close>

definition shadow_common_check_property_match :: "nat \<Rightarrow> PropertyHandler \<Rightarrow> UIoT_Shadow \<Rightarrow> bool option" where
  "shadow_common_check_property_match pProperty h s = do {
     p \<leftarrow> devices s (ph_property h);
     q \<leftarrow> devices s pProperty;
     k1 \<leftarrow> prop_key p;
     k2 \<leftarrow> prop_key q;
     Some (k1 = k2) }"

fun find_handler :: "nat \<Rightarrow> PropertyHandler list \<Rightarrow> UIoT_Shadow \<Rightarrow> PropertyHandler option option" where
  "find_handler a [] s = Some None"
| "find_handler a (h # hs) s = do {
     m \<leftarrow> shadow_common_check_property_match a h s;
     if m then Some (Some h) else find_handler a hs s }"

text \<open>\<open>list_find\<close> on the list of properties allocates an iterator, and finds nothing without memory.\<close>

definition find_property :: "nat \<Rightarrow> UIoT_Shadow \<Rightarrow> PropertyHandler option sh" where
  "find_property a s = do {
     l \<leftarrow> property_list s;
     let (ok, s) = sh_malloc s;
     if \<not> ok then Some (None, s)
     else do { h \<leftarrow> find_handler a l s; Some (h, s) } }"

definition shadow_common_check_property_existence :: "nat \<Rightarrow> UIoT_Shadow \<Rightarrow> bool sh" where
  "shadow_common_check_property_existence a s = do {
     s \<leftarrow> sh_lock property_mutex s;
     (h, s) \<leftarrow> find_property a s;
     s \<leftarrow> sh_unlock property_mutex s;
     Some (h \<noteq> None, s) }"

definition set_property_data :: "nat \<Rightarrow> nat option \<Rightarrow> UIoT_Shadow \<Rightarrow> UIoT_Shadow option" where
  "set_property_data a v s = do { p \<leftarrow> devices s a; Some (s\<lparr>devices := (devices s)(a \<mapsto> p\<lparr>prop_data := v\<rparr>)\<rparr>) }"

definition shadow_common_update_property :: "nat \<Rightarrow> Method \<Rightarrow> UIoT_Shadow \<Rightarrow> int sh" where
  "shadow_common_update_property a method s = do {
     s \<leftarrow> sh_lock property_mutex s;
     (h, s) \<leftarrow> find_property a s;
     (ret, s) \<leftarrow> (case h of
        None \<Rightarrow> Some (ERR_SHADOW_NOT_PROPERTY_EXIST, s)
      | Some h \<Rightarrow>
          if updates method then do {
            p \<leftarrow> devices s a;
            s \<leftarrow> set_property_data (ph_property h) (prop_data p) s;
            Some (SUCCESS_RET, s) }
          else if deletes method then do {
            s \<leftarrow> set_property_data (ph_property h) None s;
            Some (SUCCESS_RET, s) }
          else Some (ERR_PARAM_INVALID, s));
     s \<leftarrow> sh_unlock property_mutex s;
     Some (ret, s) }"

definition shadow_common_remove_property :: "nat \<Rightarrow> UIoT_Shadow \<Rightarrow> int sh" where
  "shadow_common_remove_property a s = do {
     s \<leftarrow> sh_lock property_mutex s;
     (h, s) \<leftarrow> find_property a s;
     let (ret, s) = (case h of
        None \<Rightarrow> (ERR_SHADOW_NOT_PROPERTY_EXIST, s)
      | Some h \<Rightarrow> (SUCCESS_RET, s\<lparr>property_list := map_option (remove1 h) (property_list s)\<rparr>));
     s \<leftarrow> sh_unlock property_mutex s;
     Some (ret, s) }"

definition add_property_handle_to_list :: "nat \<Rightarrow> nat \<Rightarrow> UIoT_Shadow \<Rightarrow> int sh" where
  "add_property_handle_to_list a callback s = do {
     let (ok, s) = sh_malloc s;
     if \<not> ok then Some (FAILURE_RET, s)
     else do {
       let (ok, s) = sh_malloc s;
       if \<not> ok then Some (FAILURE_RET, s)
       else do {
         l \<leftarrow> property_list s;
         Some (SUCCESS_RET, s\<lparr>property_list := Some (l @ [\<lparr>ph_property = a, ph_callback = callback\<rparr>])\<rparr>) } } }"

definition shadow_common_register_property_on_delta :: "nat \<Rightarrow> nat option \<Rightarrow> UIoT_Shadow \<Rightarrow> int sh" where
  "shadow_common_register_property_on_delta a callback s = (case callback of
     None \<Rightarrow> Some (ERR_PARAM_INVALID, s)
   | Some callback \<Rightarrow> do {
       p \<leftarrow> devices s a;
       if prop_key p = None \<or> prop_data p = None then Some (ERR_PARAM_INVALID, s)
       else do {
         s \<leftarrow> sh_lock property_mutex s;
         (ret, s) \<leftarrow> add_property_handle_to_list a callback s;
         s \<leftarrow> sh_unlock property_mutex s;
         Some (ret, s) } })"

text \<open>\<open>None\<close> for parameters is NULL.\<close>

definition request_common_add_delta_property ::
  "nat \<Rightarrow> RequestParams option \<Rightarrow> UIoT_Shadow \<Rightarrow> (int \<times> RequestParams option) sh" where
  "request_common_add_delta_property a pParams s = (case pParams of
     None \<Rightarrow> Some ((ERR_PARAM_INVALID, None), s)
   | Some pp \<Rightarrow> do {
       p \<leftarrow> devices s a;
       if prop_key p = None then Some ((ERR_PARAM_INVALID, pParams), s)
       else do {
         let (ok, s) = sh_malloc s;
         Some (if ok then (SUCCESS_RET, Some (pp\<lparr>rp_delta := rp_delta pp @ [a]\<rparr>)) else (FAILURE_RET, pParams), s) } })"

definition IOT_Shadow_Request_Add_Delta_Property ::
  "RequestParams option \<Rightarrow> nat \<Rightarrow> UIoT_Shadow \<Rightarrow> (int \<times> RequestParams option) sh" where
  "IOT_Shadow_Request_Add_Delta_Property pParams a s = request_common_add_delta_property a pParams s"

subsection \<open>Requests: \<^verbatim>\<open>shadow_client_manager.c\<close>\<close>

definition uiot_shadow_request_init ::
  "Method \<Rightarrow> nat option \<Rightarrow> nat \<Rightarrow> nat \<Rightarrow> UIoT_Shadow \<Rightarrow> RequestParams option \<times> UIoT_Shadow" where
  "uiot_shadow_request_init method callback timeout_sec ctx s =
     (let (ok, s) = sh_malloc s in
      if \<not> ok then (None, s)
      else let (ok, s) = sh_malloc s in
        (if ok then Some \<lparr>rp_method = method, rp_delta = [], rp_timeout = timeout_sec, rp_callback = callback,
           rp_context = ctx\<rparr> else None, s))"

definition shadow_add_request_to_list :: "RequestParams \<Rightarrow> UIoT_Shadow \<Rightarrow> int sh" where
  "shadow_add_request_to_list pParams s = do {
     s \<leftarrow> sh_lock request_mutex s;
     l \<leftarrow> request_list s;
     (ret, s) \<leftarrow> Some
       (if length l \<ge> MAX_APPENDING_REQUEST_AT_ANY_GIVEN_TIME then (ERR_MAX_APPENDING_REQUEST, s)
        else let (ok, s) = sh_malloc s in
          if \<not> ok then (FAILURE_RET, s)
          else let (timer, c) = countdown (rp_timeout pParams) (sh_mqtt s); s = s\<lparr>sh_mqtt := c\<rparr>; (ok, s) = sh_malloc s in
            if \<not> ok then (FAILURE_RET, s)
            else (SUCCESS_RET, s\<lparr>request_list := Some (l @ [\<lparr>rq_method = rp_method pParams,
              rq_context = rp_context pParams, rq_timer = timer, rq_callback = rp_callback pParams\<rparr>])\<rparr>));
     s \<leftarrow> sh_unlock request_mutex s;
     Some (ret, s) }"

definition shadow_topic :: "string \<Rightarrow> UIoT_Shadow \<Rightarrow> bytes" where
  "shadow_topic suffix s = str ''/$system/'' @ sh_product_sn s @ str ''/'' @ sh_device_sn s @ str ''/shadow/'' @ str suffix"

definition uiot_shadow_publish_operation_to_cloud :: "Method \<Rightarrow> bytes \<Rightarrow> UIoT_Shadow \<Rightarrow> int sh" where
  "uiot_shadow_publish_operation_to_cloud method pJsonDoc s =
     (let topic = shadow_topic (if method = GET then ''get'' else ''upstream'') s in
      if length topic > MAX_SIZE_OF_CLOUD_TOPIC - 1 then Some (FAILURE_RET, s)
      else do {
        let s = s\<lparr>cloud_send_method := method\<rparr>;
        payload \<leftarrow> cstr_of_array pJsonDoc;
        ((ret, _), c) \<leftarrow> uiot_mqtt_publish topic
          \<lparr>pp_qos = QOS1, pp_retained = 0, pp_id = 0, pp_payload = Some payload\<rparr> (sh_mqtt s);
        Some (if ret \<ge> 0 then SUCCESS_RET else FAILURE_RET, s\<lparr>sh_mqtt := c\<rparr>) })"

text \<open>\<open>HAL_Snprintf\<close> cuts the topic to the size of its buffer here.\<close>

definition uiot_shadow_subscribe_topic :: "string \<Rightarrow> nat \<Rightarrow> UIoT_Shadow \<Rightarrow> int sh" where
  "uiot_shadow_subscribe_topic suffix on_message s = do {
     let (ok, s) = sh_malloc s;
     if \<not> ok then Some (FAILURE_RET, s)
     else do {
       (ret, c) \<leftarrow> uiot_mqtt_subscribe (snprintf_topic (shadow_topic suffix s))
         \<lparr>sp_qos = QOS1, sp_handler = Some on_message, sp_user_data = 0\<rparr> (sh_mqtt s);
       Some (ret, s\<lparr>sh_mqtt := c\<rparr>) } }"

definition uiot_shadow_unsubscribe_topic :: "string \<Rightarrow> UIoT_Shadow \<Rightarrow> int sh" where
  "uiot_shadow_unsubscribe_topic suffix s = do {
     let (ok, s) = sh_malloc s;
     if \<not> ok then Some (FAILURE_RET, s)
     else do {
       (ret, c) \<leftarrow> uiot_mqtt_unsubscribe (snprintf_topic (shadow_topic suffix s)) (sh_mqtt s);
       Some (ret, s\<lparr>sh_mqtt := c\<rparr>) } }"

fun update_properties :: "Method \<Rightarrow> nat list \<Rightarrow> UIoT_Shadow \<Rightarrow> UIoT_Shadow option" where
  "update_properties method [] s = Some s"
| "update_properties method (a # as) s = do {
     (_, s) \<leftarrow> shadow_common_update_property a method s;
     update_properties method as s }"

fun clear_properties :: "PropertyHandler list \<Rightarrow> UIoT_Shadow \<Rightarrow> UIoT_Shadow option" where
  "clear_properties [] s = Some s"
| "clear_properties (h # hs) s = do { s \<leftarrow> set_property_data (ph_property h) None s; clear_properties hs s }"

text \<open>Without memory for the second iterator the function returns with the mutex held.\<close>

definition clear_all_properties :: "UIoT_Shadow \<Rightarrow> int sh" where
  "clear_all_properties s = do {
     s \<leftarrow> sh_lock property_mutex s;
     l \<leftarrow> property_list s;
     if l = [] then do { s \<leftarrow> sh_unlock property_mutex s; Some (SUCCESS_RET, s) }
     else do {
       let (ok, s) = sh_malloc s;
       if \<not> ok then Some (ERR_PARAM_INVALID, s)
       else do {
         s \<leftarrow> clear_properties (rev l) s;
         s \<leftarrow> sh_unlock property_mutex s;
         Some (SUCCESS_RET, s) } } }"

definition uiot_shadow_update_property :: "RequestParams \<Rightarrow> UIoT_Shadow \<Rightarrow> int sh" where
  "uiot_shadow_update_property pParams s =
     (if rp_method pParams = DELETE_ALL then clear_all_properties s
      else if rp_delta pParams = [] then Some (SUCCESS_RET, s)
      else do {
        let (ok, s) = sh_malloc s;
        if \<not> ok then Some (ERR_PARAM_INVALID, s)
        else do {
          s \<leftarrow> update_properties (rp_method pParams) (rev (rp_delta pParams)) s;
          Some (SUCCESS_RET, s) } })"

text \<open>
  The buffer of the document is not initialised, but nothing is read of it before it is written.  The result of
  \<open>shadow_add_request_to_list\<close> is overwritten.
\<close>

definition uiot_shadow_make_request :: "nat \<Rightarrow> RequestParams option \<Rightarrow> UIoT_Shadow \<Rightarrow> int sh" where
  "uiot_shadow_make_request sizeOfBuffer pParams s = (case pParams of
     None \<Rightarrow> Some (ERR_PARAM_INVALID, s)
   | Some pParams \<Rightarrow> do {
       let n = word_of_nat sizeOfBuffer;
       (_, s) \<leftarrow> shadow_add_request_to_list pParams s;
       (ret, doc) \<leftarrow> shadow_json_init (replicate sizeOfBuffer 0) n pParams;
       if ret \<noteq> SUCCESS_RET then Some (ret, s)
       else do {
         ((ret, doc), s) \<leftarrow> shadow_json_set_content doc n pParams s;
         if ret \<noteq> SUCCESS_RET then Some (ret, s)
         else do {
           (ret, doc) \<leftarrow> shadow_json_finalize (sh_version s) doc n pParams;
           if ret \<noteq> SUCCESS_RET then Some (ret, s)
           else do {
             (ret, s) \<leftarrow> uiot_shadow_publish_operation_to_cloud (rp_method pParams) doc s;
             if ret \<noteq> SUCCESS_RET then Some (ret, s)
             else uiot_shadow_update_property pParams s } } } })"

end
