(* ===== verification/Shadow_Api.thy ===== *)
theory Shadow_Api
  imports Shadow_Client
begin

text \<open>
  The device shadow, incoming documents and the exported functions: the second half of
  \<^verbatim>\<open>src/shadow/src/shadow_client_manager.c\<close>, and \<^verbatim>\<open>shadow_client.c\<close>.
\<close>

type_synonym reaction =
  "nat \<Rightarrow> nat \<Rightarrow> bytes \<Rightarrow> RequestParams option \<Rightarrow> UIoT_Shadow \<Rightarrow> (RequestParams option \<times> UIoT_Shadow) option"

type_synonym sh_deliver = "UIoT_Shadow \<Rightarrow> UIoT_Shadow option"

subsection \<open>Requests that wait\<close>

text \<open>
  A handler of the traversal looks at one request and says whether it leaves the list.  The list is walked from its
  tail, so that the result is in the order of the list.
\<close>

type_synonym traverse_handle = "Request \<Rightarrow> UIoT_Shadow \<Rightarrow> bool sh"

fun traverse_requests :: "traverse_handle \<Rightarrow> Request list \<Rightarrow> Request list \<Rightarrow> UIoT_Shadow \<Rightarrow> Request list sh" where
  "traverse_requests handler [] kept s = Some (kept, s)"
| "traverse_requests handler (r # rs) kept s = do {
     (gone, s) \<leftarrow> handler r s;
     traverse_requests handler rs (if gone then kept else r # kept) s }"

definition traverse_list :: "traverse_handle \<Rightarrow> UIoT_Shadow \<Rightarrow> UIoT_Shadow option" where
  "traverse_list handler s = do {
     s \<leftarrow> sh_lock request_mutex s;
     l \<leftarrow> request_list s;
     s \<leftarrow> (if l = [] then Some s
        else do {
          let (ok, s) = sh_malloc s;
          if \<not> ok then Some s
          else do {
            (l, s) \<leftarrow> traverse_requests handler (rev l) [] s;
            Some (s\<lparr>request_list := Some l\<rparr>) } });
     sh_unlock request_mutex s }"

definition report_request :: "RequestAck \<Rightarrow> Request \<Rightarrow> UIoT_Shadow \<Rightarrow> UIoT_Shadow" where
  "report_request ack r s = (case rq_callback r of
     None \<Rightarrow> s
   | Some callback \<Rightarrow> s\<lparr>sh_events := sh_events s @ [(RequestDone callback (rq_method r) ack (rq_context r), sh_held s)]\<rparr>)"

definition reply_status :: "bytes \<Rightarrow> UIoT_Shadow \<Rightarrow> RequestAck sh" where
  "reply_status pType s =
     (if pType = lit ''get_reply'' then Some (ACK_ACCEPTED, s)
      else if pType = lit ''reply'' \<or> pType = lit ''control'' then do {
        (result_code, s) \<leftarrow> parse_shadow_payload_retcode_type s;
        Some (if result_code = Some 0 then ACK_ACCEPTED else ACK_REJECTED, s) }
      else Some (ACK_NONE, s))"

definition handle_request_callback :: "bytes \<Rightarrow> traverse_handle" where
  "handle_request_callback pType r s = do {
     (status, s) \<leftarrow> reply_status pType s;
     Some (True, report_request status r s) }"

definition handle_expired_request_callback :: traverse_handle where
  "handle_expired_request_callback r s =
     (let (expired, c) = has_expired (rq_timer r) (sh_mqtt s); s = s\<lparr>sh_mqtt := c\<rparr>
      in Some (expired, if expired then report_request ACK_TIMEOUT r s else s))"

definition handle_expired_request :: "UIoT_Shadow \<Rightarrow> UIoT_Shadow option" where
  "handle_expired_request = traverse_list handle_expired_request_callback"

subsection \<open>Incoming documents\<close>

fun delta_loop ::
  "reaction \<Rightarrow> bytes \<Rightarrow> PropertyHandler list \<Rightarrow> RequestParams option \<Rightarrow> UIoT_Shadow \<Rightarrow> (RequestParams option \<times> UIoT_Shadow) option"
  where
  "delta_loop react doc [] pp s = Some (pp, s)"
| "delta_loop react doc (h # hs) pp s = do {
     p \<leftarrow> devices s (ph_property h);
     key \<leftarrow> prop_key p;
     (v, s) \<leftarrow> find_value_if_key_match doc key s;
     (pp, s) \<leftarrow> (case v of
        None \<Rightarrow> Some (pp, s)
      | Some t \<Rightarrow> react (ph_callback h) (ph_property h) t pp s);
     delta_loop react doc hs pp s }"

text \<open>Without memory for the iterator, \<open>_handle_delta\<close> returns with the mutex held.\<close>

definition handle_delta :: "reaction \<Rightarrow> bytes \<Rightarrow> UIoT_Shadow \<Rightarrow> UIoT_Shadow option" where
  "handle_delta react delta_str s = do {
     let method = (if cloud_send_method s \<in> {DELETE, DELETE_ALL, REPLY_CONTROL_DELETE}
       then REPLY_CONTROL_DELETE else REPLY_CONTROL_UPDATE);
     let (pp, s) = uiot_shadow_request_init method None MAX_WAIT_TIME_SEC 0 s;
     s \<leftarrow> sh_lock property_mutex s;
     l \<leftarrow> property_list s;
     let (ok, s) = (if l = [] then (True, s) else sh_malloc s);
     if \<not> ok then Some s
     else do {
       (pp, s) \<leftarrow> delta_loop react delta_str (rev l) pp s;
       s \<leftarrow> sh_unlock property_mutex s;
       (_, s) \<leftarrow> uiot_shadow_make_request CLOUD_IOT_JSON_RX_BUF_LEN pp s;
       Some s } }"

text \<open>
  A payload goes to the static buffer, cut to its size; the byte behind the payload is copied too and then
  overwritten.
\<close>

definition receive_document :: "bytes \<Rightarrow> UIoT_Shadow \<Rightarrow> UIoT_Shadow option" where
  "receive_document payload s = do {
     let t = take (CLOUD_IOT_JSON_RX_BUF_LEN - 1) payload;
     (mem, _) \<leftarrow> put_bytes (cloud_rcv_buf s, 0) (t @ [0]);
     Some (s\<lparr>cloud_rcv_buf := mem\<rparr>) }"

definition handle_desired :: "reaction \<Rightarrow> bytes option \<Rightarrow> UIoT_Shadow \<Rightarrow> UIoT_Shadow option" where
  "handle_desired react desired s = (case desired of
     None \<Rightarrow> Some s
   | Some t \<Rightarrow> if length t > 2 then handle_delta react t s else Some s)"

text \<open>After the version has been stored: the branches on the method.\<close>

definition handle_result :: "reaction \<Rightarrow> bytes \<Rightarrow> UIoT_Shadow \<Rightarrow> UIoT_Shadow option" where
  "handle_result react method_str s =
     (if method_str = lit ''reply'' then do {
        (ret_code, s) \<leftarrow> parse_shadow_payload_retcode_type s;
        if ret_code = Some 0 then traverse_list (handle_request_callback method_str) s else Some s }
      else if method_str = lit ''control'' then do {
        (desired, s) \<leftarrow> parse_shadow_payload_state_desired_state s;
        s \<leftarrow> handle_desired react desired s;
        traverse_list (handle_request_callback method_str) s }
      else Some s)"

definition topic_request_result_handler :: "reaction \<Rightarrow> bytes \<Rightarrow> UIoT_Shadow \<Rightarrow> UIoT_Shadow option" where
  "topic_request_result_handler react payload s =
     (if length payload > CLOUD_IOT_JSON_RX_BUF_LEN then Some s
      else do {
        s \<leftarrow> receive_document payload s;
        (method_str, s) \<leftarrow> parse_shadow_method_type s;
        case method_str of
          None \<Rightarrow> Some s
        | Some method_str \<Rightarrow> do {
            (version, s) \<leftarrow> parse_version_num s;
            case version of
              None \<Rightarrow> Some s
            | Some v \<Rightarrow> handle_result react method_str (s\<lparr>sh_version := v\<rparr>) } })"

definition topic_sync_handler :: "reaction \<Rightarrow> bytes \<Rightarrow> UIoT_Shadow \<Rightarrow> UIoT_Shadow option" where
  "topic_sync_handler react payload s =
     (if length payload > CLOUD_IOT_JSON_RX_BUF_LEN then Some s
      else do {
        s \<leftarrow> receive_document payload s;
        (version, s) \<leftarrow> parse_version_num s;
        case version of
          None \<Rightarrow> Some s
        | Some v \<Rightarrow> do {
            (desired, s) \<leftarrow> parse_shadow_state_desired_type (s\<lparr>sh_version := v\<rparr>);
            s \<leftarrow> handle_desired react desired s;
            traverse_list (handle_request_callback (lit ''get_reply'')) s } })"

subsection \<open>The exported functions: \<^verbatim>\<open>shadow_client.c\<close>\<close>

definition sh_connected :: "UIoT_Shadow \<Rightarrow> bool sh" where
  "sh_connected s = do { (b, c) \<leftarrow> get_client_conn_state (sh_mqtt s); Some (b, s\<lparr>sh_mqtt := c\<rparr>) }"

definition IOT_Shadow_Register_Property :: "nat \<Rightarrow> nat option \<Rightarrow> UIoT_Shadow \<Rightarrow> int sh" where
  "IOT_Shadow_Register_Property a callback s = do {
     (connected, s) \<leftarrow> sh_connected s;
     if \<not> connected then Some (ERR_MQTT_NO_CONN, s)
     else do {
       l \<leftarrow> property_list s;
       (found, s) \<leftarrow> (if l = [] then Some (False, s) else shadow_common_check_property_existence a s);
       if found then Some (ERR_SHADOW_PROPERTY_EXIST, s)
       else shadow_common_register_property_on_delta a callback s } }"

definition IOT_Shadow_UnRegister_Property :: "nat \<Rightarrow> UIoT_Shadow \<Rightarrow> int sh" where
  "IOT_Shadow_UnRegister_Property a s = do {
     (connected, s) \<leftarrow> sh_connected s;
     if \<not> connected then Some (ERR_MQTT_NO_CONN, s)
     else do {
       (found, s) \<leftarrow> shadow_common_check_property_existence a s;
       if \<not> found then Some (ERR_SHADOW_NOT_PROPERTY_EXIST, s)
       else shadow_common_remove_property a s } }"

text \<open>The properties of a request, \<open>None\<close> for a NULL among the arguments.\<close>

fun add_deltas :: "nat option list \<Rightarrow> RequestParams option \<Rightarrow> UIoT_Shadow \<Rightarrow> (bool \<times> RequestParams option) sh" where
  "add_deltas [] pp s = Some ((True, pp), s)"
| "add_deltas (None # as) pp s = add_deltas as pp s"
| "add_deltas (Some a # as) pp s = do {
     ((ret, pp), s) \<leftarrow> IOT_Shadow_Request_Add_Delta_Property pp a s;
     if ret \<noteq> SUCCESS_RET then Some ((False, pp), s) else add_deltas as pp s }"

text \<open>What the functions that send a request have in common, line by line.\<close>

definition shadow_request ::
  "Method \<Rightarrow> nat option \<Rightarrow> nat \<Rightarrow> nat \<Rightarrow> nat option list \<Rightarrow> UIoT_Shadow \<Rightarrow> int sh" where
  "shadow_request method callback timeout_sec ctx props s =
     (if timeout_sec = 0 then Some (ERR_PARAM_INVALID, s)
      else do {
        let (pp, s) = uiot_shadow_request_init method callback timeout_sec ctx s;
        ((ok, pp), s) \<leftarrow> add_deltas props pp s;
        if \<not> ok then Some (FAILURE_RET, s)
        else do {
          (connected, s) \<leftarrow> sh_connected s;
          if \<not> connected then Some (ERR_MQTT_NO_CONN, s)
          else uiot_shadow_make_request UIOT_MQTT_TX_BUF_LEN pp s } })"

definition IOT_Shadow_Get_Sync :: "nat option \<Rightarrow> nat \<Rightarrow> nat \<Rightarrow> UIoT_Shadow \<Rightarrow> int sh" where
  "IOT_Shadow_Get_Sync callback timeout_sec ctx = shadow_request GET callback timeout_sec ctx []"

definition IOT_Shadow_Update :: "nat option \<Rightarrow> nat \<Rightarrow> nat \<Rightarrow> nat option list \<Rightarrow> UIoT_Shadow \<Rightarrow> int sh" where
  "IOT_Shadow_Update = shadow_request UPDATE"

definition IOT_Shadow_Update_And_Reset_Version ::
  "nat option \<Rightarrow> nat \<Rightarrow> nat \<Rightarrow> nat option list \<Rightarrow> UIoT_Shadow \<Rightarrow> int sh" where
  "IOT_Shadow_Update_And_Reset_Version = shadow_request UPDATE_AND_RESET_VER"

definition IOT_Shadow_Delete :: "nat option \<Rightarrow> nat \<Rightarrow> nat \<Rightarrow> nat option list \<Rightarrow> UIoT_Shadow \<Rightarrow> int sh" where
  "IOT_Shadow_Delete = shadow_request DELETE"

definition IOT_Shadow_Delete_All :: "nat option \<Rightarrow> nat \<Rightarrow> nat \<Rightarrow> UIoT_Shadow \<Rightarrow> int sh" where
  "IOT_Shadow_Delete_All callback timeout_sec ctx = shadow_request DELETE_ALL callback timeout_sec ctx []"

text \<open>A word in memory, and the result of a scan: the code, and the bytes to store.\<close>

definition le_bytes :: "nat \<Rightarrow> nat \<Rightarrow> bytes" where
  "le_bytes k n = map (\<lambda>i. word_of_nat (n div 256 ^ i)) [0..<k]"

definition scanned :: "nat \<Rightarrow> nat option \<Rightarrow> int \<times> bytes" where
  "scanned k v = (case v of None \<Rightarrow> (FAILURE_RET, []) | Some n \<Rightarrow> (SUCCESS_RET, le_bytes k n))"

definition scan_value :: "UIoT_Shadow \<Rightarrow> JsonDataType \<Rightarrow> bytes \<Rightarrow> int \<times> bytes" where
  "scan_value s type t = (case type of
     JBOOL \<Rightarrow> (SUCCESS_RET, [if LITE_get_boolean t then 1 else 0])
   | JINT32 \<Rightarrow> scanned 4 (map_option unat (LITE_get_int32 t))
   | JINT16 \<Rightarrow> scanned 2 (map_option unat (LITE_get_int16 t))
   | JINT8 \<Rightarrow> scanned 1 (map_option unat (LITE_get_int8 t))
   | JUINT32 \<Rightarrow> scanned 4 (map_option unat (LITE_get_uint32 t))
   | JUINT16 \<Rightarrow> scanned 2 (map_option unat (LITE_get_uint16 t))
   | JUINT8 \<Rightarrow> scanned 1 (map_option unat (LITE_get_uint8 t))
   | JFLOAT \<Rightarrow> (case float_scan s 4 t of None \<Rightarrow> (FAILURE_RET, []) | Some bs \<Rightarrow> (SUCCESS_RET, bs))
   | JDOUBLE \<Rightarrow> (case float_scan s 8 t of None \<Rightarrow> (FAILURE_RET, []) | Some bs \<Rightarrow> (SUCCESS_RET, bs))
   | JSTRING \<Rightarrow> (SUCCESS_RET, [])
   | JOBJECT \<Rightarrow> (SUCCESS_RET, []))"

definition IOT_Shadow_Direct_Update_Value :: "bytes \<Rightarrow> nat \<Rightarrow> UIoT_Shadow \<Rightarrow> int sh" where
  "IOT_Shadow_Direct_Update_Value t a s = do {
     p \<leftarrow> devices s a;
     let (ret, bs) = scan_value s (prop_type p) t;
     if bs = [] then Some (ret, s)
     else do {
       d \<leftarrow> prop_data p;
       mem \<leftarrow> data_at s d;
       (mem, _) \<leftarrow> put_bytes (mem, 0) bs;
       Some (ret, s\<lparr>data_at := (data_at s)(d \<mapsto> mem)\<rparr>) } }"

definition IOT_Shadow_Yield :: "sh_deliver \<Rightarrow> nat \<Rightarrow> UIoT_Shadow \<Rightarrow> int sh" where
  "IOT_Shadow_Yield deliver timeout_ms s =
     (if timeout_ms = 0 then Some (ERR_PARAM_INVALID, s)
      else do {
        s \<leftarrow> handle_expired_request s;
        (ret, c) \<leftarrow> uiot_mqtt_yield timeout_ms (sh_mqtt s);
        s \<leftarrow> deliver (s\<lparr>sh_mqtt := c\<rparr>);
        Some (ret, s) })"

subsection \<open>Creating and destroying a handle\<close>

definition uiot_shadow_init :: "UIoT_Shadow \<Rightarrow> int sh" where
  "uiot_shadow_init s = do {
     let s = s\<lparr>sh_version := 0\<rparr>;
     let (ok, s) = sh_malloc s;
     if \<not> ok then Some (FAILURE_RET, s)
     else do {
       let (ok, s) = sh_malloc s;
       if \<not> ok then Some (FAILURE_RET, s)
       else do {
         let (ok, s) = sh_malloc s;
         if \<not> ok then Some (FAILURE_RET, s)
         else do {
           let s = s\<lparr>property_list := Some []\<rparr>;
           let (ok, s) = sh_malloc s;
           if \<not> ok then Some (FAILURE_RET, s)
           else Some (SUCCESS_RET, s\<lparr>request_list := Some []\<rparr>) } } } }"

text \<open>
  \<open>on_sync\<close> and \<open>on_result\<close> are the addresses of the two handlers; \<open>statics\<close> holds what exists before the
  handle: the memory of the application, the static variables and the events so far.
\<close>

definition IOT_Shadow_Construct ::
  "nat \<Rightarrow> nat \<Rightarrow> bytes option \<Rightarrow> bytes option \<Rightarrow> UIoT_Shadow \<Rightarrow> UIoT_Client \<Rightarrow> (UIoT_Shadow option \<times> UIoT_Client) option" where
  "IOT_Shadow_Construct on_sync on_result psn dsn statics c = (case (psn, dsn) of
     (Some p, Some d) \<Rightarrow>
       let (ok, c) = HAL_Malloc c in
       if \<not> ok then Some (None, c)
       else do {
         let s = statics\<lparr>sh_product_sn := p, sh_device_sn := d, sh_mqtt := c, sh_held := {},
           property_list := None, request_list := None\<rparr>;
         (ret, s) \<leftarrow> uiot_shadow_init s;
         if ret \<noteq> SUCCESS_RET then Some (None, sh_mqtt s)
         else do {
           (ret, s) \<leftarrow> uiot_shadow_subscribe_topic ''get_reply'' on_sync s;
           if ret < 0 then Some (None, sh_mqtt s)
           else do {
             (ret, s) \<leftarrow> uiot_shadow_subscribe_topic ''downstream'' on_result s;
             Some (if ret < 0 then None else Some s, sh_mqtt s) } } }
   | _ \<Rightarrow> Some (None, c))"

text \<open>A list is destroyed when it is not NULL; the pointers stay.\<close>

definition uiot_shadow_reset :: "sh_deliver \<Rightarrow> UIoT_Shadow \<Rightarrow> UIoT_Shadow option" where
  "uiot_shadow_reset deliver s = do {
     _ \<leftarrow> property_list s;
     let s = s\<lparr>property_list := None\<rparr>;
     (_, s) \<leftarrow> uiot_shadow_unsubscribe_topic ''downstream'' s;
     (_, s) \<leftarrow> uiot_shadow_unsubscribe_topic ''get_reply'' s;
     (_, c) \<leftarrow> uiot_mqtt_yield 200 (sh_mqtt s);
     s \<leftarrow> deliver (s\<lparr>sh_mqtt := c\<rparr>);
     _ \<leftarrow> request_list s;
     Some (s\<lparr>request_list := None\<rparr>) }"

definition IOT_Shadow_Destroy :: "sh_deliver \<Rightarrow> UIoT_Shadow \<Rightarrow> int sh" where
  "IOT_Shadow_Destroy deliver s = do { s \<leftarrow> uiot_shadow_reset deliver s; Some (SUCCESS_RET, s) }"

end
