(* ===== verification/Shadow_Document.thy ===== *)
theory Shadow_Document
  imports Shadow_Api Json_Lookup
begin

text \<open>
  The documents of the device shadow: what a request sends, and where the sizes go wrong.
\<close>

subsection \<open>Text in a buffer\<close>

definition text_in :: "bytes \<Rightarrow> bytes \<Rightarrow> bool" where
  "text_in t mem \<longleftrightarrow> (\<exists>post. mem = t @ 0 # post) \<and> 0 \<notin> set t"

lemma text_in_strlen: "text_in t mem \<Longrightarrow> strlen_at mem 0 = Some (length t)"
  using strlen_at_text [of t "[]"] by (auto simp: text_in_def)

lemma text_in_length: "text_in t mem \<Longrightarrow> length t < length mem"
  by (auto simp: text_in_def)


lemma unat_rest: "m \<le> n \<Longrightarrow> n < 2 ^ 64 \<Longrightarrow> unat (word_of_nat n - word_of_nat m :: 64 word) = n - m"
  by (simp add: unat_sub word_le_nat_alt unsigned_of_nat take_bit_nat_eq_self)

text \<open>Printing behind a text, or over its end, when there is room.\<close>

lemma snprintf_text:
  assumes "text_in t mem" "0 \<notin> set txt" "k \<le> length t" "length txt < unat sz" "k + length txt < length mem"
  shows "\<exists>mem'. snprintf_at mem k sz txt = Some (length txt, mem') \<and> text_in (take k t @ txt) mem' \<and> length mem' = length mem"
proof -
  have "sz \<noteq> 0" using assms(4) by auto
  moreover have "take (unat sz - 1) txt = txt" using assms(4) by simp
  moreover have "take k mem = take k t" using assms(1,3) by (auto simp: text_in_def)
  moreover have "0 \<notin> set (take k t)" using assms(1) by (auto simp: text_in_def dest: in_set_takeD)
  ultimately show ?thesis using assms(2,3,5) by (auto simp: snprintf_at_def put_bytes_def text_in_def)
qed

lemma snprintf_room: "n < unat sz \<Longrightarrow> check_snprintf_return n sz = SUCCESS_RET"
  by (simp add: check_snprintf_return_def)

subsection \<open>One property\<close>

text \<open>A property as a pair of JSON; \<open>None\<close> where the types of the library have no text of their own.\<close>

definition property_json :: "UIoT_Shadow \<Rightarrow> DeviceProperty \<Rightarrow> json option" where
  "property_json s p = (case prop_data p of
     None \<Rightarrow> Some JNull
   | Some a \<Rightarrow> do {
       mem \<leftarrow> data_at s a;
       (case prop_type p of
          JSTRING \<Rightarrow> map_option JString (cstr_of_array mem)
        | JOBJECT \<Rightarrow> None
        | type \<Rightarrow> map_option JNumber (value_text s type mem)) })"

definition property_pair :: "UIoT_Shadow \<Rightarrow> Method \<Rightarrow> nat \<Rightarrow> (bytes \<times> json) option" where
  "property_pair s method a = do {
     p \<leftarrow> devices s a;
     key \<leftarrow> prop_key p;
     v \<leftarrow> (if method = DELETE then Some JNull else property_json s p);
     Some (key, v) }"

lemma node_text_json:
  "property_json s p = Some v \<Longrightarrow> node_text s (prop_data p) (prop_type p) = Some (json_text v @ [0x2C])"
  by (cases "prop_type p")
    (auto simp: property_json_def node_text_def value_text_def lit_def bind_eq_Some_conv split: option.split_asm)

lemma put_json_node_text:
  assumes "text_in t mem" "0 \<notin> set key" "0 \<notin> set txt" "txt \<noteq> []"
    and "node_text s pData type = Some txt"
    and "length t + length key + 3 + length txt < unat sz" "unat sz \<le> length mem"
  shows "\<exists>mem'. put_json_node s mem sz (Some key) pData type = Some (SUCCESS_RET, mem') \<and>
    text_in (t @ 0x22 # key @ [0x22, 0x3A] @ txt) mem' \<and> length mem' = length mem"
proof -
  let ?k = "0x22 # key @ lit ''\":''"
  have len: "length ?k = length key + 3" by (simp add: lit_def)
  have u: "unat (sz - word_of_nat n) = unat sz - n" if "n \<le> unat sz" for n
  proof -
    have "unat sz < 2 ^ 64" using unsigned_less [of sz] by simp
    then show ?thesis using unat_rest [of n "unat sz"] that by simp
  qed
  have lt: "length t \<le> unat sz" "length t + length ?k \<le> unat sz" using assms(6) len by simp_all
  have nz: "0 \<notin> set ?k" using assms(2) by (simp add: lit_def)
  have room: "length ?k < unat (sz - word_of_nat (length t))" "length t + length ?k < length mem"
      "length txt < unat (sz - word_of_nat (length (t @ ?k)))" "length (t @ ?k) + length txt < length mem"
    using u [OF lt(1)] u [OF lt(2)] assms(6,7) len by simp_all
  obtain m1 where m1: "snprintf_at mem (length t) (sz - word_of_nat (length t)) ?k = Some (length ?k, m1)"
      "text_in (t @ ?k) m1" "length m1 = length mem"
    using snprintf_text [OF assms(1) nz le_refl room(1,2)] unfolding take_all [OF le_refl] by blast
  obtain m2 where m2: "snprintf_at m1 (length (t @ ?k)) (sz - word_of_nat (length (t @ ?k))) txt = Some (length txt, m2)"
      "text_in ((t @ ?k) @ txt) m2" "length m2 = length mem"
    using snprintf_text [OF m1(2) assms(3) le_refl room(3)] room(4) m1(3) unfolding take_all [OF le_refl] by auto
  have "Suc 0 \<le> length txt" using assms(4) by (cases "txt") simp_all
  then have "1 < unat (sz - word_of_nat (length t))" "1 < unat (sz - word_of_nat (length (t @ ?k)))"
    using u [OF lt(1)] u [OF lt(2)] assms(6) len unfolding length_append by linarith+
  then have r: "\<not> sz - word_of_nat (length t) \<le> 1" "\<not> sz - word_of_nat (length (t @ ?k)) \<le> 1"
    by (simp_all add: word_le_nat_alt del: length_append)
  have c: "check_snprintf_return (length ?k) (sz - word_of_nat (length t)) = SUCCESS_RET"
      "check_snprintf_return (length txt) (sz - word_of_nat (length (t @ ?k))) = SUCCESS_RET"
    using u [OF lt(1)] u [OF lt(2)] assms(6) len by (auto intro!: snprintf_room)
  show ?thesis
    using text_in_strlen [OF assms(1)] text_in_strlen [OF m1(2)] m1(1) m2 r c assms(5)
    by (simp add: put_json_node_def Let_def del: length_append length_Cons) (simp add: lit_def)
qed

subsection \<open>The whole document\<close>

lemma property_pairD:
  assumes "property_pair s method a = Some kv"
  obtains p where "devices s a = Some p" "prop_key p = Some (fst kv)"
    "method = DELETE \<Longrightarrow> snd kv = JNull" "method \<noteq> DELETE \<Longrightarrow> property_json s p = Some (snd kv)"
  using assms by (auto simp: property_pair_def bind_eq_Some_conv split: if_split_asm)

lemma put_property:
  assumes "property_pair s method a = Some kv" "method \<in> {UPDATE, DELETE}" "text_in t mem" "0 \<notin> set (pair_text kv)"
    and "length t + length (pair_text kv) + 1 < unat sz" "unat sz \<le> length mem"
  obtains p mem' where "devices s a = Some p" "prop_key p = Some (fst kv)"
    "put_json_node s mem sz (Some (fst kv)) (if updates method then prop_data p else None)
       (if updates method then prop_type p else JSTRING) = Some (SUCCESS_RET, mem')"
    "text_in (t @ pair_text kv @ [0x2C]) mem'" "length mem' = length mem"
proof -
  obtain p where p: "devices s a = Some p" "prop_key p = Some (fst kv)" "method = DELETE \<Longrightarrow> snd kv = JNull"
      "method \<noteq> DELETE \<Longrightarrow> property_json s p = Some (snd kv)"
    using property_pairD [OF assms(1)] by blast
  have "node_text s (if updates method then prop_data p else None) (if updates method then prop_type p else JSTRING) =
      Some (json_text (snd kv) @ [0x2C])"
    using assms(2) p(3,4) node_text_json [of s p] by (auto simp: updates_def node_text_def lit_def)
  from put_json_node_text [OF assms(3) _ _ _ this, of "fst kv" sz] assms(4-6) that [OF p(1,2)] show thesis
    by (auto simp: pair_text_def)
qed

text \<open>The pairs, each with its comma.\<close>

definition nodes_text :: "(bytes \<times> json) list \<Rightarrow> bytes" where
  "nodes_text kvs = concat (map (\<lambda>kv. pair_text kv @ [0x2C]) kvs)"

lemma nodes_text_simps [simp]:
  "nodes_text [] = []" "nodes_text (kv # kvs) = pair_text kv @ 0x2C # nodes_text kvs"
  by (simp_all add: nodes_text_def)










subsection \<open>The size that wraps around\<close>

text \<open>Past the middle of the buffer the size that is left is subtracted from twice, and no longer bounds anything.\<close>

lemma put_json_node_overflows:
  assumes "text_in t mem" "length mem = n" "n < 2 ^ 64" "n < 2 * length t" "n < length t + length key + 4"
  shows "put_json_node s mem (word_of_nat n - word_of_nat (length t)) (Some key) pData type = None"
proof -
  let ?sz = "word_of_nat n - word_of_nat (length t) - word_of_nat (length t) :: 64 word" and ?k = "0x22 # key @ lit ''\":''"
  have t: "length t < n" using text_in_length [OF assms(1)] assms(2) by simp
  have "unat (word_of_nat n - word_of_nat (length t) :: 64 word) = n - length t"
    using unat_rest [of "length t" n] t assms(3) by simp
  moreover have "unat (word_of_nat (length t) :: 64 word) = length t"
    using unat_rest [of 0 "length t"] t assms(3) by simp
  ultimately have sz: "unat ?sz = 2 ^ 64 + (n - length t) - length t"
    using unat_sub_if_size [of "word_of_nat n - word_of_nat (length t) :: 64 word" "word_of_nat (length t)"] t assms(3,4)
    by (simp add: word_size add.commute [of n])
  have "n < length t + Suc (min (length ?k) (unat ?sz - 1))"
    unfolding sz using t assms(3,5) by (simp add: lit_def)
  then have "\<not> length t + length (take (unat ?sz - 1) ?k @ [0]) \<le> length mem"
    using assms(2) by (simp only: length_append length_take list.size)
  moreover have "unat ?sz \<noteq> 0" unfolding sz using t assms(3) by simp
  then have "?sz \<noteq> 0" by (metis unsigned_0)
  ultimately have "snprintf_at mem (length t) ?sz ?k = None"
    by (simp only: snprintf_at_def put_bytes_def if_False prod.case bind.simps)
  moreover have "\<not> ?sz \<le> 1" unfolding word_le_nat_alt sz using t assms(3) by simp
  ultimately show ?thesis using text_in_strlen [OF assms(1)] by (simp add: put_json_node_def Let_def)
qed

text \<open>
  C23: the document that does not fit.  When the first of two properties is written and passes the middle of the
  buffer, the size that bounds the second one has wrapped around: if its key does not fit any more it is
  written behind the end of the buffer, where it ought to be refused as too long.
\<close>

theorem second_property_overflows:
  assumes "method \<in> {UPDATE, DELETE}" "property_pair s method a = Some kv" "0 \<notin> set (pair_text kv)"
    and "devices s b = Some p" "prop_key p = Some key"
    and "text_in t mem" "length mem = n" "n < 2 ^ 64"
    and "2 * length t + length (pair_text kv) + 1 < n"
    and "n < 2 * (length t + length (pair_text kv) + 1)" "n < length t + length (pair_text kv) + length key + 5"
  shows "content_loop s method (word_of_nat n) (a # b # delta) (word_of_nat n - word_of_nat (length t)) mem = None"
proof -
  let ?sz = "word_of_nat n - word_of_nat (length t) :: 64 word"
  have sz: "unat ?sz = n - length t" using unat_rest [of "length t" n] assms(8,9) by simp
  obtain q mem1 where q: "devices s a = Some q" "prop_key q = Some (fst kv)"
      "put_json_node s mem ?sz (Some (fst kv)) (if updates method then prop_data q else None)
         (if updates method then prop_type q else JSTRING) = Some (SUCCESS_RET, mem1)"
      "text_in (t @ pair_text kv @ [0x2C]) mem1" "length mem1 = n"
  proof (rule put_property [OF assms(2,1,6,3)])
    show "length t + length (pair_text kv) + 1 < unat ?sz" unfolding sz using assms(9) by linarith
    show "unat ?sz \<le> length mem" using sz assms(7) by simp
  qed (use assms(7) that in simp)
  have "put_json_node s mem1 (word_of_nat n - word_of_nat (length (t @ pair_text kv @ [0x2C]))) (Some key) d ty = None" for d ty
    by (rule put_json_node_overflows [OF q(4,5) assms(8)]) (use assms(10,11) in simp_all)
  then show ?thesis using assms(1,4,5) q text_in_strlen [OF q(4)]
    by (auto simp: updates_def deletes_def simp del: length_append)
qed

subsection \<open>An example\<close>

definition sample_shadow :: UIoT_Shadow where
  "sample_shadow = \<lparr>
     sh_mqtt = zero_client \<lparr>st_check_repeat = False, st_repeat_buf = [], st_repeat_cnt = 0\<rparr>
       \<lparr>clock = 8, ticks = [], ssl_rx = [], ssl_tx = [], tls_up = [], mallocs = [], held = {}, handle = 0, wire = []\<rparr>,
     sh_product_sn = lit ''p'', sh_device_sn = lit ''d'', sh_version = 3,
     request_list = Some [\<lparr>rq_method = UPDATE, rq_context = 1, rq_timer = 5, rq_callback = Some 70\<rparr>,
       \<lparr>rq_method = GET, rq_context = 2, rq_timer = 900, rq_callback = Some 71\<rparr>],
     property_list = Some [], sh_held = {}, cloud_rcv_buf = replicate 2049 0, cloud_send_method = UPDATE,
     devices = [0 \<mapsto> \<lparr>prop_key = Some (lit ''t''), prop_data = Some 0, prop_type = JINT16\<rparr>,
       1 \<mapsto> \<lparr>prop_key = Some (lit ''name''), prop_data = Some 1, prop_type = JSTRING\<rparr>],
     data_at = [0 \<mapsto> [0xFE, 0xFF], 1 \<mapsto> lit ''lamp'' @ [0]],
     float_text = (\<lambda>_. []), float_scan = (\<lambda>_ _. None), sh_events = []\<rparr>"

lemma sample_pairs:
  "property_pair sample_shadow UPDATE 0 = Some (lit ''t'', JNumber (lit ''-2''))"
  "property_pair sample_shadow UPDATE 1 = Some (lit ''name'', JString (lit ''lamp''))"
  by (simp_all add: property_pair_def property_json_def sample_shadow_def value_text_def get_bytes_def le_signed_def
      le_value_def decimal_def decimal_nat.simps lit_def cstr_of_array_def)


theorem second_property_overflows_witness:
  "content_loop sample_shadow UPDATE 18 [1, 0] 17 (0x7B # replicate 17 0) = None"
proof -
  have d: "devices sample_shadow 0 = Some \<lparr>prop_key = Some (lit ''t''), prop_data = Some 0, prop_type = JINT16\<rparr>"
    by (simp add: sample_shadow_def)
  have "replicate 17 (0 :: byte) = 0 # replicate 16 0" by (simp flip: replicate_Suc)
  then have "text_in [0x7B] (0x7B # replicate 17 0)" by (simp add: text_in_def)
  from second_property_overflows [OF _ sample_pairs(2) _ d _ this, of "lit ''t''" 18 "[]"] show ?thesis
    by (simp add: pair_text_def lit_def)
qed

end
