(* ===== verification/Shadow_Values.thy ===== *)
theory Shadow_Values
  imports Shadow_Api
begin

text \<open>
  Numbers survive the way through a document: what is printed for the value of a property is scanned
  back to the same bytes.
\<close>

subsection \<open>Decimal numbers\<close>

lemma digit_chars:
  assumes "k < 10"
  shows "is_digit (0x30 + word_of_nat k)" "digit_value (0x30 + word_of_nat k) = k"
proof -
  have "k = 0 \<or> k = 1 \<or> k = 2 \<or> k = 3 \<or> k = 4 \<or> k = 5 \<or> k = 6 \<or> k = 7 \<or> k = 8 \<or> k = 9"
    using assms by arith
  then show "is_digit (0x30 + word_of_nat k)" "digit_value (0x30 + word_of_nat k) = k"
    by (elim disjE; simp add: digit_value_def is_digit_def)+
qed

lemma is_digit_value: "is_digit c \<Longrightarrow> digit_value c < 10"
  by (auto simp: digit_value_def is_digit_def word_le_nat_alt unat_sub)

lemma decimal_nat_digits: "list_all is_digit (decimal_nat n)"
proof (induction n rule: decimal_nat.induct)
  case (1 n)
  then show ?case by (cases "n < 10") (simp_all add: decimal_nat.simps [of n] digit_chars)
qed

lemma decimal_nat_not_Nil [simp]: "decimal_nat n \<noteq> []"
  by (simp add: decimal_nat.simps [of n])

lemma decimal_nat_value: "foldl (\<lambda>m c. m * 10 + int (digit_value c)) 0 (decimal_nat n) = int n"
proof (induction n rule: decimal_nat.induct)
  case (1 n)
  show ?case
  proof (cases "n < 10")
    case False
    with 1 have "foldl (\<lambda>m c. m * 10 + int (digit_value c)) 0 (decimal_nat n) = int (n div 10) * 10 + int (n mod 10)"
      by (simp add: decimal_nat.simps [of n] digit_chars)
    moreover have "n div 10 * 10 + n mod 10 = n" by simp
    ultimately show ?thesis by linarith
  qed (simp add: decimal_nat.simps [of n] digit_chars)
qed

lemma decimal_nat_hd: "0 < n \<Longrightarrow> hd (decimal_nat n) \<noteq> 0x30"
proof (induction n rule: decimal_nat.induct)
  case (1 n)
  show ?case
  proof (cases "n < 10")
    case True
    then have "digit_value (0x30 + word_of_nat n) \<noteq> digit_value 0x30" using 1(2) digit_chars(2) [of n] by (simp add: digit_value_def is_digit_def)
    with True show ?thesis by (auto simp: decimal_nat.simps [of n])
  qed (use 1 in \<open>simp add: decimal_nat.simps [of n] hd_append\<close>)
qed

lemma scan_digits_decimal: "scan_digits 10 (decimal_nat n) = Some (int n)"
proof -
  have "takeWhile (\<lambda>c. digit_value c < 10) (decimal_nat n) = decimal_nat n"
    using decimal_nat_digits [of n] by (simp add: list_all_iff is_digit_value)
  then show ?thesis using decimal_nat_value [of n] by (simp only: scan_digits_def Let_def decimal_nat_not_Nil of_nat_numeral if_False)
qed

lemma digit_not_special:
  assumes "is_digit c"
  shows "c \<noteq> 0x2D" "c \<noteq> 0x2B" "c \<noteq> 0x58" "c \<noteq> 0x78" "c \<notin> {0x20, 0x09, 0x0A, 0x0B, 0x0C, 0x0D}"
  using assms by (auto simp: is_digit_def)

lemma skip_blanks_id: "s \<noteq> [] \<Longrightarrow> hd s \<notin> {0x20, 0x09, 0x0A, 0x0B, 0x0C, 0x0D} \<Longrightarrow> skip_blanks s = s"
  by (cases s) (simp_all add: skip_blanks_def)

lemma decimal_nat_first: "is_digit (hd (decimal_nat n))"
  using decimal_nat_digits [of n] by (cases "decimal_nat n") auto

lemma scan_decimal_nat: "scan_sign (skip_blanks (decimal_nat n)) = (False, decimal_nat n)"
  using digit_not_special [OF decimal_nat_first [of n]] by (simp add: skip_blanks_id scan_sign_def)

lemma scan_u_decimal: "scan_u (decimal_nat n) = Some (int n)"
  by (simp add: scan_u_def scan_decimal_nat scan_signed_def scan_digits_decimal)

text \<open>The digits of a number begin with a zero only if it is zero, so that \<open>%i\<close> reads them as decimal.\<close>

definition scan_unsigned_i :: "bool \<Rightarrow> bytes \<Rightarrow> int option" where
  "scan_unsigned_i neg s =
     (if length s \<ge> 2 \<and> s ! 0 = 0x30 \<and> s ! 1 \<in> {0x58, 0x78} then
        (if digit_value (cstr_at s 2) < 16 then scan_signed 16 neg (drop 2 s) else Some 0)
      else if s \<noteq> [] \<and> hd s = 0x30 then scan_signed 8 neg s
      else scan_signed 10 neg s)"

lemma scan_unsigned_i_decimal: "scan_unsigned_i neg (decimal_nat n) = Some (if neg then - int n else int n)"
proof (cases "n = 0")
  case True
  then show ?thesis
    by (simp add: scan_unsigned_i_def decimal_nat.simps [of 0] scan_signed_def scan_digits_def digit_value_def is_digit_def)
next
  case False
  then have "hd (decimal_nat n) \<noteq> 0x30" "decimal_nat n ! 0 \<noteq> 0x30"
    using decimal_nat_hd [of n] by (simp_all add: hd_conv_nth)
  then show ?thesis by (simp add: scan_unsigned_i_def scan_signed_def scan_digits_decimal)
qed

lemma scan_i_decimal: "scan_i (decimal i) = Some i"
proof -
  have eq: "scan_i s = (case scan_sign (skip_blanks s) of (neg, s) \<Rightarrow> scan_unsigned_i neg s)" for s
    by (simp add: scan_i_def scan_unsigned_i_def case_prod_unfold Let_def)
  show ?thesis
  proof (cases "i < 0")
    case True
    then have "scan_sign (skip_blanks (decimal i)) = (True, decimal_nat (nat (- i)))"
      by (simp add: decimal_def skip_blanks_def scan_sign_def)
    with True show ?thesis by (simp add: eq scan_unsigned_i_decimal)
  next
    case False
    then show ?thesis by (simp add: eq decimal_def scan_decimal_nat scan_unsigned_i_decimal)
  qed
qed

subsection \<open>Bytes in memory\<close>

lemma le_value_simps [simp]: "le_value [] = 0" "le_value (b # bs) = unat b + 256 * le_value bs"
  by (simp_all add: le_value_def)

lemma le_value_less: "le_value bs < 256 ^ length bs"
proof (induction bs)
  case (Cons b bs)
  have "unat b < 256" using unsigned_less [of b] by simp
  with Cons show ?case by simp
qed simp

lemma le_bytes_simps [simp]: "le_bytes 0 n = []" "le_bytes (Suc k) n = word_of_nat n # le_bytes k (n div 256)"
  by (simp_all add: le_bytes_def upt_conv_Cons map_Suc_upt [symmetric] div_mult2_eq comp_def del: upt_Suc)

lemma le_bytes_value: "le_bytes (length bs) (le_value bs) = bs"
proof (induction bs)
  case (Cons b bs)
  have b: "unat b < 256" using unsigned_less [of b] by simp
  have z: "(256 :: byte) = 0" by simp
  have "word_of_nat (unat b + 256 * le_value bs) = b" by (simp add: z)
  with Cons b show ?case by simp
qed simp

lemma le_signed_mod: "le_signed bs mod 2 ^ (8 * length bs) = int (le_value bs)"
proof -
  have "int (le_value bs) < int (256 ^ length bs)" using le_value_less [of bs] by (simp only: of_nat_less_iff)
  then have "int (le_value bs) mod 2 ^ (8 * length bs) = int (le_value bs)" by (simp add: power_mult)
  moreover have "le_signed bs \<in> {int (le_value bs), int (le_value bs) - 2 ^ (8 * length bs)}"
    by (simp add: le_signed_def Let_def)
  ultimately show ?thesis by (auto simp del: power_mult)
qed

lemma unat_word_of_int: "unat (word_of_int i :: 'a :: len word) = nat (i mod 2 ^ LENGTH('a))"
  by (simp add: unsigned_of_int take_bit_eq_mod)

subsection \<open>The way there and back\<close>

definition type_width :: "JsonDataType \<Rightarrow> nat" where
  "type_width type = (case type of JINT32 \<Rightarrow> 4 | JUINT32 \<Rightarrow> 4 | JINT16 \<Rightarrow> 2 | JUINT16 \<Rightarrow> 2 | JINT8 \<Rightarrow> 1 | JUINT8 \<Rightarrow> 1
     | JBOOL \<Rightarrow> 1 | JDOUBLE \<Rightarrow> 8 | JFLOAT \<Rightarrow> 4 | _ \<Rightarrow> 0)"

lemma scanned_value: "length bs = k \<Longrightarrow> scanned k (Some (le_value bs)) = (SUCCESS_RET, bs)"
  using le_bytes_value [of bs] by (simp add: scanned_def)

lemma get_bytes_take: "get_bytes mem 0 k = Some bs \<Longrightarrow> bs = take k mem \<and> length bs = k"
  by (auto simp: get_bytes_def split: if_split_asm)

lemma signed_read_back:
  "length bs = 4 \<Longrightarrow> map_option unat (LITE_get_int32 (decimal (le_signed bs))) = Some (le_value bs)"
  "length bs = 2 \<Longrightarrow> map_option unat (LITE_get_int16 (decimal (le_signed bs))) = Some (le_value bs)"
  "length bs = 1 \<Longrightarrow> map_option unat (LITE_get_int8 (decimal (le_signed bs))) = Some (le_value bs)"
proof -
  have u: "ucast (word_of_int i :: 16 word) = (word_of_int i :: byte)" for i by transfer simp
  note m = le_signed_mod [of bs]
  show "length bs = 4 \<Longrightarrow> map_option unat (LITE_get_int32 (decimal (le_signed bs))) = Some (le_value bs)"
    "length bs = 2 \<Longrightarrow> map_option unat (LITE_get_int16 (decimal (le_signed bs))) = Some (le_value bs)"
    "length bs = 1 \<Longrightarrow> map_option unat (LITE_get_int8 (decimal (le_signed bs))) = Some (le_value bs)"
    using m by (simp_all add: LITE_get_int32_def LITE_get_int16_def LITE_get_int8_def scan_i_decimal unat_word_of_int u)
qed

lemma unsigned_read_back:
  "length bs = 4 \<Longrightarrow> map_option unat (LITE_get_uint32 (decimal_nat (le_value bs))) = Some (le_value bs)"
  "length bs = 2 \<Longrightarrow> map_option unat (LITE_get_uint16 (decimal_nat (le_value bs))) = Some (le_value bs)"
  "length bs = 1 \<Longrightarrow> map_option unat (LITE_get_uint8 (decimal_nat (le_value bs))) = Some (le_value bs)"
proof -
  have u: "ucast (word_of_int i :: 16 word) = (word_of_int i :: byte)" for i by transfer simp
  have w: "unat (word_of_int (int n) :: 'a :: len word) = n mod 2 ^ LENGTH('a)" for n
    by (simp add: unat_word_of_int flip: of_nat_mod of_nat_power) (simp add: take_bit_eq_mod unsigned_of_nat)
  show "length bs = 4 \<Longrightarrow> map_option unat (LITE_get_uint32 (decimal_nat (le_value bs))) = Some (le_value bs)"
    "length bs = 2 \<Longrightarrow> map_option unat (LITE_get_uint16 (decimal_nat (le_value bs))) = Some (le_value bs)"
    "length bs = 1 \<Longrightarrow> map_option unat (LITE_get_uint8 (decimal_nat (le_value bs))) = Some (le_value bs)"
    using le_value_less [of bs]
    by (simp_all add: LITE_get_uint32_def LITE_get_uint16_def LITE_get_uint8_def scan_u_decimal u w del: of_int_of_nat_eq)
qed

text \<open>
  C22: the value of a property of an integer type or a truth value: the text that a request carries for it is
  scanned by \<open>IOT_Shadow_Direct_Update_Value\<close> to the bytes that are in memory, at every width and with
  the sign.
\<close>

theorem value_round_trip:
  assumes "type \<in> {JINT32, JINT16, JINT8, JUINT32, JUINT16, JUINT8, JBOOL}" "value_text s type mem = Some t"
    and "type = JBOOL \<Longrightarrow> hd mem \<in> {0, 1}"
  shows "scan_value s type t = (SUCCESS_RET, take (type_width type) mem)"
proof (cases "type = JBOOL")
  case True
  with assms(2,3) show ?thesis
    by (cases mem) (auto simp: value_text_def scan_value_def LITE_get_boolean_def type_width_def arr_get_def)
next
  case False
  with assms(1,2) obtain bs where bs: "get_bytes mem 0 (type_width type) = Some bs"
      "t = (if type \<in> {JINT32, JINT16, JINT8} then decimal (le_signed bs) else decimal_nat (le_value bs))"
    by (auto simp: value_text_def type_width_def)
  have "scan_value s type t = scanned (type_width type) (Some (le_value bs))"
    using assms(1) False bs(2) get_bytes_take [OF bs(1)]
    by (auto simp: scan_value_def type_width_def signed_read_back unsigned_read_back
        simp del: option.map_sel map_option_eq_Some)
  with scanned_value [of bs] get_bytes_take [OF bs(1)] show ?thesis by metis
qed

theorem value_round_trip_witness:
  "\<exists>(s :: UIoT_Shadow) t. value_text s JINT16 [0xFE, 0xFF] = Some t \<and> scan_value s JINT16 t = (SUCCESS_RET, [0xFE, 0xFF])"
proof -
  fix s :: UIoT_Shadow
  obtain t where t: "value_text s JINT16 [0xFE, 0xFF] = Some t" by (simp add: value_text_def get_bytes_def)
  with value_round_trip [OF _ t] have "scan_value s JINT16 t = (SUCCESS_RET, [0xFE, 0xFF])" by (simp add: type_width_def)
  with t show ?thesis by blast
qed

end
