(* ===== verification/Shadow_Props.thy ===== *)
theory Shadow_Props
  imports Shadow_Document Shadow_Values
begin

text \<open>
  What the device shadow guarantees: which requests a reply completes, which requests time out, how values
  travel, and the document that leaves its buffer.
\<close>

subsection \<open>Replies\<close>

text \<open>The calls of callbacks for requests, in the order in which the list is walked.\<close>

definition report_events :: "RequestAck \<Rightarrow> shadow_lock set \<Rightarrow> Request list \<Rightarrow> (shadow_event \<times> shadow_lock set) list" where
  "report_events ack locks rs = concat (map (\<lambda>r. case rq_callback r of None \<Rightarrow> []
     | Some callback \<Rightarrow> [(RequestDone callback (rq_method r) ack (rq_context r), locks)]) rs)"

lemma report_events_simps [simp]:
  "report_events ack locks [] = []"
  "report_events ack locks (r # rs) = (case rq_callback r of None \<Rightarrow> []
     | Some callback \<Rightarrow> [(RequestDone callback (rq_method r) ack (rq_context r), locks)]) @ report_events ack locks rs"
  "report_events ack locks (rs @ qs) = report_events ack locks rs @ report_events ack locks qs"
  by (simp_all add: report_events_def)

lemma report_request: "report_request ack r s = s\<lparr>sh_events := sh_events s @ report_events ack (sh_held s) [r]\<rparr>"
  by (simp add: report_request_def split: option.split)

text \<open>Every waiting request gets the same answer and leaves the list.\<close>

lemma traverse_all:
  assumes "\<And>ev. reply_status pType (s\<lparr>sh_events := ev\<rparr>) = Some (ack, s\<lparr>sh_events := ev\<rparr>)"
  shows "traverse_requests (handle_request_callback pType) rs kept (s\<lparr>sh_events := ev\<rparr>) =
    Some (kept, s\<lparr>sh_events := ev @ report_events ack (sh_held s) rs\<rparr>)"
proof (induction rs arbitrary: ev)
  case (Cons r rs)
  have "handle_request_callback pType r (s\<lparr>sh_events := ev\<rparr>) =
      Some (True, s\<lparr>sh_events := ev @ report_events ack (sh_held s) [r]\<rparr>)"
    using assms [of ev] by (simp add: handle_request_callback_def report_request del: report_events_simps)
  with Cons.IH show ?case by simp
qed simp

lemma traverse_list_all:
  assumes "\<And>ev. reply_status pType (s\<lparr>sh_held := insert request_mutex (sh_held s), sh_events := ev\<rparr>) =
      Some (ack, s\<lparr>sh_held := insert request_mutex (sh_held s), sh_events := ev\<rparr>)"
    and "request_mutex \<notin> sh_held s" "request_list s = Some l" "mallocs (sh_mqtt s) = []"
  shows "traverse_list (handle_request_callback pType) s = Some (s\<lparr>request_list := Some [],
    sh_events := sh_events s @ report_events ack (insert request_mutex (sh_held s)) (rev l)\<rparr>)"
proof -
  let ?s = "s\<lparr>sh_held := insert request_mutex (sh_held s)\<rparr>"
  have "traverse_requests (handle_request_callback pType) (rev l) [] ?s =
      Some ([], ?s\<lparr>sh_events := sh_events s @ report_events ack (sh_held ?s) (rev l)\<rparr>)"
    using traverse_all [of pType ?s ack "rev l" "[]" "sh_events s"] assms(1) by simp
  moreover have "sh_malloc ?s = (True, ?s)" using assms(4) by (simp add: sh_malloc_def HAL_Malloc_def)
  ultimately show ?thesis using assms(2,3)
    by (cases "l = []") (auto simp: traverse_list_def sh_lock_def sh_unlock_def insert_absorb)
qed

text \<open>A document in the static buffer.\<close>

definition holds_document :: "UIoT_Shadow \<Rightarrow> (bytes \<times> json) list \<Rightarrow> bool" where
  "holds_document s kvs \<longleftrightarrow> (\<exists>post. cloud_rcv_buf s = json_text (JObject kvs) @ 0 # post) \<and> readable (JObject kvs) \<and>
     mallocs (sh_mqtt s) = []"

lemma sh_json_value_found:
  assumes "holds_document s kvs" "names \<noteq> []" "\<forall>n\<in>set names. plain_name n" "prefix_path names (JObject kvs) = Some v"
  shows "sh_json_value (dotted names) s = Some (Some (payload v), s)"
proof -
  obtain post where "cloud_rcv_buf s = json_text (JObject kvs) @ 0 # post" using assms(1) by (auto simp: holds_document_def)
  from json_value_at [OF _ assms(2,3,4) _ this, of "sh_mqtt s"] assms(1) show ?thesis
    by (simp add: sh_json_value_def holds_document_def)
qed

lemma plain_names: "plain_name (lit ''Method'')" "plain_name (lit ''Version'')" "plain_name (lit ''Payload'')"
    "plain_name (lit ''RetCode'')"
  by (simp_all add: plain_name_def lit_def)

lemma parse_fields:
  assumes "holds_document s kvs"
  shows "prefix_path [lit ''Method''] (JObject kvs) = Some v \<Longrightarrow> parse_shadow_method_type s = Some (Some (payload v), s)"
    and "prefix_path [lit ''Version''] (JObject kvs) = Some v \<Longrightarrow> parse_version_num s = Some (LITE_get_uint32 (payload v), s)"
    and "prefix_path [lit ''Payload'', lit ''RetCode''] (JObject kvs) = Some v \<Longrightarrow>
      parse_shadow_payload_retcode_type s = Some (LITE_get_uint32 (payload v), s)"
  using sh_json_value_found [OF assms, of "[lit ''Method'']" v] sh_json_value_found [OF assms, of "[lit ''Version'']" v]
    sh_json_value_found [OF assms, of "[lit ''Payload'', lit ''RetCode'']" v] plain_names
  by (simp_all add: parse_shadow_method_type_def parse_version_num_def parse_shadow_payload_retcode_type_def
      parse_uint32_field_def lit_def del: prefix_path.simps)

lemma receive_json:
  assumes "readable (JObject kvs)" "length (json_text (JObject kvs)) < CLOUD_IOT_JSON_RX_BUF_LEN"
    and "length (cloud_rcv_buf s) = CLOUD_IOT_JSON_RX_BUF_LEN" "mallocs (sh_mqtt s) = []"
  shows "\<exists>mem. receive_document (json_text (JObject kvs)) s = Some (s\<lparr>cloud_rcv_buf := mem\<rparr>) \<and>
    holds_document (s\<lparr>cloud_rcv_buf := mem\<rparr>) kvs"
proof -
  let ?t = "json_text (JObject kvs)"
  have "put_bytes (cloud_rcv_buf s, 0) (?t @ [0]) =
      Some (?t @ 0 # drop (Suc (length ?t)) (cloud_rcv_buf s), Suc (length ?t))"
    using assms(2,3) by (simp add: put_bytes_def del: json_text.simps)
  then show ?thesis using assms
    by (intro exI [of _ "?t @ 0 # drop (Suc (length ?t)) (cloud_rcv_buf s)"])
      (auto simp: receive_document_def holds_document_def simp del: json_text.simps)
qed

lemma retcode_status:
  assumes "holds_document s kvs" "prefix_path [lit ''Payload'', lit ''RetCode''] (JObject kvs) = Some v"
    and "LITE_get_uint32 (payload v) = Some code"
  shows "reply_status (lit ''reply'') s = Some (if code = 0 then ACK_ACCEPTED else ACK_REJECTED, s)"
  using parse_fields(3) [OF assms(1,2)] assms(3) by (simp add: reply_status_def lit_def)

lemma handle_reply:
  assumes "holds_document s kvs" "prefix_path [lit ''Payload'', lit ''RetCode''] (JObject kvs) = Some v"
    and "LITE_get_uint32 (payload v) = Some code" "request_mutex \<notin> sh_held s" "request_list s = Some requests"
  shows "handle_result react (lit ''reply'') s = Some (if code = 0
    then s\<lparr>request_list := Some [], sh_events := sh_events s @
      report_events ACK_ACCEPTED (insert request_mutex (sh_held s)) (rev requests)\<rparr> else s)"
proof (cases "code = 0")
  case True
  have "traverse_list (handle_request_callback (lit ''reply'')) s = Some (s\<lparr>request_list := Some [],
    sh_events := sh_events s @ report_events ACK_ACCEPTED (insert request_mutex (sh_held s)) (rev requests)\<rparr>)"
  proof (rule traverse_list_all [OF _ assms(4,5)])
    show "mallocs (sh_mqtt s) = []" using assms(1) by (simp add: holds_document_def)
    show "reply_status (lit ''reply'') (s\<lparr>sh_held := insert request_mutex (sh_held s), sh_events := ev\<rparr>) =
        Some (ACK_ACCEPTED, s\<lparr>sh_held := insert request_mutex (sh_held s), sh_events := ev\<rparr>)" for ev
      using retcode_status [OF _ assms(2,3)] True assms(1) by (simp add: holds_document_def)
  qed
  with True parse_fields(3) [OF assms(1,2)] assms(3) show ?thesis by (simp add: handle_result_def)
next
  case False
  with parse_fields(3) [OF assms(1,2)] assms(3) show ?thesis by (simp add: handle_result_def)
qed

text \<open>C20: a reply of the cloud.  When a document whose method is \<open>reply\<close> arrives with a version and a return code, the
  version is stored; if the code is 0 every request that waits, whatever its kind, is reported as accepted and the list
  is empty after it, each callback running while the mutex of the list is held; if it is not 0 nothing else happens:
  no callback is told of the rejection, and the requests wait on.  The strings of the document hold no quote, brace,
  bracket or NUL, and no other key begins with the name of one that is looked up.\<close>

theorem reply_completes_requests:
  assumes "readable (JObject kvs)" "length (json_text (JObject kvs)) < CLOUD_IOT_JSON_RX_BUF_LEN"
    and "json_path [lit ''Method''] (JObject kvs) = Some m" "payload m = lit ''reply''"
    and "json_path [lit ''Version''] (JObject kvs) = Some v" "LITE_get_uint32 (payload v) = Some version"
    and "json_path [lit ''Payload'', lit ''RetCode''] (JObject kvs) = Some r" "LITE_get_uint32 (payload r) = Some code"
    and "\<forall>names \<in> {[lit ''Method''], [lit ''Version''], [lit ''Payload'', lit ''RetCode'']}. json_clear names (JObject kvs)"
    and "length (cloud_rcv_buf s) = CLOUD_IOT_JSON_RX_BUF_LEN" "mallocs (sh_mqtt s) = []"
    and "request_mutex \<notin> sh_held s" "request_list s = Some requests"
  shows "\<exists>mem. topic_request_result_handler react (json_text (JObject kvs)) s = Some
    (if code = 0
     then s\<lparr>cloud_rcv_buf := mem, sh_version := version, request_list := Some [],
       sh_events := sh_events s @ report_events ACK_ACCEPTED (insert request_mutex (sh_held s)) (rev requests)\<rparr>
     else s\<lparr>cloud_rcv_buf := mem, sh_version := version\<rparr>)"
proof -
  have path: "prefix_path [lit ''Method''] (JObject kvs) = Some m" "prefix_path [lit ''Version''] (JObject kvs) = Some v"
    "prefix_path [lit ''Payload'', lit ''RetCode''] (JObject kvs) = Some r"
    using json_path_prefix [OF assms(3)] json_path_prefix [OF assms(5)] json_path_prefix [OF assms(7)] assms(9)
    by simp_all
  obtain mem where mem: "receive_document (json_text (JObject kvs)) s = Some (s\<lparr>cloud_rcv_buf := mem\<rparr>)"
      and doc: "holds_document (s\<lparr>cloud_rcv_buf := mem\<rparr>) kvs"
    using receive_json [OF assms(1,2,10,11)] by blast
  let ?s = "s\<lparr>cloud_rcv_buf := mem, sh_version := version\<rparr>"
  have doc': "holds_document ?s kvs" using doc by (simp add: holds_document_def)
  have "topic_request_result_handler react (json_text (JObject kvs)) s = handle_result react (lit ''reply'') ?s"
    using assms(2,4,6) mem parse_fields(1) [OF doc path(1)] parse_fields(2) [OF doc path(2)]
    by (simp add: topic_request_result_handler_def del: json_text.simps)
  with handle_reply [OF doc' path(3) assms(8), of requests react] assms(12,13) show ?thesis
    by (intro exI [of _ mem]) simp
qed

theorem reply_completes_requests_witness:
  "\<exists>s'. topic_request_result_handler (\<lambda>_ _ _ pp s. Some (pp, s))
      (lit ''{\"Method\":\"reply\",\"Payload\":{\"RetCode\":0},\"Version\":4}'') sample_shadow = Some s' \<and>
    request_list s' = Some [] \<and> sh_version s' = 4 \<and> sh_events s' =
      [(RequestDone 71 GET ACK_ACCEPTED 2, {request_mutex}), (RequestDone 70 UPDATE ACK_ACCEPTED 1, {request_mutex})]"
proof -
  let ?react = "\<lambda>_ _ _ pp s. Some (pp, s)"
  let ?kvs = "[(lit ''Method'', JString (lit ''reply'')), (lit ''Payload'', JObject [(lit ''RetCode'', JNumber (lit ''0''))]),
    (lit ''Version'', JNumber (lit ''4''))]"
  have s: "length (cloud_rcv_buf sample_shadow) = 2049" "mallocs (sh_mqtt sample_shadow) = []"
      "request_mutex \<notin> sh_held sample_shadow" "sh_held sample_shadow = {}" "sh_events sample_shadow = []"
      "request_list sample_shadow = Some [\<lparr>rq_method = UPDATE, rq_context = 1, rq_timer = 5, rq_callback = Some 70\<rparr>,
        \<lparr>rq_method = GET, rq_context = 2, rq_timer = 900, rq_callback = Some 71\<rparr>]"
    by (simp_all add: sample_shadow_def zero_client_def)
  have n: "LITE_get_uint32 (lit ''0'') = Some 0" "LITE_get_uint32 (lit ''4'') = Some 4"
    by (simp_all add: LITE_get_uint32_def scan_u_def lit_def skip_blanks_def scan_sign_def scan_signed_def scan_digits_def
        digit_value_def is_digit_def)
  have "\<exists>mem. topic_request_result_handler ?react (json_text (JObject ?kvs)) sample_shadow =
    Some (sample_shadow\<lparr>cloud_rcv_buf := mem, sh_version := 4, request_list := Some [],
      sh_events := [(RequestDone 71 GET ACK_ACCEPTED 2, {request_mutex}), (RequestDone 70 UPDATE ACK_ACCEPTED 1, {request_mutex})]\<rparr>)"
    using reply_completes_requests [of ?kvs "JString (lit ''reply'')" "JNumber (lit ''4'')" 4 "JNumber (lit ''0'')" 0
        sample_shadow _ ?react, OF _ _ _ _ _ _ _ _ _ s(1,2,3,6)] n s(4,5)
    by (simp add: lit_def plain_string_def is_digit_def)
  then show ?thesis by (auto simp: lit_def)
qed

subsection \<open>Requests that time out\<close>

lemma has_expired_eq:
  "has_expired t (c :: UIoT_Client) = (t \<le> clock (clock_read c), clock_read c)"
  by (simp add: has_expired_def HAL_Timer_Expired_def clock_read_def case_prod_unfold Let_def gettimeofday_def)

text \<open>One mark for every request: whether its time was over when it was looked at.\<close>

definition marked :: "Request list \<Rightarrow> bool list \<Rightarrow> Request list" where
  "marked rs ms = map fst (filter snd (zip rs ms))"

lemma marked_simps [simp]:
  "marked [] ms = []" "marked (r # rs) (m # ms) = (if m then r # marked rs ms else marked rs ms)"
  by (simp_all add: marked_def)

lemma marked_append [simp]: "length rs = length ms \<Longrightarrow> marked (rs @ qs) (ms @ ns) = marked rs ms @ marked qs ns"
  by (simp add: marked_def)

lemma marked_rev: "length rs = length ms \<Longrightarrow> marked (rev rs) (rev ms) = rev (marked rs ms)"
  by (induction rs ms rule: list_induct2) simp_all

text \<open>What the marks say of the clock.\<close>

definition marks_true :: "nat \<Rightarrow> nat \<Rightarrow> Request list \<Rightarrow> bool list \<Rightarrow> bool" where
  "marks_true before after rs ms \<longleftrightarrow>
     list_all2 (\<lambda>r m. if m then rq_timer r \<le> after else before < rq_timer r) rs ms"

lemma marks_true_mono:
  "marks_true b a rs ms \<Longrightarrow> b' \<le> b \<Longrightarrow> a \<le> a' \<Longrightarrow> marks_true b' a' rs ms"
  unfolding marks_true_def by (erule list_all2_mono) (auto split: if_split_asm)

lemma traverse_expired:
  "\<exists>ms c. length ms = length rs \<and> clock (sh_mqtt s) \<le> clock c \<and> marks_true (clock (sh_mqtt s)) (clock c) rs ms \<and>
     traverse_requests handle_expired_request_callback rs kept s =
       Some (rev (marked rs (map Not ms)) @ kept, s\<lparr>sh_mqtt := c,
         sh_events := sh_events s @ report_events ACK_TIMEOUT (sh_held s) (marked rs ms)\<rparr>)"
proof (induction rs arbitrary: kept s)
  case Nil
  then show ?case by (auto simp: marks_true_def intro!: exI [of _ "sh_mqtt s"])
next
  case (Cons r rs)
  let ?c = "clock_read (sh_mqtt s)" and ?m = "rq_timer r \<le> clock (clock_read (sh_mqtt s))"
  let ?s = "s\<lparr>sh_mqtt := ?c, sh_events := sh_events s @ (if ?m then report_events ACK_TIMEOUT (sh_held s) [r] else [])\<rparr>"
  have step: "handle_expired_request_callback r s = Some (?m, ?s)"
    by (simp add: handle_expired_request_callback_def has_expired_eq report_request del: report_events_simps)
  obtain ms c where ih: "length ms = length rs" "clock ?c \<le> clock c" "marks_true (clock ?c) (clock c) rs ms"
      "traverse_requests handle_expired_request_callback rs (if ?m then kept else r # kept) ?s =
        Some (rev (marked rs (map Not ms)) @ (if ?m then kept else r # kept), ?s\<lparr>sh_mqtt := c,
          sh_events := sh_events ?s @ report_events ACK_TIMEOUT (sh_held ?s) (marked rs ms)\<rparr>)"
    using Cons.IH [of ?s "if ?m then kept else r # kept"] by auto
  have k: "clock (sh_mqtt s) < clock ?c" by (rule clock_read_less)
  have "marks_true (clock (sh_mqtt s)) (clock c) (r # rs) (?m # ms)"
    using marks_true_mono [OF ih(3), of "clock (sh_mqtt s)" "clock c"] k ih(2) by (auto simp: marks_true_def)
  then show ?case using ih k step by (intro exI [of _ "?m # ms"] exI [of _ c]) auto
qed

text \<open>
  C21: requests that wait too long.  \<open>handle_expired_request\<close> always returns; it takes out of the list exactly the
  requests whose time is over when they are looked at, keeps the others in their order, and tells the callback of each
  one that is gone, from the last one to the first, once and with the mutex of the list held, that its time is over.
\<close>

theorem expired_requests_leave:
  assumes "request_mutex \<notin> sh_held s" "request_list s = Some requests" "mallocs (sh_mqtt s) = []"
  shows "\<exists>ms c. length ms = length requests \<and> clock (sh_mqtt s) \<le> clock c \<and>
    marks_true (clock (sh_mqtt s)) (clock c) requests ms \<and>
    handle_expired_request s = Some (s\<lparr>sh_mqtt := c, request_list := Some (marked requests (map Not ms)),
      sh_events := sh_events s @ report_events ACK_TIMEOUT (insert request_mutex (sh_held s)) (rev (marked requests ms))\<rparr>)"
proof (cases "requests = []")
  case True
  with assms show ?thesis
    by (auto simp: handle_expired_request_def traverse_list_def sh_lock_def sh_unlock_def marks_true_def
        intro!: exI [of _ "sh_mqtt s"])
next
  case False
  let ?s = "s\<lparr>sh_held := insert request_mutex (sh_held s)\<rparr>"
  obtain ms c where ms: "length ms = length (rev requests)" "clock (sh_mqtt s) \<le> clock c"
      "marks_true (clock (sh_mqtt s)) (clock c) (rev requests) ms"
      "traverse_requests handle_expired_request_callback (rev requests) [] ?s =
        Some (rev (marked (rev requests) (map Not ms)), ?s\<lparr>sh_mqtt := c,
          sh_events := sh_events s @ report_events ACK_TIMEOUT (sh_held ?s) (marked (rev requests) ms)\<rparr>)"
    using traverse_expired [of "rev requests" ?s "[]"] by auto
  have m: "sh_malloc ?s = (True, ?s)" using assms(3) by (simp add: sh_malloc_def HAL_Malloc_def)
  have r: "marked (rev requests) ms = rev (marked requests (rev ms))"
      "marked (rev requests) (map Not ms) = rev (marked requests (map Not (rev ms)))"
    using marked_rev [of requests "rev ms"] marked_rev [of requests "map Not (rev ms)"] ms(1) by (simp_all add: rev_map)
  have "marks_true (clock (sh_mqtt s)) (clock c) requests (rev ms)"
    using ms(3) list_all2_rev [of _ "rev requests" ms] unfolding marks_true_def by simp
  moreover have "handle_expired_request s = Some (s\<lparr>sh_mqtt := c, request_list := Some (marked requests (map Not (rev ms))),
      sh_events := sh_events s @ report_events ACK_TIMEOUT (insert request_mutex (sh_held s)) (rev (marked requests (rev ms)))\<rparr>)"
    using False assms(1,2) m ms(4) r by (simp add: handle_expired_request_def traverse_list_def sh_lock_def sh_unlock_def)
  ultimately show ?thesis using ms(1,2) by (intro exI [of _ "rev ms"] exI [of _ c]) simp
qed

theorem expired_requests_leave_witness:
  "\<exists>s'. handle_expired_request sample_shadow = Some s' \<and>
    (RequestDone 70 UPDATE ACK_TIMEOUT 1, {request_mutex}) \<in> set (sh_events s')"
proof -
  let ?r = "\<lparr>rq_method = UPDATE, rq_context = 1, rq_timer = 5, rq_callback = Some 70\<rparr>"
  let ?q = "\<lparr>rq_method = GET, rq_context = 2, rq_timer = 900, rq_callback = Some 71\<rparr>"
  have s: "request_mutex \<notin> sh_held sample_shadow" "request_list sample_shadow = Some [?r, ?q]"
      "mallocs (sh_mqtt sample_shadow) = []" "sh_held sample_shadow = {}" "clock (sh_mqtt sample_shadow) = 8"
    by (simp_all add: sample_shadow_def zero_client_def)
  from expired_requests_leave [OF s(1-3)] obtain ms c where
      ms: "length ms = length [?r, ?q]" "marks_true 8 (clock c) [?r, ?q] ms"
        "handle_expired_request sample_shadow = Some (sample_shadow\<lparr>sh_mqtt := c,
          request_list := Some (marked [?r, ?q] (map Not ms)), sh_events := sh_events sample_shadow @
            report_events ACK_TIMEOUT (insert request_mutex (sh_held sample_shadow)) (rev (marked [?r, ?q] ms))\<rparr>)"
    unfolding s(5) by (elim exE conjE) (rule that)
  then obtain m where "ms = [True, m]" by (auto simp: marks_true_def list_all2_Cons1 split: if_split_asm)
  with ms(3) s(4) show ?thesis by simp
qed

end
