(* ===== verification/Spec2Isabelle.thy ===== *)
theory Spec2Isabelle
  imports Codec_Props List_Props Topic_Props Hal_Props Suback_Props Ring_Buffer Utils_Sha2 Utils_Md5 Json_Bounds Lite_String Ota_Reach Shadow_Props
begin

text \<open>
  A verification library for the UCloud IoT device SDK in C.  Paths are relative to the directory
  \<^verbatim>\<open>src/\<close> of the repository's root, e.g. \<^verbatim>\<open>src/mqtt/src/mqtt_client.c\<close>.

  \<^bold>\<open>The program.\<close>  The SDK connects a device to the cloud.  Its core is an MQTT 3.1.1 client: it puts
  packets together in one buffer and sends them over TLS; whatever waits for an acknowledgement is kept
  in two lists; a yield function, called again and again by the application, receives and dispatches
  packets, keeps the connection alive, sets it up again and supervises the waiting requests.  The
  firmware update is a client of it: messages of the cloud are JSON texts, a download is fetched over HTTP
  piece by piece, written to the flash and checked with MD5.  The device shadow, another client of it,
  reports properties of the device in JSON texts and learns from them what the cloud desires.  SHA-256 and HMAC, a ring buffer
  for modems that are driven by AT commands and conversions of strings complete the part that is modelled.

  \<^bold>\<open>How code is modelled.\<close>  A C function is a HOL function from its arguments and the state to its return
  value and the new state.  What has no defined result in C (access outside an array, use of NULL or of freed
  memory, a mutex locked twice or unlocked by a stranger, division by zero, overflow of an \<open>int\<close>) is
  \<open>None\<close>; error codes are the integers of \<^verbatim>\<open>src/sdk-impl/uiot_defs.h\<close>.  Machine integers are words
  where the code relies on their width.  Code that is not the program's (operating system, mbedtls, the peer, the HTTP
  client) is a script in the state, which the calls consume: a theorem about all states is one about
  all behaviours of that code.  A message handler of the application is an event in a trace, with the
  mutexes that are held while it runs.

  \<^bold>\<open>Theories and sources.\<close>

  \<^item> \<open>Prelude\<close>: bytes, result codes, array accesses, C strings, and \<open>okp\<close>, total correctness of
    state-passing code.
  \<^item> \<open>Utils_List\<close>, \<open>List_Props\<close>: \<^verbatim>\<open>src/utils/utils_list.c\<close> on an explicit heap of nodes.  The
    locale \<open>pending_list\<close> is what the wait lists need of a list; it is interpreted on the
    pointers and on the association lists of the client.
  \<^item> \<open>Mqtt_Codec\<close>, \<open>Codec_Props\<close>: the readers, writers, serializers and deserializers of
    \<^verbatim>\<open>src/mqtt/src/mqtt_client_*.c\<close>.
  \<^item> \<open>Mqtt_Topic\<close>, \<open>Topic_Props\<close>: matching of topics in \<^verbatim>\<open>mqtt_client_common.c\<close>.
  \<^item> \<open>Hal_World\<close>, \<open>Hal_Props\<close>: clock, timers, mutexes, allocation and the TLS loops of
    \<^verbatim>\<open>platform/\<close>, with \<^verbatim>\<open>src/utils/utils_timer.c\<close> and \<^verbatim>\<open>utils_net.c\<close>.  The record \<open>world\<close> is the
    state; \<open>UIoT_Client\<close> extends it.
  \<^item> \<open>Mqtt_Client\<close>: the client record of \<^verbatim>\<open>src/mqtt/include/mqtt_client.h\<close>, packet identifiers and the wait
    lists.  \<open>Mqtt_IO\<close>: sending and receiving whole packets.  \<open>Mqtt_Dispatch\<close>: the handlers of
    incoming packets.  \<open>Mqtt_Session\<close>: publish, subscribe, unsubscribe, connect, reconnect, disconnect.
    \<open>Mqtt_Yield\<close>: \<^verbatim>\<open>mqtt_client_yield.c\<close>.  \<open>Mqtt_Api\<close>: \<^verbatim>\<open>mqtt_client.c\<close>.
  \<^item> \<open>Client_Frame\<close>: what every operation of the client keeps.  \<open>Client_Reach\<close>: the step relation
    of the interface and the invariant of all reachable clients.  \<open>Calm_IO\<close>: exact results of input and output
    when the platform is quick and the peer sends whole packets.
  \<^item> \<open>Connect_Props\<close>, \<open>Request_Props\<close>, \<open>Dispatch_Props\<close>, \<open>Deliver_Props\<close>, \<open>Suback_Props\<close>: the properties of
    the client.
  \<^item> \<open>Ring_Buffer\<close>: \<^verbatim>\<open>src/at/src/at_ringbuff.c\<close>, with the locale \<open>byte_fifo\<close>.
  \<^item> \<open>Hash_Stream\<close>, \<open>Utils_Sha2\<close>, \<open>Utils_Md5\<close>: \<^verbatim>\<open>src/utils/utils_sha2.c\<close> and \<^verbatim>\<open>utils_md5.c\<close>; the
    locale \<open>digest_stream\<close> is a digest that is fed in pieces, interpreted for both.
  \<^item> \<open>Json_Parser\<close>, \<open>Json_Props\<close>, \<open>Json_Token\<close>, \<open>Json_Lookup\<close>, \<open>Json_Bounds\<close>:
    \<^verbatim>\<open>src/utils/json_parser.c\<close> and \<^verbatim>\<open>json_token.c\<close> on the array that holds the text.
  \<^item> \<open>Lite_String\<close>: the conversions of \<^verbatim>\<open>src/utils/string_utils.c\<close>.
  \<^item> \<open>Text_Format\<close>: numbers as text, printed and scanned, with the \<open>LITE_get_\<close> functions of \<^verbatim>\<open>json_token.c\<close>.
  \<^item> \<open>Ota_Lib\<close>, \<open>Ota_Client\<close>, \<open>Ota_Download\<close>, \<open>Ota_Frame\<close>, \<open>Ota_Props\<close>, \<open>Ota_Reach\<close>: the firmware
    update, \<^verbatim>\<open>src/ota/src/\<close>, on top of the MQTT client, the JSON reader and MD5: what it leaves alone,
    what a download guarantees, and that the client below keeps its invariant.
  \<^item> \<open>Shadow_Json\<close>, \<open>Shadow_Client\<close>, \<open>Shadow_Api\<close>: the device shadow, \<^verbatim>\<open>src/shadow/src/\<close>, on top of the MQTT
    client and the JSON reader: documents, requests and properties, incoming documents and the exported functions.
    \<open>Shadow_Document\<close>, \<open>Shadow_Values\<close>, \<open>Shadow_Props\<close>: the text of a request, numbers on their way through it, replies
    and time-outs.

  \<^bold>\<open>What is shown.\<close>  The packets are laid out as the protocol demands and read back as they were written;
  the parser of a PUBLISH reads outside the buffer only for a packet without room for its identifier that ends with
  the buffer.  Connecting, publishing and
  subscribing do exactly what they report, on every error path too, and leak no request.  An incoming message
  reaches the first subscription that matches, with no lock held, and is acknowledged; acknowledgements
  complete exactly their request; the supervision reports a request as overdue once.  Every client
  that calls of the interface can produce satisfies one invariant.  The list on pointers refines a
  list of values, with and without memory for its iterators, the ring buffer a bounded queue.  SHA-256, HMAC and MD5 equal their standards.  The JSON
  reader shows the pairs of a printed object and follows paths to their values, where no string or key is empty or
  holds quotes or braces and no other key begins with the name it looks for (texts of less than 2^31 bytes).  A firmware that is reported as
  downloaded has the announced digest, if it has the announced length.  A request of the device shadow sends the
  text of one JSON value, and its numbers come back as they were; it is completed by a reply or by its time-out.  Where the code
  does not do what it means to, a theorem shows the run.

  \<^bold>\<open>Termination and bounds.\<close>  No fuel is used.  The loops that wait end because every reading of the clock
  takes at least a microsecond and their timers lie in the future (measure: the time that is left; it rests on
  \<open>Client_Frame\<close>, by which no operation turns the clock back).  Loops over tables, topics and JSON texts end
  by the distance to the end of the array.  The retries of a fetch are counted down from five.  The loop of a download
  and the chain of messages that wait for it depend on the peer and need not end; they are partial functions whose
  value is \<open>None\<close> then, and what is shown of them is what holds when they return.  Tables and buffers have the sizes of
  the code: 2048 bytes each way, ten subscriptions, twenty publishes in flight, 50 remembered identifiers,
  4100 bytes for a piece of a firmware.

  \<^bold>\<open>What is not modelled.\<close>

  \<^item> The device model puts JSON texts together with \<open>snprintf\<close> and hands them to the MQTT client; its substance is
    tables of topics and callbacks of the application.
  \<^item> Of the device shadow what is only freed, and the conversions of floating-point numbers, which are parameters.
  \<^item> The HTTP client works on text with \<open>sscanf\<close>, \<open>strstr\<close> and \<open>snprintf\<close>; its answers are a script.
  \<^item> The AT client is a thread on a serial line; of it only the ring buffer is modelled.  The TCP and AT variants of
    \<^verbatim>\<open>utils_net.c\<close> are other configurations of the layer that is modelled for TLS.
  \<^item> Of \<^verbatim>\<open>json_token.c\<close> the list of keys; of
    \<^verbatim>\<open>string_utils.c\<close> formatting and replacement; of \<^verbatim>\<open>json_parser.h\<close> the macro for arrays, which the
    library does not use; of \<^verbatim>\<open>utils_sha2.c\<close> the unrolled variant, which is compiled out.
  \<^item> Other platforms than Linux, certificates, samples, tests, and the bundled mbedtls and googletest.
  \<^item> Threads: one thread at a time works on a client.  Mutexes are modelled, so that a lock that is taken twice or not
    given back shows.
\<close>

end
